(* ===== verification/Unwind_Prelude.thy ===== *)
theory Unwind_Prelude
  imports Main "HOL-Library.Word" "HOL-Library.AList"
begin

text \<open>
  Shared vocabulary of the development: the machine integer types of the C++ sources, the
  outcome of a fallible C++ call, sequencing of calls that mutate an object, little-endian
  object representation, and \<^verbatim>\<open>std::map\<close> as a strictly sorted association list.

  The model fixes what the supported build targets have in common: two's complement integers,
  little-endian byte order and 64-bit \<^verbatim>\<open>size_t\<close>.
\<close>

unbundle bit_operations_syntax

section \<open>Machine integers\<close>

type_synonym u8 = "8 word"
type_synonym u16 = "16 word"
type_synonym u32 = "32 word"
type_synonym u64 = "64 word"

named_theorems prog_simps \<open>defining equations of the sequencing combinators\<close>
named_theorems prog_frame \<open>fields of an object that a call leaves alone\<close>
named_theorems maintain \<open>invariants that a call maintains\<close>
named_theorems keep \<open>parts of an object that no outcome of a call changes\<close>
named_theorems fuelled \<open>calls that do not run out of fuel\<close>

section \<open>Outcomes of C++ calls\<close>

text \<open>
  A \<^verbatim>\<open>bool\<close>-returning member function that returns \<^verbatim>\<open>true\<close> is \<open>Ok\<close>, one that returns
  \<^verbatim>\<open>false\<close> is \<open>Fail\<close>. \<open>Crash\<close> is everything that is not a return: a failed \<^verbatim>\<open>CHECK\<close> or
  \<^verbatim>\<open>abort()\<close>, behaviour the C++ standard leaves undefined (an out of range container access, an
  oversized shift, a signed overflow), and, for loops without a termination argument, running
  out of the fuel the model gave them. The state is returned on every path, because the callers
  read it after a failure too.
\<close>

datatype crash = CheckFailed | Undefined | OutOfFuel

datatype 'a outcome = Ok 'a | Fail | Crash crash

type_synonym ('s, 'a) prog = "'s \<Rightarrow> 'a outcome \<times> 's"

definition ret :: "'a \<Rightarrow> ('s, 'a) prog" where
  "ret x = (\<lambda>s. (Ok x, s))"

definition crash :: "crash \<Rightarrow> ('s, 'a) prog" where
  "crash c = (\<lambda>s. (Crash c, s))"

definition fail_with :: "('s \<Rightarrow> 's) \<Rightarrow> ('s, 'a) prog" where
  "fail_with f = (\<lambda>s. (Fail, f s))"

definition gets :: "('s \<Rightarrow> 'a) \<Rightarrow> ('s, 'a) prog" where
  "gets f = (\<lambda>s. (Ok (f s), s))"

definition modify :: "('s \<Rightarrow> 's) \<Rightarrow> ('s, unit) prog" where
  "modify f = (\<lambda>s. (Ok (), f s))"

definition bnd :: "('s, 'a) prog \<Rightarrow> ('a \<Rightarrow> ('s, 'b) prog) \<Rightarrow> ('s, 'b) prog" where
  "bnd m f = (\<lambda>s. case m s of
      (Ok x, s') \<Rightarrow> f x s'
    | (Fail, s') \<Rightarrow> (Fail, s')
    | (Crash c, s') \<Rightarrow> (Crash c, s'))"

text \<open>The idiom \<^verbatim>\<open>if (!call()) { last_error_ = ...; return false; }\<close>.\<close>

definition on_fail :: "('s, 'a) prog \<Rightarrow> ('s \<Rightarrow> 's) \<Rightarrow> ('s, 'a) prog" where
  "on_fail m f = (\<lambda>s. case m s of (Fail, s') \<Rightarrow> (Fail, f s') | r \<Rightarrow> r)"

text \<open>A call on a member object: \<open>get\<close> and \<open>put\<close> select and replace the member.\<close>

definition on_member :: "('s \<Rightarrow> 'm) \<Rightarrow> ('m \<Rightarrow> 's \<Rightarrow> 's) \<Rightarrow> ('m, 'a) prog \<Rightarrow> ('s, 'a) prog" where
  "on_member get put m = (\<lambda>s. case m (get s) of (r, m') \<Rightarrow> (r, put m' s))"

text \<open>A failed call that does not end the caller: it goes on with \<open>k\<close>.\<close>

definition or_else :: "('s, 'a) prog \<Rightarrow> ('s, 'a) prog \<Rightarrow> ('s, 'a) prog" where
  "or_else m k = (\<lambda>s. case m s of (Fail, s') \<Rightarrow> k s' | r \<Rightarrow> r)"

section \<open>Formatted output\<close>

text \<open>
  The conversions of \<^verbatim>\<open>std::to_string\<close> and \<^verbatim>\<open>StringPrintf\<close> that the log functions use: decimal and
  hexadecimal numbers, padded with zeros to a minimal width.
\<close>

definition digit :: "nat \<Rightarrow> char" where
  "digit n = char_of (if n < 10 then 48 + n else 87 + n)"

function digits :: "nat \<Rightarrow> nat \<Rightarrow> string" where
  "digits base n =
     (if n < base \<or> base \<le> 1 then [digit n] else digits base (n div base) @ [digit (n mod base)])"
  by pat_completeness auto
termination
  by (relation "measure snd") auto

declare digits.simps [simp del]

definition dec :: "nat \<Rightarrow> string" where
  "dec n = digits 10 n"

definition sdec :: "int \<Rightarrow> string" where
  "sdec i = (if i < 0 then ''-'' @ dec (nat (- i)) else dec (nat i))"

definition pad0 :: "nat \<Rightarrow> string \<Rightarrow> string" where
  "pad0 width str = replicate (width - length str) (CHR ''0'') @ str"

definition hex :: "nat \<Rightarrow> string" where
  "hex n = digits 16 n"

section \<open>Object representation\<close>

fun le_nat :: "u8 list \<Rightarrow> nat" where
  "le_nat [] = 0"
| "le_nat (b # bs) = unat b + 256 * le_nat bs"

definition le_word :: "u8 list \<Rightarrow> 'a::len word" where
  "le_word bs = word_of_nat (le_nat bs)"

fun le_bytes :: "nat \<Rightarrow> 'a::len word \<Rightarrow> u8 list" where
  "le_bytes 0 w = []"
| "le_bytes (Suc n) w = ucast w # le_bytes n (drop_bit 8 w)"

text \<open>\<^verbatim>\<open>sizeof(AddressType)\<close>, for the two instantiations \<^verbatim>\<open>uint32_t\<close> and \<^verbatim>\<open>uint64_t\<close>.\<close>

definition sizeof :: "'a::len itself \<Rightarrow> nat" where
  "sizeof _ = LENGTH('a) div 8"

text \<open>
  \<^verbatim>\<open>memcpy(&value, bytes, n)\<close> into an object of \<^verbatim>\<open>sizeof(value)\<close> bytes: the first \<open>n\<close> bytes are
  replaced, the others keep their old contents.
\<close>

definition overlay :: "u8 list \<Rightarrow> 'a::len word \<Rightarrow> 'a word" where
  "overlay bs w = le_word (bs @ drop (length bs) (le_bytes (sizeof TYPE('a)) w))"

section \<open>\<^verbatim>\<open>std::map\<close>\<close>

type_synonym 'v omap = "(u64 \<times> 'v) list"

definition omap_inv :: "'v omap \<Rightarrow> bool" where
  "omap_inv m \<longleftrightarrow> sorted_wrt (<) (map fst m)"

text \<open>\<^verbatim>\<open>m[k] = v\<close>.\<close>

fun omap_assign :: "u64 \<Rightarrow> 'v \<Rightarrow> 'v omap \<Rightarrow> 'v omap" where
  "omap_assign k v [] = [(k, v)]"
| "omap_assign k v ((k', v') # m) =
     (if k < k' then (k, v) # (k', v') # m
      else if k = k' then (k, v) # m
      else (k', v') # omap_assign k v m)"

text \<open>\<^verbatim>\<open>m.emplace(k, v)\<close>: an existing element is kept.\<close>

definition omap_emplace :: "u64 \<Rightarrow> 'v \<Rightarrow> 'v omap \<Rightarrow> 'v omap" where
  "omap_emplace k v m = (if map_of m k = None then omap_assign k v m else m)"

text \<open>\<^verbatim>\<open>m.upper_bound(k)\<close>: the element with the least key above \<open>k\<close>, \<^verbatim>\<open>end()\<close> being \<open>None\<close>.\<close>

fun upper_bound :: "'v omap \<Rightarrow> u64 \<Rightarrow> (u64 \<times> 'v) option" where
  "upper_bound [] k = None"
| "upper_bound ((k', v') # m) k = (if k < k' then Some (k', v') else upper_bound m k)"

section \<open>Lemmas on the combinators\<close>

lemmas prog_defs = ret_def crash_def fail_with_def gets_def modify_def

lemma ret_apply [simp, prog_simps]: "ret x s = (Ok x, s)"
  by (simp add: ret_def)

lemma crash_apply [simp, prog_simps]: "crash c s = (Crash c, s)"
  by (simp add: crash_def)

lemma fail_with_apply [simp, prog_simps]: "fail_with f s = (Fail, f s)"
  by (simp add: fail_with_def)

lemma gets_apply [simp, prog_simps]: "gets f s = (Ok (f s), s)"
  by (simp add: gets_def)

lemma modify_apply [simp, prog_simps]: "modify f s = (Ok (), f s)"
  by (simp add: modify_def)

lemma prog_if_apply [simp, prog_simps]: "(if b then p else q) s = (if b then p s else q s)"
  by simp

lemma bnd_simps [prog_simps]:
  "m s = (Ok x, s') \<Longrightarrow> bnd m f s = f x s'"
  "m s = (Fail, s') \<Longrightarrow> bnd m f s = (Fail, s')"
  "m s = (Crash c, s') \<Longrightarrow> bnd m f s = (Crash c, s')"
  by (simp_all add: bnd_def)

lemma bnd_ret [simp]: "bnd (ret x) f = f x"
  and bnd_gets [simp]: "bnd (gets g) f s = f (g s) s"
  and bnd_modify [simp]: "bnd (modify h) f' s = f' () (h s)"
  and bnd_crash [simp]: "bnd (crash c) f'' s = (Crash c, s)"
  and bnd_fail_with [simp]: "bnd (fail_with h) f'' s = (Fail, h s)"
  by (simp_all add: bnd_def fun_eq_iff)

lemma bnd_Ok_iff:
  "bnd m f s = (Ok y, t) \<longleftrightarrow> (\<exists>x s'. m s = (Ok x, s') \<and> f x s' = (Ok y, t))"
  by (auto simp: bnd_def split: prod.splits outcome.splits)

lemma bnd_Fail_iff:
  "bnd m f s = (Fail, t) \<longleftrightarrow>
     m s = (Fail, t) \<or> (\<exists>x s'. m s = (Ok x, s') \<and> f x s' = (Fail, t))"
  by (auto simp: bnd_def split: prod.splits outcome.splits)

lemma bnd_Crash_iff:
  "bnd m f s = (Crash c, t) \<longleftrightarrow>
     m s = (Crash c, t) \<or> (\<exists>x s'. m s = (Ok x, s') \<and> f x s' = (Crash c, t))"
  by (auto simp: bnd_def split: prod.splits outcome.splits)

lemma on_fail_simps [prog_simps]:
  "m s = (Ok x, s') \<Longrightarrow> on_fail m f s = (Ok x, s')"
  "m s = (Fail, s') \<Longrightarrow> on_fail m f s = (Fail, f s')"
  "m s = (Crash c, s') \<Longrightarrow> on_fail m f s = (Crash c, s')"
  by (simp_all add: on_fail_def)

lemma on_fail_Ok_iff [simp]: "on_fail m f s = (Ok y, t) \<longleftrightarrow> m s = (Ok y, t)"
  by (auto simp: on_fail_def split: prod.splits outcome.splits)

lemma on_fail_Crash_iff [simp]: "on_fail m f s = (Crash c, t) \<longleftrightarrow> m s = (Crash c, t)"
  by (auto simp: on_fail_def split: prod.splits outcome.splits)

lemma on_fail_Fail_iff:
  "on_fail m f s = (Fail, t) \<longleftrightarrow> (\<exists>s'. m s = (Fail, s') \<and> t = f s')"
  by (auto simp: on_fail_def split: prod.splits outcome.splits)

lemma on_member_eq_iff:
  "on_member get put m s = (r, t) \<longleftrightarrow> (\<exists>m'. m (get s) = (r, m') \<and> t = put m' s)"
  by (auto simp: on_member_def split: prod.splits)

lemma on_member_simps [prog_simps]:
  "m (get s) = (r, m') \<Longrightarrow> on_member get put m s = (r, put m' s)"
  by (simp add: on_member_def)

lemmas prog_iffs = bnd_Ok_iff bnd_Fail_iff bnd_Crash_iff on_fail_Fail_iff on_member_eq_iff

text \<open>
  A call maintains \<open>P\<close> and fails into \<open>E\<close>: started with \<open>P\<close>, it returns with \<open>P\<close> or fails with \<open>E\<close>. There
  is one rule per combinator, so that an invariant of an object is checked member by member.
\<close>

definition maintains :: "('s \<Rightarrow> bool) \<Rightarrow> ('s \<Rightarrow> bool) \<Rightarrow> ('s, 'a) prog \<Rightarrow> bool" where
  "maintains P E p \<longleftrightarrow> (\<forall>s. P s \<longrightarrow>
     (case p s of (Ok x, t) \<Rightarrow> P t | (Fail, t) \<Rightarrow> E t | (Crash c, t) \<Rightarrow> True))"

lemma maintainsD:
  "maintains P E p \<Longrightarrow> P s \<Longrightarrow> p s = (Ok x, t) \<Longrightarrow> P t"
  "maintains P E p \<Longrightarrow> P s \<Longrightarrow> p s = (Fail, t) \<Longrightarrow> E t"
  by (auto simp: maintains_def split: prod.splits outcome.splits)

lemma maintainsI:
  "(\<And>s x t. P s \<Longrightarrow> p s = (Ok x, t) \<Longrightarrow> P t) \<Longrightarrow> (\<And>s t. P s \<Longrightarrow> p s = (Fail, t) \<Longrightarrow> E t) \<Longrightarrow>
     maintains P E p"
  by (simp add: maintains_def split: prod.split outcome.split)

lemma maintains_ret [maintain]: "maintains P E (ret x)"
  and maintains_crash [maintain]: "maintains P E (crash c)"
  and maintains_gets [maintain]: "maintains P E (gets g)"
  by (simp_all add: maintains_def)

lemma maintains_modify [maintain]: "(\<And>s. P s \<Longrightarrow> P (f s)) \<Longrightarrow> maintains P E (modify f)"
  by (simp add: maintains_def)

lemma maintains_fail_with [maintain]: "(\<And>s. P s \<Longrightarrow> E (f s)) \<Longrightarrow> maintains P E (fail_with f)"
  by (simp add: maintains_def)

lemma maintains_bnd [maintain]:
  "maintains P E p \<Longrightarrow> (\<And>x. maintains P E (f x)) \<Longrightarrow> maintains P E (bnd p f)"
  by (rule maintainsI) (auto simp: bnd_Ok_iff bnd_Fail_iff dest: maintainsD)

lemma maintains_if [maintain]:
  "(b \<Longrightarrow> maintains P E p) \<Longrightarrow> (\<not> b \<Longrightarrow> maintains P E q) \<Longrightarrow> maintains P E (if b then p else q)"
  by simp

lemma maintains_option [maintain]:
  "(x = None \<Longrightarrow> maintains P E p) \<Longrightarrow> (\<And>y. x = Some y \<Longrightarrow> maintains P E (q y)) \<Longrightarrow>
     maintains P E (case x of None \<Rightarrow> p | Some y \<Rightarrow> q y)"
  by (cases x) simp_all

lemma maintains_on_fail [maintain]:
  "maintains P (\<lambda>s. E (f s)) p \<Longrightarrow> maintains P E (on_fail p f)"
  by (rule maintainsI) (auto simp: on_fail_Fail_iff dest: maintainsD)

lemma maintains_on_member:
  "(\<And>m s. P s \<Longrightarrow> P (put m s)) \<Longrightarrow> (\<And>m s. P s \<Longrightarrow> E (put m s)) \<Longrightarrow>
     maintains P E (on_member get put p)"
  by (simp add: maintains_def on_member_def split: prod.splits outcome.splits)

lemma maintains_conj:
  "maintains P E p \<Longrightarrow> maintains Q F p \<Longrightarrow> maintains (\<lambda>s. P s \<and> Q s) (\<lambda>s. E s \<and> F s) p"
  by (rule maintainsI) (auto dest: maintainsD)

text \<open>A call keeps \<open>f\<close>: whatever its outcome, \<open>f\<close> of the object is the same as before.\<close>

definition keeps :: "('s \<Rightarrow> 'b) \<Rightarrow> ('s, 'a) prog \<Rightarrow> bool" where
  "keeps f p \<longleftrightarrow> (\<forall>s. f (snd (p s)) = f s)"

lemma keepsD: "keeps f p \<Longrightarrow> p s = (r, t) \<Longrightarrow> f t = f s"
  by (metis keeps_def snd_conv)

lemma keepsI: "(\<And>s r t. p s = (r, t) \<Longrightarrow> f t = f s) \<Longrightarrow> keeps f p"
  by (metis keeps_def surjective_pairing)

lemma keeps_basic [keep]: "keeps f (ret x)" "keeps f (crash c)" "keeps f (gets g)"
  by (simp_all add: keeps_def)

lemma keeps_modify [keep]: "(\<And>s. f (h s) = f s) \<Longrightarrow> keeps f (modify h)"
  by (simp add: keeps_def)

lemma keeps_fail_with [keep]: "(\<And>s. f (h s) = f s) \<Longrightarrow> keeps f (fail_with h)"
  by (simp add: keeps_def)

lemma keeps_if [keep]: "(b \<Longrightarrow> keeps f p) \<Longrightarrow> (\<not> b \<Longrightarrow> keeps f q) \<Longrightarrow> keeps f (if b then p else q)"
  by simp

lemma keeps_option [keep]:
  "keeps f p \<Longrightarrow> (\<And>y. keeps f (q y)) \<Longrightarrow> keeps f (case x of None \<Rightarrow> p | Some y \<Rightarrow> q y)"
  by (cases x) simp_all

lemma keeps_bnd [keep]:
  assumes "keeps f p" and "\<And>x. keeps f (q x)"
  shows "keeps f (bnd p q)"
proof (rule keepsI)
  fix s r t assume "bnd p q s = (r, t)"
  then show "f t = f s"
    using keepsD [OF assms(1)] keepsD [OF assms(2)]
    by (fastforce simp: bnd_def split: prod.splits outcome.splits)
qed

lemma keeps_on_fail [keep]: "keeps f p \<Longrightarrow> (\<And>s. f (h s) = f s) \<Longrightarrow> keeps f (on_fail p h)"
  by (rule keepsI) (fastforce simp: on_fail_def dest: keepsD split: prod.splits outcome.splits)

lemma keeps_on_member:
  "(\<And>r m s. p (get s) = (r, m) \<Longrightarrow> f (put m s) = f s) \<Longrightarrow> keeps f (on_member get put p)"
  by (rule keepsI) (auto simp: on_member_eq_iff)

text \<open>A call that does not run out of fuel.\<close>

definition never_starves :: "('s, 'a) prog \<Rightarrow> bool" where
  "never_starves p \<longleftrightarrow> (\<forall>s t. p s \<noteq> (Crash OutOfFuel, t))"

lemma never_starves_basic [fuelled]:
  "never_starves (ret x)" "never_starves (gets g)" "never_starves (modify h)" "never_starves (fail_with h)"
  "never_starves (crash Undefined)" "never_starves (crash CheckFailed)"
  by (simp_all add: never_starves_def)

lemma never_starves_if [fuelled]: "never_starves p \<Longrightarrow> never_starves q \<Longrightarrow> never_starves (if b then p else q)"
  by simp

lemma never_starves_option [fuelled]:
  "never_starves p \<Longrightarrow> (\<And>y. never_starves (q y)) \<Longrightarrow> never_starves (case x of None \<Rightarrow> p | Some y \<Rightarrow> q y)"
  by (cases x) simp_all

lemma never_starves_bnd [fuelled]:
  "never_starves p \<Longrightarrow> (\<And>x. never_starves (q x)) \<Longrightarrow> never_starves (bnd p q)"
  by (simp add: never_starves_def bnd_Crash_iff)

lemma never_starves_on_fail [fuelled]: "never_starves p \<Longrightarrow> never_starves (on_fail p h)"
  by (simp add: never_starves_def)

lemma never_starves_on_member [fuelled]: "never_starves p \<Longrightarrow> never_starves (on_member get put p)"
  by (simp add: never_starves_def on_member_eq_iff)

section \<open>Lemmas on words\<close>

lemma unat_add_of_nat:
  "unat a + k < 2 ^ LENGTH('a) \<Longrightarrow> unat (a + of_nat k :: 'a::len word) = unat a + k"
  by (simp add: unat_word_ariths unat_of_nat mod_simps)

lemma unat_diff: "b \<le> a \<Longrightarrow> unat (a - b :: 'a::len word) = unat a - unat b"
  by (simp add: word_le_nat_alt unat_sub)

lemma unat_add_no_wrap:
  "unat a + unat b < 2 ^ LENGTH('a) \<Longrightarrow> unat (a + b :: 'a::len word) = unat a + unat b"
  by (simp add: unat_word_ariths)

lemma unat_and_mask: "unat (a AND mask n :: 'a::len word) = unat a mod 2 ^ n"
proof -
  have "a AND mask n = take_bit n a"
    by (simp add: take_bit_eq_mask)
  then show ?thesis
    by (simp add: unsigned_take_bit_eq flip: take_bit_eq_mod)
qed

lemma unat_u64_less: "unat (a :: u64) < 18446744073709551616"
  using unsigned_less [of a, where 'a = nat] by simp

section \<open>Lemmas on lists\<close>

lemma take_min_length: "take (min (length xs - i) n) (drop i xs) = take n (drop i xs)"
  by (cases "n \<le> length xs - i") simp_all

section \<open>Lemmas on object representation\<close>

lemma length_le_bytes [simp]: "length (le_bytes n w) = n"
  by (induction n arbitrary: w) auto

lemma le_nat_append: "le_nat (xs @ ys) = le_nat xs + 256 ^ length xs * le_nat ys"
  by (induction xs) (auto simp: algebra_simps)

lemma le_nat_less: "le_nat bs < 256 ^ length bs"
proof (induction bs)
  case Nil
  then show ?case by simp
next
  case (Cons b bs)
  have "unat b < 256"
    using unsigned_less [of b, where 'a = nat] by simp
  with Cons show ?case by simp
qed

lemma le_nat_le_bytes: "le_nat (le_bytes n w) = unat w mod 256 ^ n"
proof (induction n arbitrary: w)
  case 0
  then show ?case by simp
next
  case (Suc n)
  have "unat (drop_bit 8 w) = unat w div 256"
    by (simp add: unat_drop_bit_eq drop_bit_nat_def flip: drop_bit_eq_div)
  moreover have "unat (ucast w :: u8) = unat w mod 256"
    by (simp add: unsigned_ucast_eq take_bit_eq_mod)
  ultimately show ?case
    using Suc.IH [of "drop_bit 8 w"] by (simp add: mod_mult2_eq mult.commute)
qed

lemma le_word_le_bytes [simp]:
  fixes w :: "'a::len word"
  assumes "LENGTH('a) \<le> 8 * n"
  shows "le_word (le_bytes n w) = w"
proof -
  have "unat w < 2 ^ LENGTH('a)"
    by simp
  also have "\<dots> \<le> 2 ^ (8 * n)"
    using assms by (intro power_increasing) auto
  also have "\<dots> = 256 ^ n"
    by (simp add: power_mult)
  finally show ?thesis
    by (simp add: le_word_def le_nat_le_bytes)
qed

lemma unat_le_word:
  "8 * length bs \<le> LENGTH('a) \<Longrightarrow> unat (le_word bs :: 'a::len word) = le_nat bs"
proof -
  assume le: "8 * length bs \<le> LENGTH('a)"
  have "le_nat bs < 256 ^ length bs"
    by (rule le_nat_less)
  also have "\<dots> = 2 ^ (8 * length bs)"
    by (simp add: power_mult)
  also have "\<dots> \<le> 2 ^ LENGTH('a)"
    using le by (intro power_increasing) auto
  finally show ?thesis
    by (simp add: le_word_def unat_of_nat)
qed

lemma le_word_code [code]:
  "le_word [] = (0 :: 'a::len word)" "le_word (b # bs) = (ucast b + 256 * le_word bs :: 'a::len word)"
  by (simp_all add: le_word_def of_nat_unat)

lemma le_bytes_le_word:
  assumes "8 * length bs \<le> LENGTH('a)"
  shows "le_bytes (length bs) (le_word bs :: 'a::len word) = bs"
  using assms
proof (induction bs)
  case (Cons b bs)
  have small: "le_nat (b # bs) < 2 ^ LENGTH('a)" "le_nat bs < 2 ^ LENGTH('a)"
    using Cons.prems unat_le_word [of "b # bs", where 'a = 'a] unat_le_word [of bs, where 'a = 'a]
      unsigned_less [of "le_word (b # bs) :: 'a word", where 'a = nat]
      unsigned_less [of "le_word bs :: 'a word", where 'a = nat] by simp_all
  have "unat b < 256"
    using unsigned_less [of b, where 'a = nat] by simp
  then have "drop_bit 8 (le_word (b # bs) :: 'a word) = le_word bs"
    using small unat_le_word [of "b # bs", where 'a = 'a] unat_le_word [of bs, where 'a = 'a] Cons.prems
    by (simp add: word_unat_eq_iff unat_drop_bit_eq drop_bit_nat_def flip: drop_bit_eq_div)
  moreover have "(ucast (le_word (b # bs) :: 'a word) :: u8) = b"
    using unat_le_word [of "b # bs", where 'a = 'a] Cons.prems \<open>unat b < 256\<close>
    by (simp add: word_unat_eq_iff unsigned_ucast_eq take_bit_eq_mod)
  ultimately show ?case
    using Cons by simp
qed simp

lemma overlay_full:
  "length bs = sizeof TYPE('a) \<Longrightarrow> overlay bs (w :: 'a::len word) = le_word bs"
  by (simp add: overlay_def)

lemma overlay_empty:
  "LENGTH('a) mod 8 = 0 \<Longrightarrow> overlay [] (w :: 'a::len word) = w"
  by (simp add: overlay_def sizeof_def dvd_eq_mod_eq_0 [symmetric])

section \<open>Lemmas on \<^verbatim>\<open>std::map\<close>\<close>

lemma map_of_omap_assign [simp]: "map_of (omap_assign k v m) = (map_of m)(k \<mapsto> v)"
  by (induction k v m rule: omap_assign.induct) (auto simp: fun_eq_iff)

lemma keys_omap_assign [simp]: "fst ` set (omap_assign k v m) = insert k (fst ` set m)"
  by (induction k v m rule: omap_assign.induct) auto

lemma omap_inv_Nil [simp]: "omap_inv []"
  by (simp add: omap_inv_def)

lemma omap_inv_Cons:
  "omap_inv ((k, v) # m) \<longleftrightarrow> (\<forall>k' \<in> fst ` set m. k < k') \<and> omap_inv m"
  by (simp add: omap_inv_def)

lemma omap_inv_assign: "omap_inv m \<Longrightarrow> omap_inv (omap_assign k v m)"
  by (induction k v m rule: omap_assign.induct) (auto simp: omap_inv_Cons)

lemma set_omap_assign_new:
  "map_of m k = None \<Longrightarrow> omap_inv m \<Longrightarrow> set (omap_assign k v m) = insert (k, v) (set m)"
  by (induction k v m rule: omap_assign.induct) (auto simp: omap_inv_Cons split: if_splits)

lemma omap_inv_distinct: "omap_inv m \<Longrightarrow> distinct (map fst m)"
  by (simp add: omap_inv_def strict_sorted_iff)

lemma omap_mem_iff: "omap_inv m \<Longrightarrow> (k, v) \<in> set m \<longleftrightarrow> map_of m k = Some v"
  by (simp add: omap_inv_distinct)

lemma upper_bound_None_iff: "upper_bound m k = None \<longleftrightarrow> (\<forall>j \<in> fst ` set m. j \<le> k)"
  by (induction m k rule: upper_bound.induct) (auto simp: not_less)

lemma upper_bound_SomeD:
  "upper_bound m k = Some (k', v) \<Longrightarrow> (k', v) \<in> set m \<and> k < k'"
  by (induction m k rule: upper_bound.induct) (auto split: if_splits)

lemma upper_bound_least:
  "omap_inv m \<Longrightarrow> upper_bound m k = Some (k', v) \<Longrightarrow> j \<in> fst ` set m \<Longrightarrow> k < j \<Longrightarrow> k' \<le> j"
  by (induction m k rule: upper_bound.induct)
    (auto simp: omap_inv_Cons less_imp_le split: if_splits)

lemma upper_bound_SomeI:
  assumes inv: "omap_inv m" and mem: "(k', v) \<in> set m" and lt: "k < k'"
    and least: "\<And>j. j \<in> fst ` set m \<Longrightarrow> k < j \<Longrightarrow> k' \<le> j"
  shows "upper_bound m k = Some (k', v)"
proof (cases "upper_bound m k")
  case None
  with mem lt show ?thesis
    by (force simp: upper_bound_None_iff)
next
  case (Some p)
  obtain j w where p: "p = (j, w)" by (cases p)
  with Some have jw: "(j, w) \<in> set m" "k < j"
    by (auto dest: upper_bound_SomeD)
  have "k' \<le> j"
    using jw by (intro least) force+
  moreover have "j \<le> k'"
    using upper_bound_least [OF inv Some [unfolded p]] mem lt by force
  ultimately show ?thesis
    using Some p jw mem inv by (simp add: omap_mem_iff)
qed

lemma upper_bound_Some_iff:
  "omap_inv m \<Longrightarrow> upper_bound m k = Some (k', v) \<longleftrightarrow>
     (k', v) \<in> set m \<and> k < k' \<and> (\<forall>j \<in> fst ` set m. k < j \<longrightarrow> k' \<le> j)"
  by (meson upper_bound_SomeD upper_bound_SomeI upper_bound_least)

end
