(* ===== verification/Memory.thy ===== *)
theory Memory
  imports Unwind_Prelude
begin

text \<open>
  \<^verbatim>\<open>Memory.cpp\<close> and \<^verbatim>\<open>Memory.h\<close>: the class \<^verbatim>\<open>Memory\<close> and its subclasses. A memory is modelled by
  what its virtual \<^verbatim>\<open>Read(addr, dst, size)\<close> copies: the list of bytes written to \<^verbatim>\<open>dst\<close>, whose
  length is the returned count. The locale \<open>memory_reader\<close> is the contract the readers of a memory
  rely on, \<open>contiguous_memory\<close> the stronger one that \<^verbatim>\<open>MemoryCache\<close> needs of the memory it caches.
\<close>

type_synonym memory = "u64 \<Rightarrow> nat \<Rightarrow> u8 list"

section \<open>The base class\<close>

definition ReadFully :: "memory \<Rightarrow> u64 \<Rightarrow> nat \<Rightarrow> u8 list option" where
  "ReadFully mem addr sz =
     (let bs = mem addr sz in if length bs = sz then Some bs else None)"

text \<open>\<^verbatim>\<open>Read32\<close>, \<^verbatim>\<open>Read64\<close> and \<^verbatim>\<open>ReadFully(addr, &x, sizeof(x))\<close> into a fresh variable.\<close>

definition read_word :: "memory \<Rightarrow> u64 \<Rightarrow> 'a::len word option" where
  "read_word mem addr = map_option le_word (ReadFully mem addr (sizeof TYPE('a)))"

text \<open>
  The same call into an object that already holds a value: a short read leaves the bytes it did
  not reach.
\<close>

definition read_into :: "memory \<Rightarrow> u64 \<Rightarrow> 'a::len word \<Rightarrow> bool \<times> 'a word" where
  "read_into mem addr old =
     (let bs = mem addr (sizeof TYPE('a)) in (length bs = sizeof TYPE('a), overlay bs old))"

definition Read8 :: "memory \<Rightarrow> u64 \<Rightarrow> u8 option" where
  "Read8 mem addr = map_option hd (ReadFully mem addr 1)"

function ReadString_loop :: "memory \<Rightarrow> u64 \<Rightarrow> nat \<Rightarrow> u8 list \<Rightarrow> bool \<times> u8 list" where
  "ReadString_loop mem addr left acc =
     (if left = 0 then (False, acc)
      else case Read8 mem addr of
        None \<Rightarrow> (False, acc)
      | Some value \<Rightarrow>
          if value = 0 then (True, acc)
          else ReadString_loop mem (addr + 1) (left - 1) (acc @ [value]))"
  by pat_completeness auto
termination
  by (relation "measure (\<lambda>(mem, addr, left, acc). left)") auto

definition ReadString :: "memory \<Rightarrow> u64 \<Rightarrow> u64 \<Rightarrow> bool \<times> u8 list" where
  "ReadString mem addr max_read = ReadString_loop mem addr (unat max_read) []"

section \<open>Buffers and files\<close>

definition MemoryBuffer_Read :: "u8 list \<Rightarrow> memory" where
  "MemoryBuffer_Read raw addr sz =
     (if unat addr \<ge> length raw then []
      else take (min (length raw - unat addr) sz) (drop (unat addr) raw))"

definition MemoryBuffer_Resize :: "nat \<Rightarrow> u8 list \<Rightarrow> u8 list" where
  "MemoryBuffer_Resize sz raw = take sz raw @ replicate (sz - length raw) 0"

record file_memory =
  fm_size :: u64
  fm_offset :: u64
  fm_data :: "u8 list option"

definition MemoryFileAtOffset_Clear :: "file_memory \<Rightarrow> file_memory" where
  "MemoryFileAtOffset_Clear m = (if fm_data m \<noteq> None then m\<lparr>fm_data := None\<rparr> else m)"

text \<open>
  \<open>st_size\<close> is what \<^verbatim>\<open>open\<close> and \<^verbatim>\<open>fstat\<close> deliver (\<open>None\<close> if either fails) and \<open>mmap\<close> the bytes of
  the mapping of a given length at a given file offset (\<open>None\<close> for \<^verbatim>\<open>MAP_FAILED\<close>).
\<close>

definition MemoryFileAtOffset_Init ::
  "u64 \<Rightarrow> u64 option \<Rightarrow> (u64 \<Rightarrow> u64 \<Rightarrow> u8 list option) \<Rightarrow> u64 \<Rightarrow> u64 \<Rightarrow> (file_memory, unit) prog" where
  "MemoryFileAtOffset_Init pagesize st_size mmap offset sz =
     bnd (modify MemoryFileAtOffset_Clear) (\<lambda>_.
     case st_size of
       None \<Rightarrow> fail_with id
     | Some st \<Rightarrow>
       if offset \<ge> st then fail_with id
       else
         bnd (modify (\<lambda>m. m\<lparr>fm_offset := offset AND (pagesize - 1)\<rparr>)) (\<lambda>_.
         let aligned_offset = offset AND NOT (pagesize - 1) in
         if aligned_offset > st \<or> offset > st then fail_with id
         else
           bnd (modify (\<lambda>m. m\<lparr>fm_size := st - aligned_offset\<rparr>)) (\<lambda>_.
           bnd (modify (\<lambda>m.
                  let max_size = sz + fm_offset m in
                  if unat sz + unat (fm_offset m) < 2 ^ 64 \<and> max_size < fm_size m
                  then m\<lparr>fm_size := max_size\<rparr> else m)) (\<lambda>_.
           bnd (gets fm_size) (\<lambda>len.
           case mmap len aligned_offset of
             None \<Rightarrow> fail_with id
           | Some mapped \<Rightarrow>
               modify (\<lambda>m. m\<lparr>fm_data := Some (drop (unat (fm_offset m)) mapped),
                             fm_size := fm_size m - fm_offset m\<rparr>))))))"

definition MemoryFileAtOffset_Read :: "file_memory \<Rightarrow> u64 \<Rightarrow> nat \<Rightarrow> u8 list outcome" where
  "MemoryFileAtOffset_Read m addr sz =
     (if addr \<ge> fm_size m then Ok []
      else case fm_data m of
        None \<Rightarrow> Crash Undefined
      | Some data \<Rightarrow>
          Ok (take (min (unat (fm_size m - addr)) sz) (drop (unat addr) data)))"

section \<open>Ranges\<close>

record memory_range =
  range_memory :: memory
  range_begin :: u64
  range_length :: u64
  range_offset :: u64

definition MemoryRange_Read :: "memory_range \<Rightarrow> memory" where
  "MemoryRange_Read r addr sz =
     (if addr < range_offset r then []
      else let read_offset = addr - range_offset r in
        if read_offset \<ge> range_length r then []
        else let read_length = min sz (unat (range_length r - read_offset)) in
          if unat read_offset + unat (range_begin r) \<ge> 2 ^ 64 then []
          else range_memory r (read_offset + range_begin r) read_length)"

definition MemoryRanges_Insert :: "memory_range \<Rightarrow> memory_range omap \<Rightarrow> memory_range omap" where
  "MemoryRanges_Insert r maps = omap_emplace (range_offset r + range_length r) r maps"

definition MemoryRanges_Read :: "memory_range omap \<Rightarrow> memory" where
  "MemoryRanges_Read maps addr sz =
     (case upper_bound maps addr of
        None \<Rightarrow> []
      | Some (_, r) \<Rightarrow> MemoryRange_Read r addr sz)"

section \<open>Offline memories\<close>

text \<open>
  \<^verbatim>\<open>MemoryOffline::Init\<close> after its \<^verbatim>\<open>MemoryFileAtOffset\<close> was opened: \<open>file\<close> is that memory and
  \<open>file_size\<close> its \<^verbatim>\<open>Size()\<close>.
\<close>

definition MemoryOffline_Init :: "memory \<Rightarrow> u64 \<Rightarrow> memory_range option" where
  "MemoryOffline_Init file file_size =
     (case read_word file 0 :: u64 option of
        None \<Rightarrow> None
      | Some start \<Rightarrow>
          if unat file_size < 8 then None
          else Some \<lparr>range_memory = file, range_begin = 8, range_length = file_size - 8,
                     range_offset = start\<rparr>)"

definition MemoryOffline_Read :: "memory_range option \<Rightarrow> memory" where
  "MemoryOffline_Read memory addr sz =
     (case memory of None \<Rightarrow> [] | Some r \<Rightarrow> MemoryRange_Read r addr sz)"

record offline_buffer =
  buf_data :: "u8 list"
  buf_start :: u64
  buf_end :: u64

definition MemoryOfflineBuffer_Reset ::
  "u8 list \<Rightarrow> u64 \<Rightarrow> u64 \<Rightarrow> offline_buffer \<Rightarrow> offline_buffer" where
  "MemoryOfflineBuffer_Reset data start end b = \<lparr>buf_data = data, buf_start = start, buf_end = end\<rparr>"

definition MemoryOfflineBuffer_Read :: "offline_buffer \<Rightarrow> memory" where
  "MemoryOfflineBuffer_Read b addr sz =
     (if addr < buf_start b \<or> addr \<ge> buf_end b then []
      else take (min sz (unat (buf_end b - addr))) (drop (unat (addr - buf_start b)) (buf_data b)))"

fun MemoryOfflineParts_Read :: "memory list \<Rightarrow> memory" where
  "MemoryOfflineParts_Read [] addr sz = []"
| "MemoryOfflineParts_Read (m # ms) addr sz =
     (let bytes = m addr sz in
      if bytes \<noteq> [] then bytes else MemoryOfflineParts_Read ms addr sz)"

section \<open>The page cache\<close>

type_synonym page_cache = "u64 \<rightharpoonup> u8 list"

definition kCacheBits :: nat where
  "kCacheBits = 12"

definition kCacheSize :: nat where
  "kCacheSize = 2 ^ kCacheBits"

text \<open>
  One lookup of \<^verbatim>\<open>MemoryCache::Read\<close>, which occurs twice in the source: the page from the cache,
  or read and entered, or \<open>None\<close> after the entry was erased again.
\<close>

definition cache_page :: "memory \<Rightarrow> u64 \<Rightarrow> page_cache \<Rightarrow> u8 list option \<times> page_cache" where
  "cache_page impl page cache =
     (case cache page of
        Some bytes \<Rightarrow> (Some bytes, cache)
      | None \<Rightarrow>
          (case ReadFully impl (push_bit kCacheBits page) kCacheSize of
             None \<Rightarrow> (None, cache(page := None))
           | Some bytes \<Rightarrow> (Some bytes, cache(page \<mapsto> bytes))))"

definition MemoryCache_Read ::
  "memory \<Rightarrow> u64 \<Rightarrow> nat \<Rightarrow> page_cache \<Rightarrow> u8 list \<times> page_cache" where
  "MemoryCache_Read impl addr sz cache =
     (if sz > 64 then (impl addr sz, cache)
      else let addr_page = drop_bit kCacheBits addr in
        case cache_page impl addr_page cache of
          (None, cache1) \<Rightarrow> (impl addr sz, cache1)
        | (Some cache_dst, cache1) \<Rightarrow>
            let max_read = unat (push_bit kCacheBits (addr_page + 1) - addr);
                first = drop (unat (addr AND mask kCacheBits)) cache_dst in
            if sz \<le> max_read then (take sz first, cache1)
            else
              case cache_page impl (addr_page + 1) cache1 of
                (None, cache2) \<Rightarrow>
                  (take max_read first
                     @ impl (push_bit kCacheBits (addr_page + 1)) (sz - max_read), cache2)
              | (Some cache_dst2, cache2) \<Rightarrow>
                  (take max_read first @ take (sz - max_read) cache_dst2, cache2))"

definition MemoryCache_Clear :: "page_cache \<Rightarrow> page_cache" where
  "MemoryCache_Clear cache = Map.empty"

section \<open>Remote memories\<close>

text \<open>
  \<open>peek\<close> is \<^verbatim>\<open>PtraceReadLong\<close>: the \<^verbatim>\<open>long\<close> at an address of the traced process, \<open>None\<close> when
  \<^verbatim>\<open>PTRACE_PEEKTEXT\<close> fails.
\<close>

fun PtraceRead_words :: "(u64 \<Rightarrow> u64 option) \<Rightarrow> u64 \<Rightarrow> nat \<Rightarrow> u8 list \<times> bool" where
  "PtraceRead_words peek addr 0 = ([], True)"
| "PtraceRead_words peek addr (Suc n) =
     (case peek addr of
        None \<Rightarrow> ([], False)
      | Some data \<Rightarrow>
          let (rest, done) = PtraceRead_words peek (addr + 8) n in
          (le_bytes 8 data @ rest, done))"

definition PtraceRead :: "(u64 \<Rightarrow> u64 option) \<Rightarrow> memory" where
  "PtraceRead peek addr bytes =
     (if unat addr + bytes \<ge> 2 ^ 64 then []
      else let align_bytes = unat (addr AND 7) in
        case (if align_bytes \<noteq> 0
              then (case peek (addr AND NOT 7) of
                      None \<Rightarrow> None
                    | Some data \<Rightarrow>
                        let copy_bytes = min (8 - align_bytes) bytes in
                        Some (take copy_bytes (drop align_bytes (le_bytes 8 data))))
              else Some []) of
          None \<Rightarrow> []
        | Some prefix \<Rightarrow>
            let addr1 = addr + of_nat (length prefix);
                bytes1 = bytes - length prefix;
                (words, done) = PtraceRead_words peek addr1 (bytes1 div 8) in
            if \<not> done then prefix @ words
            else let left_over = bytes1 mod 8 in
              if left_over = 0 then prefix @ words
              else case peek (addr1 + of_nat (8 * (bytes1 div 8))) of
                None \<Rightarrow> prefix @ words
              | Some data \<Rightarrow> prefix @ words @ take left_over (le_bytes 8 data))"

datatype read_redirect = NoRedirect | RedirectVm | RedirectPtrace

text \<open>\<open>vm\<close> and \<open>pt\<close> are \<^verbatim>\<open>ProcessVmRead\<close> and \<^verbatim>\<open>PtraceRead\<close> for the process of the object.\<close>

definition MemoryRemote_Read ::
  "memory \<Rightarrow> memory \<Rightarrow> u64 \<Rightarrow> nat \<Rightarrow> read_redirect \<Rightarrow> u8 list \<times> read_redirect" where
  "MemoryRemote_Read vm pt addr sz r =
     (case r of
        RedirectVm \<Rightarrow> (vm addr sz, r)
      | RedirectPtrace \<Rightarrow> (pt addr sz, r)
      | NoRedirect \<Rightarrow>
          let bytes = vm addr sz in
          if bytes \<noteq> [] then (bytes, RedirectVm)
          else let bytes2 = pt addr sz in
            (bytes2, if bytes2 \<noteq> [] then RedirectPtrace else NoRedirect))"

section \<open>Contracts\<close>

text \<open>A memory that holds a block of bytes, however it is cut into reads.\<close>

definition holds_block :: "memory \<Rightarrow> u64 \<Rightarrow> u8 list \<Rightarrow> bool" where
  "holds_block mem a bs \<longleftrightarrow>
     (\<forall>i n. i + n \<le> length bs \<longrightarrow> ReadFully mem (a + of_nat i) n = Some (take n (drop i bs)))"

lemma holds_blockD: "holds_block mem a bs \<Longrightarrow> ReadFully mem a (length bs) = Some bs"
  by (auto simp: holds_block_def dest: spec [of _ 0])

lemma holds_block_slice:
  "holds_block mem a bs \<Longrightarrow> k + n \<le> length bs \<Longrightarrow> ReadFully mem (a + of_nat k) n = Some (take n (drop k bs))"
  by (simp add: holds_block_def)

lemma holds_block_append:
  assumes "holds_block mem a (xs @ ys)"
  shows "holds_block mem a xs" "holds_block mem (a + of_nat (length xs)) ys"
proof -
  show "holds_block mem a xs"
    using assms by (auto simp: holds_block_def)
  have "ReadFully mem (a + of_nat (length xs) + of_nat i) n = Some (take n (drop i ys))"
    if "i + n \<le> length ys" for i n
    using assms [unfolded holds_block_def, rule_format, of "length xs + i" n] that
    by (simp add: add.assoc)
  then show "holds_block mem (a + of_nat (length xs)) ys"
    by (simp add: holds_block_def)
qed

lemma holds_block_buffer: "length bs < 2 ^ 64 \<Longrightarrow> holds_block (MemoryBuffer_Read bs) 0 bs"
  by (auto simp: holds_block_def ReadFully_def MemoryBuffer_Read_def unat_of_nat take_bit_nat_eq_self)

text \<open>
  What readers rely on: at most the requested number of bytes, nothing beyond the end of the
  address space, and one consistent content, whatever way it is cut into reads.
\<close>

locale memory_reader =
  fixes read :: memory
  assumes read_len: "length (read a n) \<le> n"
    and read_top: "unat a + length (read a n) \<le> 2 ^ 64"
    and read_prefix: "m \<le> n \<Longrightarrow> read a m = take m (read a n)"
    and read_suffix: "k < length (read a n) \<Longrightarrow> read (a + of_nat k) (n - k) = drop k (read a n)"
begin

lemma read_0 [simp]: "read a 0 = []"
  using read_len [of a 0] by simp

lemma ReadFully_Some_iff: "ReadFully read a n = Some bs \<longleftrightarrow> read a n = bs \<and> length bs = n"
  by (auto simp: ReadFully_def Let_def)

lemma ReadFully_prefix:
  "ReadFully read a n = Some bs \<Longrightarrow> m \<le> n \<Longrightarrow> ReadFully read a m = Some (take m bs)"
  using read_prefix [of m n a] by (auto simp: ReadFully_Some_iff)

lemma ReadFully_slice:
  assumes "ReadFully read a n = Some bs" and "k + m \<le> n" and "m \<noteq> 0"
  shows "ReadFully read (a + of_nat k) m = Some (take m (drop k bs))"
proof -
  from assms have full: "read a n = bs" "length bs = n"
    by (auto simp: ReadFully_Some_iff)
  with assms have "read (a + of_nat k) (n - k) = drop k bs"
    using read_suffix [of k a n] by simp
  moreover have "read (a + of_nat k) m = take m (read (a + of_nat k) (n - k))"
    using assms by (intro read_prefix) simp
  ultimately show ?thesis
    using assms full by (simp add: ReadFully_Some_iff)
qed

lemma ReadFully_holds_block: "ReadFully read a n = Some bs \<Longrightarrow> holds_block read a bs"
  unfolding holds_block_def
proof (intro allI impI)
  fix i m
  assume full: "ReadFully read a n = Some bs" and "i + m \<le> length bs"
  moreover from full have "length bs = n"
    by (simp add: ReadFully_Some_iff)
  ultimately show "ReadFully read (a + of_nat i) m = Some (take m (drop i bs))"
    using ReadFully_slice [OF full] by (cases "m = 0") (auto simp: ReadFully_Some_iff)
qed

lemma Read8_nth:
  assumes "ReadFully read a n = Some bs" and "k < n"
  shows "Read8 read (a + of_nat k) = Some (bs ! k)"
proof -
  have "ReadFully read (a + of_nat k) 1 = Some (take 1 (drop k bs))"
    using assms by (intro ReadFully_slice) auto
  moreover have "length bs = n"
    using assms by (simp add: ReadFully_Some_iff)
  ultimately show ?thesis
    using assms(2) by (simp add: Read8_def take_Suc hd_drop_conv_nth)
qed

end

locale contiguous_memory = memory_reader +
  assumes read_append: "length (read a n) = n \<Longrightarrow> unat a + n < 2 ^ 64 \<Longrightarrow>
    read a (n + m) = read a n @ read (a + of_nat n) m"

section \<open>The contract holds for the memories of the program\<close>

text \<open>
  Buffers are windows: seen from an address inside, the reads at and above it are prefixes of the
  suffixes of one byte list.
\<close>

definition window :: "memory \<Rightarrow> u64 \<Rightarrow> u8 list \<Rightarrow> bool" where
  "window mem a w \<longleftrightarrow> unat a + length w \<le> 2 ^ 64 \<and>
     (\<forall>k n. k \<le> length w \<longrightarrow> unat a + k < 2 ^ 64 \<longrightarrow> mem (a + of_nat k) n = take n (drop k w))"

lemma contiguous_memory_windowI:
  assumes win: "\<And>a. \<exists>w. window mem a w"
  shows "contiguous_memory mem"
proof
  fix a :: u64 and n m k :: nat
  obtain w where w: "window mem a w"
    using win by blast
  have len: "unat a + length w \<le> 2 ^ 64"
    using w by (simp add: window_def)
  have shift: "mem (a + of_nat i) j = take j (drop i w)"
    if "i \<le> length w" "unat a + i < 2 ^ 64" for i j
    using w that by (simp add: window_def)
  have at: "mem a i = take i w" for i
    using shift [of 0 i] unat_u64_less [of a] by simp
  show "length (mem a n) \<le> n" "unat a + length (mem a n) \<le> 2 ^ 64"
    using len by (auto simp: at)
  show "m \<le> n \<Longrightarrow> mem a m = take m (mem a n)"
    by (simp add: at min.absorb1)
  show "mem (a + of_nat k) (n - k) = drop k (mem a n)" if "k < length (mem a n)"
    using that len by (simp add: at shift drop_take)
  show "mem a (n + m) = mem a n @ mem (a + of_nat n) m"
    if "length (mem a n) = n" "unat a + n < 2 ^ 64"
    using that by (simp add: at shift take_add min_def split: if_splits)
qed

lemma window_MemoryOfflineBuffer: "\<exists>w. window (MemoryOfflineBuffer_Read b) a w"
proof (cases "buf_start b \<le> a \<and> a < buf_end b")
  case True
  define E where "E = unat (buf_end b)"
  define w where "w = take (E - unat a) (drop (unat a - unat (buf_start b)) (buf_data b))"
  have E: "unat a < E" "E < 2 ^ 64" "unat (buf_start b) \<le> unat a"
    using True unat_u64_less [of "buf_end b"]
    by (auto simp: E_def word_less_nat_alt word_le_nat_alt)
  have "MemoryOfflineBuffer_Read b (a + of_nat k) n = take n (drop k w)"
    if k: "k \<le> length w" "unat a + k < 2 ^ 64" for k n
  proof -
    have u: "unat (a + of_nat k) = unat a + k"
      using k(2) by (simp add: unat_add_of_nat)
    have kE: "unat a + k \<le> E"
      using k(1) E by (auto simp: w_def)
    have st: "\<not> a + of_nat k < buf_start b"
      using E u by (simp add: word_less_nat_alt)
    have off: "unat (a + of_nat k - buf_start b) = k + (unat a - unat (buf_start b))"
      using st E u by (simp add: unat_diff not_less)
    show ?thesis
    proof (cases "unat a + k < E")
      case True
      then have en: "a + of_nat k < buf_end b"
        using u by (simp add: word_less_nat_alt E_def)
      then have "unat (buf_end b - (a + of_nat k)) = E - unat a - k"
        using u by (simp add: unat_diff less_imp_le E_def)
      with st en off show ?thesis
        by (simp add: MemoryOfflineBuffer_Read_def w_def drop_take not_le)
    next
      case False
      then have "\<not> a + of_nat k < buf_end b"
        using u by (simp add: word_less_nat_alt E_def)
      moreover have "drop k w = []"
        using False k kE by (simp add: w_def)
      ultimately show ?thesis
        by (simp add: MemoryOfflineBuffer_Read_def not_less)
    qed
  qed
  moreover have "unat a + length w \<le> 2 ^ 64"
    using E by (simp add: w_def)
  ultimately show ?thesis
    unfolding window_def by blast
next
  case False
  then have "window (MemoryOfflineBuffer_Read b) a []"
    using unat_u64_less [of a] by (auto simp: window_def MemoryOfflineBuffer_Read_def)
  then show ?thesis ..
qed

interpretation ob: contiguous_memory "MemoryOfflineBuffer_Read b" for b
  by (rule contiguous_memory_windowI) (rule window_MemoryOfflineBuffer)

lemma window_MemoryBuffer:
  assumes "length raw \<le> 2 ^ 64"
  shows "\<exists>w. window (MemoryBuffer_Read raw) a w"
proof -
  have "window (MemoryBuffer_Read raw) a (drop (unat a) raw)"
    unfolding window_def
  proof (intro conjI allI impI)
    show "unat a + length (drop (unat a) raw) \<le> 2 ^ 64"
      using assms unat_u64_less [of a] by simp
    fix k n
    assume "k \<le> length (drop (unat a) raw)" "unat a + k < 2 ^ 64"
    then have u: "unat (a + of_nat k) = k + unat a"
      by (subst unat_add_of_nat) simp_all
    show "MemoryBuffer_Read raw (a + of_nat k) n = take n (drop k (drop (unat a) raw))"
      unfolding MemoryBuffer_Read_def u by (simp add: take_min_length)
  qed
  then show ?thesis ..
qed

lemma MemoryBuffer_contiguous: "length raw \<le> 2 ^ 64 \<Longrightarrow> contiguous_memory (MemoryBuffer_Read raw)"
  by (rule contiguous_memory_windowI) (rule window_MemoryBuffer)

section \<open>Strings\<close>

declare ReadString_loop.simps [simp del]

lemma ReadString_loop_acc:
  "ReadString_loop mem a n acc = (case ReadString_loop mem a n [] of (ok, s) \<Rightarrow> (ok, acc @ s))"
proof (induction n arbitrary: a acc)
  case 0
  then show ?case by (simp add: ReadString_loop.simps)
next
  case (Suc n)
  show ?case
    by (cases "Read8 mem a")
      (simp_all add: ReadString_loop.simps [of mem a "Suc n"] Suc.IH [of "a + 1" "acc @ [_]"]
        Suc.IH [of "a + 1" "[_]"] split: prod.splits)
qed

lemma ReadString_loop_Suc:
  "ReadString_loop mem a (Suc n) [] =
     (case Read8 mem a of
        None \<Rightarrow> (False, [])
      | Some v \<Rightarrow> if v = 0 then (True, [])
                  else case ReadString_loop mem (a + 1) n [] of (ok, s) \<Rightarrow> (ok, v # s))"
  by (cases "Read8 mem a")
    (simp_all add: ReadString_loop.simps [of mem a "Suc n"] ReadString_loop_acc [of mem _ _ "[_]"])

lemma ReadString_loop_True_iff:
  "ReadString_loop mem a n [] = (True, s) \<longleftrightarrow>
     length s < n \<and>
     (\<forall>i<length s. Read8 mem (a + of_nat i) = Some (s ! i) \<and> s ! i \<noteq> 0) \<and>
     Read8 mem (a + of_nat (length s)) = Some 0"
proof (induction n arbitrary: a s)
  case 0
  then show ?case by (simp add: ReadString_loop.simps)
next
  case (Suc n)
  show ?case
  proof (cases s)
    case Nil
    then show ?thesis
      by (auto simp: ReadString_loop_Suc
          split: option.splits prod.splits)
  next
    case (Cons v t)
    have "ReadString_loop mem a (Suc n) [] = (True, s) \<longleftrightarrow>
        Read8 mem a = Some v \<and> v \<noteq> 0 \<and> ReadString_loop mem (a + 1) n [] = (True, t)"
      unfolding Cons
      by (auto simp: ReadString_loop_Suc
          split: option.splits prod.splits)
    then show ?thesis
      unfolding Suc.IH Cons by (auto simp: All_less_Suc2 add.assoc)
  qed
qed

text \<open>
  C32. \<^verbatim>\<open>Memory::ReadString\<close> succeeds exactly with the bytes in front of the first NUL, provided
  they can be read one by one and the NUL is among the first \<^verbatim>\<open>max_read\<close> bytes.
\<close>

theorem ReadString_correct:
  "ReadString mem addr max_read = (True, s) \<longleftrightarrow>
     length s < unat max_read \<and>
     (\<forall>i<length s. Read8 mem (addr + of_nat i) = Some (s ! i) \<and> s ! i \<noteq> 0) \<and>
     Read8 mem (addr + of_nat (length s)) = Some 0"
  unfolding ReadString_def by (rule ReadString_loop_True_iff)

theorem ReadString_correct_witness:
  "ReadString (MemoryBuffer_Read [104, 105, 0, 33]) 0 8 = (True, [104, 105])"
  unfolding ReadString_correct
  by (simp add: Read8_def ReadFully_def MemoryBuffer_Read_def All_less_Suc)

section \<open>The page cache is transparent\<close>

definition cache_coherent :: "memory \<Rightarrow> page_cache \<Rightarrow> bool" where
  "cache_coherent impl cache \<longleftrightarrow>
     (\<forall>page bytes. cache page = Some bytes \<longrightarrow>
        ReadFully impl (push_bit kCacheBits page) kCacheSize = Some bytes)"

lemma cache_page_coherent:
  assumes "cache_coherent impl cache" and "cache_page impl page cache = (r, cache')"
  shows "cache_coherent impl cache' \<and>
    (\<forall>bytes. r = Some bytes \<longrightarrow> ReadFully impl (push_bit kCacheBits page) kCacheSize = Some bytes)"
  using assms by (auto simp: cache_coherent_def cache_page_def split: option.splits if_splits)

lemma page_split:
  fixes addr :: u64
  defines "page \<equiv> drop_bit kCacheBits addr" and "off \<equiv> unat (addr AND mask kCacheBits)"
  shows page_split_addr: "addr = push_bit kCacheBits page + of_nat off"
    and page_split_off: "off < kCacheSize"
    and page_split_next: "push_bit kCacheBits (page + 1) = addr + of_nat (kCacheSize - off)"
    and page_split_left: "unat (push_bit kCacheBits (page + 1) - addr) = kCacheSize - off"
proof -
  show off: "off < kCacheSize"
    unfolding off_def unat_and_mask kCacheSize_def by simp
  have "push_bit kCacheBits page + (addr AND mask kCacheBits) = addr"
    unfolding page_def by (simp only: take_bit_eq_mask [symmetric] bits_ident)
  then show addr: "addr = push_bit kCacheBits page + of_nat off"
    by (simp add: off_def)
  have "push_bit kCacheBits (page + 1) = push_bit kCacheBits page + of_nat kCacheSize"
    by (simp add: push_bit_eq_mult kCacheBits_def kCacheSize_def algebra_simps)
  also have "\<dots> = addr + of_nat (kCacheSize - off)"
    using off by (subst addr) (simp add: of_nat_diff)
  finally show nxt: "push_bit kCacheBits (page + 1) = addr + of_nat (kCacheSize - off)" .
  then have "push_bit kCacheBits (page + 1) - addr = of_nat (kCacheSize - off)"
    by simp
  then show "unat (push_bit kCacheBits (page + 1) - addr) = kCacheSize - off"
    by (simp add: unat_of_nat kCacheSize_def kCacheBits_def)
qed

context contiguous_memory
begin

lemma page_read:
  assumes "ReadFully read (push_bit kCacheBits (drop_bit kCacheBits addr)) kCacheSize = Some bytes"
  defines "off \<equiv> unat (addr AND mask kCacheBits)"
  shows "read addr (kCacheSize - off) = drop off bytes \<and> length bytes = kCacheSize"
proof -
  let ?base = "push_bit kCacheBits (drop_bit kCacheBits addr)"
  have full: "read ?base kCacheSize = bytes" "length bytes = kCacheSize"
    using assms by (auto simp: ReadFully_Some_iff)
  have "read (?base + of_nat off) (kCacheSize - off) = drop off (read ?base kCacheSize)"
    using full page_split_off [of addr] by (intro read_suffix) (simp add: off_def)
  then show ?thesis
    using full by (simp only: off_def page_split_addr [of addr, symmetric])
qed

lemma cached_first:
  assumes "ReadFully read (push_bit kCacheBits (drop_bit kCacheBits addr)) kCacheSize = Some bytes"
  defines "off \<equiv> unat (addr AND mask kCacheBits)"
  assumes "n \<le> kCacheSize - off"
  shows "read addr n = take n (drop off bytes)"
  using page_read [OF assms(1)] assms(3) read_prefix [of n "kCacheSize - off" addr]
  by (simp add: off_def)

lemma cached_second:
  assumes "ReadFully read (push_bit kCacheBits (drop_bit kCacheBits addr)) kCacheSize = Some bytes"
  defines "left \<equiv> kCacheSize - unat (addr AND mask kCacheBits)"
  assumes "left < n" and "unat addr + n \<le> 2 ^ 64"
  shows "read addr n = read addr left @
    read (push_bit kCacheBits (drop_bit kCacheBits addr + 1)) (n - left)"
proof -
  have "length (read addr left) = left"
    using page_read [OF assms(1)] by (simp add: left_def)
  then have "read addr (left + (n - left)) = read addr left @ read (addr + of_nat left) (n - left)"
    using assms by (intro read_append) auto
  then show ?thesis
    using assms(3) by (simp only: left_def page_split_next [of addr]) simp
qed

lemma MemoryCache_Read_transparent:
  assumes coherent: "cache_coherent read cache" and no_wrap: "unat addr + n \<le> 2 ^ 64"
    and result: "MemoryCache_Read read addr n cache = (bytes, cache')"
  shows "bytes = read addr n \<and> cache_coherent read cache'"
proof (cases "n > 64")
  case True
  with result coherent show ?thesis
    by (auto simp: MemoryCache_Read_def)
next
  case False
  let ?page = "drop_bit kCacheBits addr" and ?off = "unat (addr AND mask kCacheBits)"
  let ?left = "kCacheSize - ?off"
  obtain r1 c1 where c1: "cache_page read ?page cache = (r1, c1)"
    by (cases "cache_page read ?page cache")
  obtain r2 c2 where c2: "cache_page read (?page + 1) c1 = (r2, c2)"
    by (cases "cache_page read (?page + 1) c1")
  note coh1 = cache_page_coherent [OF coherent c1]
  note coh2 = cache_page_coherent [OF coh1 [THEN conjunct1] c2]
  note def = result False c1 c2 page_split_left [of addr]
  show ?thesis
  proof (cases r1)
    case None
    with def coh1 show ?thesis
      by (simp add: MemoryCache_Read_def Let_def)
  next
    case (Some first)
    then have page: "ReadFully read (push_bit kCacheBits ?page) kCacheSize = Some first"
      using coh1 by simp
    show ?thesis
    proof (cases "n \<le> ?left")
      case True
      with def Some coh1 cached_first [OF page] show ?thesis
        by (simp add: MemoryCache_Read_def Let_def)
    next
      case beyond: False
      have second: "take (n - ?left) p2 = read (push_bit kCacheBits (?page + 1)) (n - ?left)"
        if "r2 = Some p2" for p2
        using coh2 that read_prefix [of "n - ?left" kCacheSize "push_bit kCacheBits (?page + 1)"] False
        by (simp add: ReadFully_Some_iff kCacheSize_def kCacheBits_def)
      have "read addr n = take ?left (drop ?off first)
          @ read (push_bit kCacheBits (?page + 1)) (n - ?left)"
        using cached_second [OF page _ no_wrap] cached_first [OF page order_refl] beyond by simp
      with def Some beyond coh2 second show ?thesis
        by (simp add: MemoryCache_Read_def Let_def split: option.splits)
    qed
  qed
qed

end

text \<open>A client's reads through one cache, in order.\<close>

fun MemoryCache_reads ::
  "memory \<Rightarrow> (u64 \<times> nat) list \<Rightarrow> page_cache \<Rightarrow> u8 list list \<times> page_cache" where
  "MemoryCache_reads impl [] cache = ([], cache)"
| "MemoryCache_reads impl ((addr, sz) # reqs) cache =
     (let (bytes, cache1) = MemoryCache_Read impl addr sz cache;
          (rest, cache2) = MemoryCache_reads impl reqs cache1
      in (bytes # rest, cache2))"

lemma MemoryCache_reads_coherent:
  assumes "contiguous_memory impl" and "cache_coherent impl cache"
    and "\<forall>(addr, sz) \<in> set reqs. unat addr + sz \<le> 2 ^ 64"
  shows "fst (MemoryCache_reads impl reqs cache) = map (\<lambda>(addr, sz). impl addr sz) reqs"
  using assms
proof (induction reqs arbitrary: cache)
  case (Cons req reqs)
  obtain addr sz where req: "req = (addr, sz)"
    by (cases req)
  obtain bytes cache1 where read: "MemoryCache_Read impl addr sz cache = (bytes, cache1)"
    by (cases "MemoryCache_Read impl addr sz cache")
  have "bytes = impl addr sz" "cache_coherent impl cache1"
    using contiguous_memory.MemoryCache_Read_transparent [OF assms(1) Cons.prems(2) _ read]
      Cons.prems(3) by (auto simp: req)
  with Cons read show ?case
    by (simp add: req split_beta)
qed simp



section \<open>Ranges are windows\<close>

lemma MemoryRange_Read_inside:
  assumes "unat k < unat (range_length r)" and "unat (range_offset r) + unat k < 2 ^ 64"
    and "unat (range_begin r) + unat k < 2 ^ 64"
  shows "MemoryRange_Read r (range_offset r + k) n =
    range_memory r (range_begin r + k) (min n (unat (range_length r) - unat k))"
proof -
  have "\<not> range_offset r + k < range_offset r"
    using assms(2) by (simp add: word_less_nat_alt unat_add_no_wrap)
  moreover have "\<not> range_length r \<le> k" "k \<le> range_length r"
    using assms(1) by (simp_all add: word_le_nat_alt)
  ultimately show ?thesis
    using assms(3) by (simp add: MemoryRange_Read_def unat_diff add.commute)
qed

lemma MemoryRange_Read_outside:
  "addr < range_offset r \<or> range_length r \<le> addr - range_offset r \<Longrightarrow> MemoryRange_Read r addr n = []"
  by (auto simp: MemoryRange_Read_def Let_def)

text \<open>The contract of the base memory is inherited by every range that fits into the address space.\<close>

definition range_inside :: "memory_range \<Rightarrow> u64 \<Rightarrow> bool" where
  "range_inside r a \<longleftrightarrow> range_offset r \<le> a \<and> a - range_offset r < range_length r \<and>
     unat (a - range_offset r) + unat (range_begin r) < 2 ^ 64"

definition range_left :: "memory_range \<Rightarrow> u64 \<Rightarrow> nat" where
  "range_left r a = unat (range_length r) - (unat a - unat (range_offset r))"

lemma MemoryRange_Read_eq:
  "MemoryRange_Read r a n =
     (if range_inside r a
      then range_memory r (a - range_offset r + range_begin r) (min n (range_left r a)) else [])"
  by (auto simp: MemoryRange_Read_def range_inside_def range_left_def Let_def unat_diff not_le not_less)

lemma range_left_top:
  "unat (range_offset r) + unat (range_length r) \<le> 2 ^ 64 \<Longrightarrow> range_inside r a \<Longrightarrow>
     unat a + range_left r a \<le> 2 ^ 64"
  by (auto simp: range_inside_def range_left_def word_le_nat_alt word_less_nat_alt unat_diff)

lemma range_step:
  assumes "range_inside r a" and "k < range_left r a" and "unat a + k < 2 ^ 64"
    and "unat (a - range_offset r + range_begin r) + k < 2 ^ 64"
  shows "range_inside r (a + of_nat k)" "range_left r (a + of_nat k) = range_left r a - k"
proof -
  have ua: "unat (a + of_nat k) = unat a + k"
    using assms by (intro unat_add_of_nat) simp
  have up: "range_offset r \<le> a + of_nat k"
    using assms ua by (simp add: range_inside_def word_le_nat_alt)
  show "range_left r (a + of_nat k) = range_left r a - k"
    using ua assms by (simp add: range_left_def range_inside_def word_le_nat_alt)
  show "range_inside r (a + of_nat k)"
    using assms up ua unat_add_no_wrap [of "a - range_offset r" "range_begin r"]
    by (auto simp: range_inside_def word_less_nat_alt word_le_nat_alt unat_diff range_left_def)
qed

lemma MemoryRange_suffix:
  assumes base: "memory_reader (range_memory r)"
    and fits: "unat (range_offset r) + unat (range_length r) \<le> 2 ^ 64"
    and k: "k < length (MemoryRange_Read r a n)"
  shows "MemoryRange_Read r (a + of_nat k) (n - k) = drop k (MemoryRange_Read r a n)"
proof -
  let ?a = "a - range_offset r + range_begin r" and ?m = "min n (range_left r a)"
  have ins: "range_inside r a"
    using k by (simp add: MemoryRange_Read_eq split: if_splits)
  then have k': "k < length (range_memory r ?a ?m)"
    using k by (simp add: MemoryRange_Read_eq)
  then have km: "k < ?m" and top: "unat ?a + k < 2 ^ 64"
    using memory_reader.read_len [OF base, of ?a ?m] memory_reader.read_top [OF base, of ?a ?m]
    by simp_all
  have "unat a + k < 2 ^ 64"
    using km range_left_top [OF fits ins] by simp
  note step = range_step [OF ins _ this top]
  have "MemoryRange_Read r (a + of_nat k) (n - k) = range_memory r (?a + of_nat k) (?m - k)"
    using km step by (simp add: MemoryRange_Read_eq algebra_simps min_diff)
  also have "\<dots> = drop k (range_memory r ?a ?m)"
    by (rule memory_reader.read_suffix [OF base k'])
  finally show ?thesis
    using ins by (simp add: MemoryRange_Read_eq)
qed

lemma MemoryRange_reader:
  assumes base: "memory_reader (range_memory r)"
    and fits: "unat (range_offset r) + unat (range_length r) \<le> 2 ^ 64"
  shows "memory_reader (MemoryRange_Read r)"
proof
  fix a :: u64 and n m k :: nat
  let ?a = "a - range_offset r + range_begin r" and ?left = "range_left r a"
  have len: "length (range_memory r ?a i) \<le> i" for i
    by (rule memory_reader.read_len [OF base])
  show "length (MemoryRange_Read r a n) \<le> n"
    using len [of "min n ?left"] by (simp add: MemoryRange_Read_eq)
  show "unat a + length (MemoryRange_Read r a n) \<le> 2 ^ 64"
    using len [of "min n ?left"] range_left_top [OF fits, of a] unat_u64_less [of a]
    by (auto simp: MemoryRange_Read_eq)
  show "MemoryRange_Read r a m = take m (MemoryRange_Read r a n)" if "m \<le> n"
  proof -
    have "min m ?left \<le> min n ?left"
      using that by auto
    then have "range_memory r ?a (min m ?left) = take (min m ?left) (range_memory r ?a (min n ?left))"
      by (rule memory_reader.read_prefix [OF base])
    moreover have "take (min m ?left) X = take m X" if "length X \<le> ?left" for X :: "u8 list"
      using that by (cases "m \<le> ?left") simp_all
    ultimately show ?thesis
      using len [of "min n ?left"] by (simp add: MemoryRange_Read_eq)
  qed
qed (rule MemoryRange_suffix [OF assms])

section \<open>Disjoint ranges\<close>

definition MemoryRanges_of :: "memory_range list \<Rightarrow> memory_range omap" where
  "MemoryRanges_of rs = fold MemoryRanges_Insert rs []"

abbreviation range_end :: "memory_range \<Rightarrow> u64" where
  "range_end r \<equiv> range_offset r + range_length r"

text \<open>Non-empty ranges that do not wrap around the address space and do not overlap.\<close>

definition disjoint_ranges :: "memory_range list \<Rightarrow> bool" where
  "disjoint_ranges rs \<longleftrightarrow> (\<forall>r \<in> set rs. range_offset r < range_end r) \<and>
     sorted_wrt (\<lambda>r r'. range_end r \<le> range_offset r' \<or> range_end r' \<le> range_offset r) rs"

lemma disjoint_ranges_ends:
  "disjoint_ranges rs \<Longrightarrow> distinct (map range_end rs)"
proof (induction rs)
  case (Cons r rs)
  have "range_end r \<noteq> range_end r'" if "r' \<in> set rs" for r'
  proof -
    have "range_end r \<le> range_offset r' \<or> range_end r' \<le> range_offset r"
      "range_offset r < range_end r" "range_offset r' < range_end r'"
      using Cons.prems that by (simp_all add: disjoint_ranges_def)
    then show ?thesis
      by auto
  qed
  moreover have "disjoint_ranges rs"
    using Cons.prems by (simp add: disjoint_ranges_def)
  ultimately show ?case
    using Cons.IH by auto
qed simp

lemma disjoint_ranges_pair:
  assumes "disjoint_ranges rs" and "r \<in> set rs" and "r' \<in> set rs"
  shows "r = r' \<or> range_end r \<le> range_offset r' \<or> range_end r' \<le> range_offset r"
  using assms by (induction rs) (auto simp: disjoint_ranges_def)

lemma MemoryRanges_fold:
  assumes "distinct (map range_end rs)" and "omap_inv m"
    and "range_end ` set rs \<inter> fst ` set m = {}"
  shows "omap_inv (fold MemoryRanges_Insert rs m) \<and>
    set (fold MemoryRanges_Insert rs m) = set m \<union> (\<lambda>r. (range_end r, r)) ` set rs"
  using assms
proof (induction rs arbitrary: m)
  case (Cons r rs)
  have new: "map_of m (range_end r) = None"
    using Cons.prems by (auto simp: map_of_eq_None_iff)
  then have ins: "MemoryRanges_Insert r m = omap_assign (range_end r) r m"
    by (simp add: MemoryRanges_Insert_def omap_emplace_def)
  have elems: "set (omap_assign (range_end r) r m) = insert (range_end r, r) (set m)"
    using new Cons.prems(2) by (rule set_omap_assign_new)
  show ?case
    using Cons.IH [of "omap_assign (range_end r) r m"] Cons.prems
    by (auto simp: ins elems omap_inv_assign image_iff)
qed simp

lemma MemoryRanges_of_elems:
  assumes "disjoint_ranges rs"
  shows "omap_inv (MemoryRanges_of rs)"
    and "set (MemoryRanges_of rs) = (\<lambda>r. (range_end r, r)) ` set rs"
  using MemoryRanges_fold [OF disjoint_ranges_ends [OF assms], of "[]"]
  by (simp_all add: MemoryRanges_of_def)

lemma MemoryRanges_find_Some:
  assumes dis: "disjoint_ranges rs" and r: "r \<in> set rs"
    and addr: "range_offset r \<le> addr" "addr < range_end r"
  shows "MemoryRanges_Read (MemoryRanges_of rs) addr n = MemoryRange_Read r addr n"
proof -
  have "upper_bound (MemoryRanges_of rs) addr = Some (range_end r, r)"
  proof (rule upper_bound_SomeI)
    fix j
    assume "j \<in> fst ` set (MemoryRanges_of rs)" and lt: "addr < j"
    then obtain r' where r': "r' \<in> set rs" "j = range_end r'"
      by (auto simp: MemoryRanges_of_elems [OF dis])
    then have "range_offset r' < range_end r'"
      using dis by (simp add: disjoint_ranges_def)
    then show "range_end r \<le> j"
      using disjoint_ranges_pair [OF dis r r'(1)] lt addr r'(2) by auto
  qed (use r addr in \<open>auto simp: MemoryRanges_of_elems [OF dis]\<close>)
  then show ?thesis
    by (simp add: MemoryRanges_Read_def)
qed

lemma MemoryRanges_find_None:
  assumes dis: "disjoint_ranges rs"
    and none: "\<And>r. r \<in> set rs \<Longrightarrow> \<not> (range_offset r \<le> addr \<and> addr < range_end r)"
  shows "MemoryRanges_Read (MemoryRanges_of rs) addr n = []"
proof (cases "upper_bound (MemoryRanges_of rs) addr")
  case (Some p)
  then have "p \<in> set (MemoryRanges_of rs)" "addr < fst p"
    using upper_bound_SomeD [of "MemoryRanges_of rs" addr "fst p" "snd p"] by auto
  then obtain r where r: "r \<in> set rs" "p = (range_end r, r)" "addr < range_end r"
    by (auto simp: MemoryRanges_of_elems [OF dis])
  with none [of r] have "addr < range_offset r"
    by auto
  with Some r show ?thesis
    by (simp add: MemoryRanges_Read_def MemoryRange_Read_outside)
qed (simp add: MemoryRanges_Read_def)

text \<open>
  C21. \<^verbatim>\<open>MemoryRanges\<close> dispatches correctly: after inserting non-overlapping ranges, in any order, a
  read at an address of one of them is the read of that range, and a read at any other address
  delivers nothing.
\<close>

theorem MemoryRanges_Read_correct:
  assumes "disjoint_ranges rs"
  shows "MemoryRanges_Read (MemoryRanges_of rs) addr n =
    (case List.find (\<lambda>r. range_offset r \<le> addr \<and> addr < range_end r) rs of
       None \<Rightarrow> []
     | Some r \<Rightarrow> MemoryRange_Read r addr n)"
proof (cases "List.find (\<lambda>r. range_offset r \<le> addr \<and> addr < range_end r) rs")
  case None
  then have "MemoryRanges_Read (MemoryRanges_of rs) addr n = []"
    by (intro MemoryRanges_find_None [OF assms]) (simp add: find_None_iff)
  with None show ?thesis
    by simp
next
  case (Some r)
  then have "r \<in> set rs" "range_offset r \<le> addr" "addr < range_end r"
    by (auto simp: find_Some_iff)
  with Some show ?thesis
    by (simp add: MemoryRanges_find_Some [OF assms])
qed

theorem MemoryRanges_Read_correct_witness:
  "MemoryRanges_Read (MemoryRanges_of
     [\<lparr>range_memory = MemoryBuffer_Read [1, 2, 3, 4], range_begin = 2, range_length = 2, range_offset = 16\<rparr>,
      \<lparr>range_memory = MemoryBuffer_Read [5, 6, 7, 8], range_begin = 0, range_length = 4, range_offset = 8\<rparr>])
     10 4 = [7, 8]"
  by (subst MemoryRanges_Read_correct)
    (simp_all add: disjoint_ranges_def MemoryRange_Read_def MemoryBuffer_Read_def)

section \<open>Mapped files\<close>

lemma aligned_split:
  fixes offset :: u64
  shows "unat (offset AND NOT (2 ^ p - 1)) + unat (offset AND (2 ^ p - 1)) = unat offset"
    and "(offset AND NOT (2 ^ p - 1)) AND (2 ^ p - 1) = 0"
proof -
  let ?al = "offset AND NOT (mask p)" and ?o = "offset AND mask p"
  have m: "(2 ^ p - 1 :: u64) = mask p"
    by (simp add: mask_eq_exp_minus_1)
  have sum: "?al + ?o = offset"
  proof -
    have "?al = push_bit p (drop_bit p offset)"
      by (rule bit_word_eqI) (auto simp: bit_simps)
    then show ?thesis
      by (simp only: take_bit_eq_mask [symmetric] bits_ident)
  qed
  have "?al \<le> offset"
    by (rule word_and_le2)
  then have "unat ?al \<le> unat offset" "unat (offset - ?al) = unat offset - unat ?al"
    by (simp_all add: word_le_nat_alt unat_diff)
  moreover have "offset - ?al = ?o"
    using sum by (metis add_diff_cancel_left')
  ultimately show "unat (offset AND NOT (2 ^ p - 1)) + unat (offset AND (2 ^ p - 1)) = unat offset"
    by (simp add: m)
  show "(offset AND NOT (2 ^ p - 1)) AND (2 ^ p - 1) = 0"
    unfolding m by (simp add: bit_eq_iff bit_simps)
qed

lemma MemoryFileAtOffset_Clear_eq: "MemoryFileAtOffset_Clear m = m\<lparr>fm_data := None\<rparr>"
  by (simp add: MemoryFileAtOffset_Clear_def)

lemma MemoryFileAtOffset_Init_eq:
  fixes p :: nat
  assumes "offset < st" and "0 < sz"
  defines "po \<equiv> offset AND (2 ^ p - 1)" and "al \<equiv> offset AND NOT (2 ^ p - 1)"
  obtains len where "unat len = min (unat sz + unat po) (unat st - unat al)" and "0 < len" and "po \<le> len"
    and "unat al + unat len \<le> unat st"
    and "unat (len - po) = min (unat sz) (unat st - unat offset)"
    and "\<And>m. MemoryFileAtOffset_Init (2 ^ p) (Some st) mmap offset sz m =
      (case mmap len al of
         None \<Rightarrow> (Fail, m\<lparr>fm_data := None, fm_offset := po, fm_size := len\<rparr>)
       | Some mapped \<Rightarrow>
           (Ok (), m\<lparr>fm_data := Some (drop (unat po) mapped), fm_offset := po, fm_size := len - po\<rparr>))"
proof -
  have split: "unat al + unat po = unat offset" and off: "unat offset < unat st" and sz: "0 < unat sz"
    using aligned_split(1) [of offset p] assms by (simp_all add: word_less_nat_alt)
  then have al: "al \<le> st" "\<not> st < al" "\<not> st \<le> offset" "\<not> st < offset"
    using assms(1) by (auto simp: word_le_nat_alt word_less_nat_alt)
  define len where
    "len = (if unat sz + unat po < 2 ^ 64 \<and> sz + po < st - al then sz + po else st - al)"
  have len: "unat len = min (unat sz + unat po) (unat st - unat al)"
    using al unat_u64_less [of st]
    by (auto simp: len_def unat_add_no_wrap unat_diff word_less_nat_alt min_def not_less)
  then have ge: "po \<le> len" and pos: "0 < len"
    using split off sz by (auto simp: word_le_nat_alt word_less_nat_alt)
  show ?thesis
  proof (rule that [OF len pos ge])
    show "unat al + unat len \<le> unat st"
      using len split off by simp
    show "unat (len - po) = min (unat sz) (unat st - unat offset)"
      using len ge split by (simp add: unat_diff min_def) arith
    show "MemoryFileAtOffset_Init (2 ^ p) (Some st) mmap offset sz m =
      (case mmap len al of
         None \<Rightarrow> (Fail, m\<lparr>fm_data := None, fm_offset := po, fm_size := len\<rparr>)
       | Some mapped \<Rightarrow>
           (Ok (), m\<lparr>fm_data := Some (drop (unat po) mapped), fm_offset := po, fm_size := len - po\<rparr>))" for m
      using al
      by (cases "unat sz + unat po < 2 ^ 64 \<and> sz + po < st - al")
        (auto simp: MemoryFileAtOffset_Init_def MemoryFileAtOffset_Clear_eq Let_def len_def
          po_def [symmetric] al_def [symmetric] split: option.splits)
  qed
qed

text \<open>
  C22. \<^verbatim>\<open>MemoryFileAtOffset\<close> is a window on the file: if \<^verbatim>\<open>mmap\<close> maps the file's bytes, \<^verbatim>\<open>Init\<close>
  succeeds for every offset inside the file, and the reads that follow deliver the bytes of the
  file from that offset on, at most the requested size of them, although the mapping itself has
  to start at a page boundary.
\<close>

theorem MemoryFileAtOffset_correct:
  assumes size: "length content = unat st"
    and mmap: "\<And>len off. off AND (2 ^ p - 1) = 0 \<Longrightarrow> 0 < len \<Longrightarrow>
      unat off + unat len \<le> length content \<Longrightarrow>
      mmap len off = Some (take (unat len) (drop (unat off) content))"
    and offset: "offset < st" and sz: "0 < sz"
  shows "\<exists>m'. MemoryFileAtOffset_Init (2 ^ p) (Some st) mmap offset sz m = (Ok (), m') \<and>
    (\<forall>addr n. MemoryFileAtOffset_Read m' addr n =
       Ok (take n (drop (unat addr) (take (unat sz) (drop (unat offset) content)))))"
proof -
  let ?po = "offset AND (2 ^ p - 1)" and ?al = "offset AND NOT (2 ^ p - 1)"
  obtain len where len: "unat len = min (unat sz + unat ?po) (unat st - unat ?al)" "0 < len" "?po \<le> len"
      "unat ?al + unat len \<le> unat st" "unat (len - ?po) = min (unat sz) (unat st - unat offset)"
    and init: "\<And>m. MemoryFileAtOffset_Init (2 ^ p) (Some st) mmap offset sz m =
      (case mmap len ?al of
         None \<Rightarrow> (Fail, m\<lparr>fm_data := None, fm_offset := ?po, fm_size := len\<rparr>)
       | Some mapped \<Rightarrow>
           (Ok (), m\<lparr>fm_data := Some (drop (unat ?po) mapped), fm_offset := ?po, fm_size := len - ?po\<rparr>))"
    by (rule MemoryFileAtOffset_Init_eq [OF offset sz, of p mmap]) blast
  let ?data = "take (unat sz) (drop (unat offset) content)"
  have mapped: "mmap len ?al = Some (take (unat len) (drop (unat ?al) content))"
    using len size by (intro mmap aligned_split) auto
  have "drop (unat ?po) (take (unat len) (drop (unat ?al) content)) =
      take (unat (len - ?po)) (drop (unat offset) content)"
    using len(3) aligned_split(1) [of offset p] by (simp add: drop_take unat_diff add.commute)
  also have "\<dots> = ?data"
    using len(5) size by (cases "unat sz \<le> unat st - unat offset") simp_all
  finally have data: "drop (unat ?po) (take (unat len) (drop (unat ?al) content)) = ?data" .
  have dlen: "length ?data = unat (len - ?po)"
    using len(5) size by simp
  show ?thesis
  proof (intro exI conjI allI)
    let ?m = "m\<lparr>fm_data := Some ?data, fm_offset := ?po, fm_size := len - ?po\<rparr>"
    show "MemoryFileAtOffset_Init (2 ^ p) (Some st) mmap offset sz m = (Ok (), ?m)"
      by (simp add: init mapped data)
    show "MemoryFileAtOffset_Read ?m addr n = Ok (take n (drop (unat addr) ?data))" for addr n
    proof (cases "len - ?po \<le> addr")
      case True
      then show ?thesis
        using dlen by (simp add: MemoryFileAtOffset_Read_def word_le_nat_alt)
    next
      case False
      then have "unat (len - ?po - addr) = length ?data - unat addr"
        by (simp only: dlen unat_diff [of addr "len - ?po"] not_le less_imp_le)
      with False show ?thesis
        by (simp add: MemoryFileAtOffset_Read_def take_min_length del: length_take length_drop)
    qed
  qed
qed

theorem MemoryFileAtOffset_correct_witness:
  "\<exists>m'. MemoryFileAtOffset_Init 4 (Some 8)
      (\<lambda>len off. Some (take (unat len) (drop (unat off) [10, 11, 12, 13, 14, 15, 16, 17]))) 5 2
      \<lparr>fm_size = 0, fm_offset = 0, fm_data = None\<rparr> = (Ok (), m') \<and>
    MemoryFileAtOffset_Read m' 1 4 = Ok [16]"
  using MemoryFileAtOffset_correct [of "[10, 11, 12, 13, 14, 15, 16, 17]" 8 2
    "\<lambda>len off. Some (take (unat len) (drop (unat off) [10, 11, 12, 13, 14, 15, 16, 17]))" 5 2
    "\<lparr>fm_size = 0, fm_offset = 0, fm_data = None\<rparr>"]
  by (auto dest: spec [of _ 1])

section \<open>Word-wise reads of a traced process\<close>

text \<open>
  What \<^verbatim>\<open>PTRACE_PEEKTEXT\<close> delivers when it delivers anything, for a traced process with memory
  content \<open>content\<close>: the eight bytes at the address.
\<close>

definition peeks :: "(u64 \<Rightarrow> u64 option) \<Rightarrow> (u64 \<Rightarrow> u8) \<Rightarrow> bool" where
  "peeks peek content \<longleftrightarrow>
     (\<forall>a w. peek a = Some w \<longrightarrow> le_bytes 8 w = map (\<lambda>i. content (a + of_nat i)) [0..<8])"

abbreviation bytes_at :: "(u64 \<Rightarrow> u8) \<Rightarrow> u64 \<Rightarrow> nat \<Rightarrow> u8 list" where
  "bytes_at content a n \<equiv> map (\<lambda>i. content (a + of_nat i)) [0..<n]"

lemma bytes_at_append: "bytes_at content a n @ bytes_at content (a + of_nat n) m = bytes_at content a (n + m)"
  by (rule nth_equalityI) (auto simp: nth_append add.assoc)

lemma drop_bytes_at: "drop k (bytes_at content a n) = bytes_at content (a + of_nat k) (n - k)"
  by (rule nth_equalityI) (auto simp: add.assoc)

lemma take_bytes_at: "take k (bytes_at content a n) = bytes_at content a (min k n)"
  by (simp add: take_map min_def)

lemma PtraceRead_words_bytes:
  assumes "peeks peek content" and "PtraceRead_words peek a n = (bs, ok)"
  shows "bs = bytes_at content a (length bs) \<and> length bs \<le> 8 * n \<and> (ok \<longrightarrow> length bs = 8 * n)"
  using assms(2)
proof (induction n arbitrary: a bs)
  case (Suc n)
  show ?case
  proof (cases "peek a")
    case None
    with Suc.prems show ?thesis by simp
  next
    case (Some w)
    obtain rest where rest: "PtraceRead_words peek (a + 8) n = (rest, ok)" "bs = le_bytes 8 w @ rest"
      using Suc.prems Some by (auto split: prod.splits)
    have "le_bytes 8 w = bytes_at content a 8"
      using assms(1) Some by (simp add: peeks_def)
    with Suc.IH [OF rest(1)] rest(2) show ?thesis
      using bytes_at_append [of content a 8 "length rest"] by auto
  qed
qed simp

lemma PtraceRead_words_total:
  assumes "\<And>i. i < n \<Longrightarrow> peek (a + of_nat (8 * i)) \<noteq> None"
  shows "snd (PtraceRead_words peek a n)"
  using assms
proof (induction n arbitrary: a)
  case (Suc n)
  obtain w where "peek a = Some w"
    using Suc.prems [of 0] by auto
  moreover have "snd (PtraceRead_words peek (a + 8) n)"
  proof (rule Suc.IH)
    show "peek (a + 8 + of_nat (8 * i)) \<noteq> None" if "i < n" for i
      using Suc.prems [of "Suc i"] that by (simp add: algebra_simps)
  qed
  ultimately show ?case
    by (simp add: split_beta)
qed simp

text \<open>The part of \<^verbatim>\<open>PtraceRead\<close> that fetches the bytes up to the first word boundary.\<close>

definition PtraceRead_prefix :: "(u64 \<Rightarrow> u64 option) \<Rightarrow> u64 \<Rightarrow> nat \<Rightarrow> u8 list option" where
  "PtraceRead_prefix peek addr bytes =
     (if unat (addr AND 7) = 0 then Some []
      else map_option (\<lambda>data. take (min (8 - unat (addr AND 7)) bytes)
        (drop (unat (addr AND 7)) (le_bytes 8 data))) (peek (addr AND NOT 7)))"

lemma PtraceRead_eq:
  "PtraceRead peek addr n =
     (if unat addr + n \<ge> 2 ^ 64 then []
      else case PtraceRead_prefix peek addr n of
        None \<Rightarrow> []
      | Some prefix \<Rightarrow>
          let addr1 = addr + of_nat (length prefix); n1 = n - length prefix;
              (words, complete) = PtraceRead_words peek addr1 (n1 div 8) in
          if \<not> complete \<or> n1 mod 8 = 0 then prefix @ words
          else case peek (addr1 + of_nat (8 * (n1 div 8))) of
            None \<Rightarrow> prefix @ words
          | Some data \<Rightarrow> prefix @ words @ take (n1 mod 8) (le_bytes 8 data))"
  by (auto simp: PtraceRead_def PtraceRead_prefix_def Let_def split: option.splits prod.splits)

lemma and_7: "unat (a AND 7 :: u64) = unat a mod 8"
  and and_not_7: "unat (a AND NOT 7 :: u64) = unat a - unat a mod 8"
proof -
  have m: "(7 :: u64) = mask 3"
    by (simp add: mask_eq_exp_minus_1)
  show a: "unat (a AND 7) = unat a mod 8"
    unfolding m unat_and_mask by simp
  have "(2 ^ 3 - 1 :: u64) = 7"
    by simp
  with aligned_split(1) [of a 3] a show "unat (a AND NOT 7) = unat a - unat a mod 8"
    by simp
qed

lemma PtraceRead_prefix_bytes:
  assumes "peeks peek content" and "PtraceRead_prefix peek a n = Some bs"
  shows "bs = bytes_at content a (length bs) \<and> length bs = min ((8 - unat a mod 8) mod 8) n"
proof (cases "unat (a AND 7) = 0")
  case True
  with assms(2) show ?thesis
    by (simp add: PtraceRead_prefix_def and_7)
next
  case False
  let ?k = "unat (a AND 7)"
  obtain w where w: "peek (a AND NOT 7) = Some w" "bs = take (min (8 - ?k) n) (drop ?k (le_bytes 8 w))"
    using assms(2) False by (auto simp: PtraceRead_prefix_def)
  have split: "unat (a AND NOT 7) + ?k = unat a"
    by (simp only: and_7 and_not_7 mod_less_eq_dividend le_add_diff_inverse2)
  have "unat ((a AND NOT 7) + of_nat ?k) = unat a"
    using unat_add_of_nat [of "a AND NOT 7" ?k] unat_u64_less [of a] unfolding split by simp
  then have "(a AND NOT 7) + of_nat ?k = a"
    by (simp only: word_unat_eq_iff)
  moreover have "le_bytes 8 w = bytes_at content (a AND NOT 7) 8"
    using assms(1) w(1) by (simp add: peeks_def)
  ultimately have "bs = bytes_at content a (min (min (8 - ?k) n) (8 - ?k))"
    using w(2) by (simp add: drop_bytes_at take_bytes_at del: upt_rec_numeral)
  moreover have "min (min (8 - ?k) n) (8 - ?k) = min ((8 - unat a mod 8) mod 8) n"
    using False unfolding and_7 by (simp add: min.absorb1)
  ultimately show ?thesis
    by (simp add: min.commute)
qed

lemma PtraceRead_bytes:
  assumes "peeks peek content"
  shows "PtraceRead peek a n = bytes_at content a (length (PtraceRead peek a n))"
    and "length (PtraceRead peek a n) \<le> n"
proof -
  have "\<exists>k \<le> n. PtraceRead peek a n = bytes_at content a k"
  proof (cases "unat a + n \<ge> 2 ^ 64 \<or> PtraceRead_prefix peek a n = None")
    case True
    then have "PtraceRead peek a n = bytes_at content a 0"
      by (auto simp: PtraceRead_eq)
    then show ?thesis
      by blast
  next
    case False
    then obtain p where p: "PtraceRead_prefix peek a n = Some p"
      by blast
    define a1 n1 where "a1 = a + of_nat (length p)" and "n1 = n - length p"
    obtain ws ok where ws: "PtraceRead_words peek a1 (n1 div 8) = (ws, ok)"
      by (cases "PtraceRead_words peek a1 (n1 div 8)")
    have P: "p = bytes_at content a (length p)" "length p \<le> n"
      using PtraceRead_prefix_bytes [OF assms p] by auto
    have W: "ws = bytes_at content a1 (length ws)" "length ws \<le> 8 * (n1 div 8)"
      "ok \<Longrightarrow> length ws = 8 * (n1 div 8)"
      using PtraceRead_words_bytes [OF assms ws] by auto
    have pw: "p @ ws = bytes_at content a (length p + length ws)"
      using P(1) W(1) unfolding a1_def by (metis bytes_at_append)
    have le: "length p + length ws \<le> n"
      using P(2) W(2) by (simp add: n1_def)
    show ?thesis
    proof (cases "\<not> ok \<or> n1 mod 8 = 0 \<or> peek (a1 + of_nat (8 * (n1 div 8))) = None")
      case True
      then have "PtraceRead peek a n = p @ ws"
        using False p ws by (auto simp: PtraceRead_eq a1_def n1_def Let_def)
      then show ?thesis
        using pw le by auto
    next
      case rest: False
      then obtain w where w: "peek (a1 + of_nat (8 * (n1 div 8))) = Some w" and ok
        by auto
      have "take (n1 mod 8) (le_bytes 8 w) = bytes_at content (a1 + of_nat (length ws)) (n1 mod 8)"
        using assms w W(3) \<open>ok\<close> by (simp add: peeks_def take_bytes_at del: upt_rec_numeral)
      then have "(p @ ws) @ take (n1 mod 8) (le_bytes 8 w)
          = bytes_at content a (length p + length ws + n1 mod 8)"
        unfolding pw using bytes_at_append [of content a "length p + length ws" "n1 mod 8"]
        by (simp add: a1_def add.assoc)
      moreover have "length p + length ws + n1 mod 8 \<le> n"
        using P(2) W(3) \<open>ok\<close> by (simp add: n1_def)
      moreover have "PtraceRead peek a n = p @ ws @ take (n1 mod 8) (le_bytes 8 w)"
        using False rest p ws w by (auto simp: PtraceRead_eq a1_def n1_def Let_def)
      ultimately show ?thesis
        by auto
    qed
  qed
  then show "PtraceRead peek a n = bytes_at content a (length (PtraceRead peek a n))"
    "length (PtraceRead peek a n) \<le> n"
    by auto
qed

lemma and_not_7_aligned: "unat (a :: u64) mod 8 = 0 \<Longrightarrow> a AND NOT 7 = a"
  by (simp only: word_unat_eq_iff and_not_7 diff_zero)

lemma round_up_8: "((x :: nat) + (8 - x mod 8) mod 8) mod 8 = 0"
proof (cases "x mod 8 = 0")
  case False
  have "x mod 8 + (8 - x mod 8) = 8"
    by (simp add: less_imp_le)
  then have "(x + (8 - x mod 8)) mod 8 = 0"
    by (metis mod_add_left_eq mod_self)
  with False show ?thesis
    by simp
qed simp

lemma PtraceRead_complete:
  assumes "peeks peek content" and fits: "unat a + n < 2 ^ 64"
    and mapped: "\<And>i. i < n \<Longrightarrow> peek ((a + of_nat i) AND NOT 7) \<noteq> None"
  shows "length (PtraceRead peek a n) = n"
proof -
  have peek_at: "peek (a + of_nat i) \<noteq> None" if "i < n" "(unat a + i) mod 8 = 0" for i
  proof -
    have "unat (a + of_nat i) = unat a + i"
      using fits that(1) by (intro unat_add_of_nat) simp
    then show ?thesis
      using mapped [OF that(1)] that(2) by (simp only: and_not_7_aligned not_False_eq_True)
  qed
  have "PtraceRead_prefix peek a n \<noteq> None" if "n \<noteq> 0"
    using mapped [of 0] that by (auto simp: PtraceRead_prefix_def)
  then consider "n = 0" | p where "PtraceRead_prefix peek a n = Some p"
    by blast
  then show ?thesis
  proof cases
    case 1
    then show ?thesis
      using PtraceRead_bytes(2) [OF assms(1), of a 0] by simp
  next
    case (2 p)
    define a1 n1 where "a1 = a + of_nat (length p)" and "n1 = n - length p"
    have p: "length p = min ((8 - unat a mod 8) mod 8) n"
      using PtraceRead_prefix_bytes [OF assms(1) 2] by simp
    have aligned: "(unat a + length p) mod 8 = 0" if "n1 \<noteq> 0"
    proof -
      have "length p = (8 - unat a mod 8) mod 8"
        using that p by (simp add: n1_def min_def split: if_splits)
      then show ?thesis
        by (simp only: round_up_8)
    qed
    have words: "peek (a1 + of_nat (8 * i)) \<noteq> None" if "8 * i < n1" for i
    proof -
      have "peek (a + of_nat (length p + 8 * i)) \<noteq> None"
        using that aligned by (intro peek_at) (auto simp: n1_def mod_simps simp flip: add.assoc)
      then show ?thesis
        by (simp add: a1_def add.assoc)
    qed
    obtain ws ok where ws: "PtraceRead_words peek a1 (n1 div 8) = (ws, ok)"
      by (cases "PtraceRead_words peek a1 (n1 div 8)")
    have ok
      using PtraceRead_words_total [of "n1 div 8" peek a1] words ws by simp
    then have "length ws = 8 * (n1 div 8)"
      using PtraceRead_words_bytes [OF assms(1) ws] by simp
    moreover have "n1 mod 8 \<noteq> 0 \<Longrightarrow> \<exists>w. peek (a1 + of_nat (8 * (n1 div 8))) = Some w"
      using words [of "n1 div 8"] by (metis mult_div_mod_eq less_add_same_cancel1 not_None_eq neq0_conv)
    moreover have "length p + n1 = n"
      using p by (simp add: n1_def)
    ultimately show ?thesis
      using 2 ws \<open>ok\<close> fits by (auto simp: PtraceRead_eq a1_def n1_def Let_def)
  qed
qed

text \<open>
  C31. \<^verbatim>\<open>PtraceRead\<close> reads bytes at any alignment through word-sized \<^verbatim>\<open>PTRACE_PEEKTEXT\<close> requests:
  what it delivers is always a prefix of the traced process's bytes at the address, and it is
  complete if every aligned word that the request touches can be peeked.
\<close>

theorem PtraceRead_correct:
  assumes "peeks peek content"
  shows "(\<exists>k \<le> n. PtraceRead peek a n = bytes_at content a k) \<and>
    (unat a + n < 2 ^ 64 \<longrightarrow> (\<forall>i<n. peek ((a + of_nat i) AND NOT 7) \<noteq> None) \<longrightarrow>
       PtraceRead peek a n = bytes_at content a n)"
proof (intro conjI impI)
  note pre = PtraceRead_bytes [OF assms, of a n]
  then show "\<exists>k \<le> n. PtraceRead peek a n = bytes_at content a k"
    by blast
  assume "unat a + n < 2 ^ 64" and "\<forall>i<n. peek ((a + of_nat i) AND NOT 7) \<noteq> None"
  then have "length (PtraceRead peek a n) = n"
    using PtraceRead_complete [OF assms, of a n] by blast
  then show "PtraceRead peek a n = bytes_at content a n"
    using pre(1) by simp
qed

theorem PtraceRead_correct_witness:
  "PtraceRead (\<lambda>a. if a AND 7 = 0 then Some (le_word (bytes_at (\<lambda>b. ucast b) a 8)) else None) 0x1006 4
     = [6, 7, 8, 9]"
proof -
  let ?peek = "\<lambda>a :: u64. if a AND 7 = 0 then Some (le_word (bytes_at (\<lambda>b. ucast b) a 8) :: u64) else None"
  have "le_bytes 8 (le_word (bytes_at ucast a 8) :: u64) = bytes_at ucast a 8" for a
    using le_bytes_le_word [of "bytes_at ucast a 8", where 'a = 64] by (simp del: upt_rec_numeral)
  then have "peeks ?peek (\<lambda>b. ucast b)"
    by (auto simp: peeks_def simp del: upt_rec_numeral)
  moreover have "\<forall>i<4. ?peek ((0x1006 + of_nat i) AND NOT 7) \<noteq> None"
    by (simp add: and.assoc)
  ultimately have "PtraceRead ?peek 0x1006 4 = bytes_at ucast 0x1006 4"
    using PtraceRead_correct [of ?peek "\<lambda>b. ucast b" 4 "0x1006"] by simp
  then show ?thesis
    by (simp add: upt_conv_Cons)
qed

end
