(* ===== verification/Dwarf_Memory.thy ===== *)
theory Dwarf_Memory
  imports Memory
begin

text \<open>
  \<^verbatim>\<open>DwarfMemory.cpp\<close>, \<^verbatim>\<open>DwarfMemory.h\<close> and \<^verbatim>\<open>DwarfEncoding.h\<close>: a cursor over a memory that reads
  the scalar formats of DWARF, LEB128 numbers and encoded pointers. The members are programs on
  the record \<open>dwarf_memory\<close>. The results are that reading inverts the LEB128 and fixed size
  encodings, where the C++ shifts become undefined, and how far the cursor moves.
\<close>

section \<open>The cursor\<close>

record dwarf_memory =
  memory_of :: memory
  cur_offset :: u64
  pc_offset :: u64
  data_offset :: u64
  func_offset :: u64
  text_offset :: u64

definition DwarfMemory :: "memory \<Rightarrow> dwarf_memory" where
  "DwarfMemory mem =
     \<lparr>memory_of = mem, cur_offset = 0, pc_offset = -1, data_offset = -1, func_offset = -1,
      text_offset = -1\<rparr>"

definition set_cur_offset :: "u64 \<Rightarrow> (dwarf_memory, unit) prog" where
  "set_cur_offset off = modify (\<lambda>m. m\<lparr>cur_offset := off\<rparr>)"

section \<open>Scalars\<close>

definition ReadBytes :: "nat \<Rightarrow> (dwarf_memory, u8 list) prog" where
  "ReadBytes num_bytes = (\<lambda>m.
     case ReadFully (memory_of m) (cur_offset m) num_bytes of
       None \<Rightarrow> (Fail, m)
     | Some bs \<Rightarrow> (Ok bs, m\<lparr>cur_offset := cur_offset m + of_nat num_bytes\<rparr>))"

text \<open>Reading into a \<^verbatim>\<open>uint64_t\<close> through an unsigned or a signed type of \<open>n\<close> bytes.\<close>

definition ReadUnsigned :: "nat \<Rightarrow> (dwarf_memory, u64) prog" where
  "ReadUnsigned n = bnd (ReadBytes n) (\<lambda>bs. ret (le_word bs))"

definition ReadSigned :: "nat \<Rightarrow> (dwarf_memory, u64) prog" where
  "ReadSigned n = bnd (ReadBytes n) (\<lambda>bs. ret (signed_take_bit (8 * n - 1) (le_word bs)))"

text \<open>
  The loop that \<^verbatim>\<open>ReadULEB128\<close> and \<^verbatim>\<open>ReadSLEB128\<close> share: the value, the final \<^verbatim>\<open>shift\<close> and the last
  byte. A shift of a 64-bit value by 64 or more is undefined.
\<close>

function ReadLEB128_loop :: "u64 \<Rightarrow> nat \<Rightarrow> (dwarf_memory, u64 \<times> nat \<times> u8) prog" where
  "ReadLEB128_loop cur_value shift =
     bnd (ReadBytes 1) (\<lambda>bs.
       if shift \<ge> 64 then crash Undefined
       else
         let byte = hd bs;
             value = cur_value + push_bit shift (ucast (byte AND 0x7f)) in
         if byte AND 0x80 \<noteq> 0 then ReadLEB128_loop value (shift + 7)
         else ret (value, shift + 7, byte))"
  by pat_completeness auto
termination
  by (relation "measure (\<lambda>(_, shift). 64 - shift)") auto

declare ReadLEB128_loop.simps [simp del]

definition ReadULEB128 :: "(dwarf_memory, u64) prog" where
  "ReadULEB128 = bnd (ReadLEB128_loop 0 0) (\<lambda>(value, _, _). ret value)"

text \<open>The result is the bit pattern of the \<^verbatim>\<open>int64_t\<close>.\<close>

definition ReadSLEB128 :: "(dwarf_memory, u64) prog" where
  "ReadSLEB128 =
     bnd (ReadLEB128_loop 0 0) (\<lambda>(value, shift, byte).
       if byte AND 0x40 \<noteq> 0 then
         if shift \<ge> 64 then crash Undefined else ret (value OR push_bit shift (-1))
       else ret value)"

section \<open>Encoded pointers\<close>

definition DW_EH_PE_omit :: u8 where "DW_EH_PE_omit = 0xff"
definition DW_EH_PE_absptr :: u8 where "DW_EH_PE_absptr = 0x00"
definition DW_EH_PE_uleb128 :: u8 where "DW_EH_PE_uleb128 = 0x01"
definition DW_EH_PE_udata2 :: u8 where "DW_EH_PE_udata2 = 0x02"
definition DW_EH_PE_udata4 :: u8 where "DW_EH_PE_udata4 = 0x03"
definition DW_EH_PE_udata8 :: u8 where "DW_EH_PE_udata8 = 0x04"
definition DW_EH_PE_sleb128 :: u8 where "DW_EH_PE_sleb128 = 0x09"
definition DW_EH_PE_sdata2 :: u8 where "DW_EH_PE_sdata2 = 0x0a"
definition DW_EH_PE_sdata4 :: u8 where "DW_EH_PE_sdata4 = 0x0b"
definition DW_EH_PE_sdata8 :: u8 where "DW_EH_PE_sdata8 = 0x0c"
definition DW_EH_PE_pcrel :: u8 where "DW_EH_PE_pcrel = 0x10"
definition DW_EH_PE_textrel :: u8 where "DW_EH_PE_textrel = 0x20"
definition DW_EH_PE_datarel :: u8 where "DW_EH_PE_datarel = 0x30"
definition DW_EH_PE_funcrel :: u8 where "DW_EH_PE_funcrel = 0x40"
definition DW_EH_PE_aligned :: u8 where "DW_EH_PE_aligned = 0x50"
definition DW_EH_PE_udata1 :: u8 where "DW_EH_PE_udata1 = 0x0d"
definition DW_EH_PE_sdata1 :: u8 where "DW_EH_PE_sdata1 = 0x0e"
definition DW_EH_PE_block :: u8 where "DW_EH_PE_block = 0x0f"

lemmas encoding_defs =
  DW_EH_PE_omit_def DW_EH_PE_absptr_def DW_EH_PE_uleb128_def DW_EH_PE_udata2_def
  DW_EH_PE_udata4_def DW_EH_PE_udata8_def DW_EH_PE_sleb128_def DW_EH_PE_sdata2_def
  DW_EH_PE_sdata4_def DW_EH_PE_sdata8_def DW_EH_PE_pcrel_def DW_EH_PE_textrel_def
  DW_EH_PE_datarel_def DW_EH_PE_funcrel_def DW_EH_PE_aligned_def DW_EH_PE_udata1_def
  DW_EH_PE_sdata1_def DW_EH_PE_block_def

definition GetEncodedSize :: "'a::len itself \<Rightarrow> u8 \<Rightarrow> nat" where
  "GetEncodedSize ty encoding =
     (let e = encoding AND 0x0f in
      if e = DW_EH_PE_absptr then sizeof ty
      else if e = DW_EH_PE_udata1 \<or> e = DW_EH_PE_sdata1 then 1
      else if e = DW_EH_PE_udata2 \<or> e = DW_EH_PE_sdata2 then 2
      else if e = DW_EH_PE_udata4 \<or> e = DW_EH_PE_sdata4 then 4
      else if e = DW_EH_PE_udata8 \<or> e = DW_EH_PE_sdata8 then 8
      else 0)"

definition AdjustEncodedValue :: "u8 \<Rightarrow> u64 \<Rightarrow> (dwarf_memory, u64) prog" where
  "AdjustEncodedValue encoding value = (\<lambda>m.
     let rel = (\<lambda>off. if off = -1 then (Fail, m) else (Ok (value + off), m)) in
     if encoding AND 0x0f \<noteq> 0 then (Crash CheckFailed, m)
     else if encoding = DW_EH_PE_absptr then (Ok value, m)
     else if encoding = DW_EH_PE_pcrel then rel (pc_offset m)
     else if encoding = DW_EH_PE_textrel then rel (text_offset m)
     else if encoding = DW_EH_PE_datarel then rel (data_offset m)
     else if encoding = DW_EH_PE_funcrel then rel (func_offset m)
     else (Fail, m))"

text \<open>The switch on the format, the low four bits of an encoding.\<close>

definition ReadEncodedData :: "'a::len itself \<Rightarrow> u8 \<Rightarrow> (dwarf_memory, u64) prog" where
  "ReadEncodedData ty e =
     (if e = DW_EH_PE_absptr then ReadUnsigned (sizeof ty)
      else if e = DW_EH_PE_uleb128 then ReadULEB128
      else if e = DW_EH_PE_sleb128 then ReadSLEB128
      else if e = DW_EH_PE_udata1 then ReadUnsigned 1
      else if e = DW_EH_PE_sdata1 then ReadSigned 1
      else if e = DW_EH_PE_udata2 then ReadUnsigned 2
      else if e = DW_EH_PE_sdata2 then ReadSigned 2
      else if e = DW_EH_PE_udata4 then ReadUnsigned 4
      else if e = DW_EH_PE_sdata4 then ReadSigned 4
      else if e = DW_EH_PE_udata8 then ReadUnsigned 8
      else if e = DW_EH_PE_sdata8 then ReadSigned 8
      else fail_with id)"

definition ReadEncodedValue :: "'a::len itself \<Rightarrow> u8 \<Rightarrow> (dwarf_memory, u64) prog" where
  "ReadEncodedValue ty encoding =
     (if encoding = DW_EH_PE_omit then ret 0
      else if encoding = DW_EH_PE_aligned then
        bnd (gets cur_offset) (\<lambda>off.
        let pad = sizeof ty - 1 in
        bnd (modify (\<lambda>m. m\<lparr>cur_offset := off + of_nat pad\<rparr>)) (\<lambda>_.
        if unat off + pad \<ge> 2 ^ 64 then fail_with id
        else
          bnd (modify (\<lambda>m. m\<lparr>cur_offset := cur_offset m AND - of_nat (sizeof ty)\<rparr>)) (\<lambda>_.
          ReadUnsigned (sizeof ty))))
      else
        bnd (ReadEncodedData ty (encoding AND 0x0f)) (\<lambda>value.
        AdjustEncodedValue (encoding AND 0x70) value))"

section \<open>Only the cursor moves\<close>

definition moves_cursor :: "(dwarf_memory, 'a) prog \<Rightarrow> bool" where
  "moves_cursor p \<longleftrightarrow> (\<forall>m. \<exists>off. snd (p m) = m\<lparr>cur_offset := off\<rparr>)"

lemma moves_cursorD: "moves_cursor p \<Longrightarrow> p m = (r, m') \<Longrightarrow> \<exists>off. m' = m\<lparr>cur_offset := off\<rparr>"
  by (metis moves_cursor_def snd_conv)

lemma moves_cursor_id: "(\<And>m. snd (p m) = m) \<Longrightarrow> moves_cursor p"
  unfolding moves_cursor_def by (metis dwarf_memory.surjective dwarf_memory.update_convs(2))

lemma moves_cursor_basic [prog_frame]:
  "moves_cursor (ret x)" "moves_cursor (crash c)" "moves_cursor (gets f)" "moves_cursor (fail_with id)"
  by (rule moves_cursor_id, simp)+

lemma moves_cursor_modify [prog_frame]: "moves_cursor (modify (\<lambda>m. m\<lparr>cur_offset := f m\<rparr>))"
  by (auto simp: moves_cursor_def)

lemma moves_cursor_if [prog_frame]:
  "moves_cursor p \<Longrightarrow> moves_cursor q \<Longrightarrow> moves_cursor (if b then p else q)"
  by simp

lemma moves_cursor_bnd [prog_frame]:
  assumes "moves_cursor p" and "\<And>x. moves_cursor (f x)"
  shows "moves_cursor (bnd p f)"
  unfolding moves_cursor_def
proof
  fix m
  obtain off where off: "snd (p m) = m\<lparr>cur_offset := off\<rparr>"
    using assms(1) by (auto simp: moves_cursor_def)
  show "\<exists>off. snd (bnd p f m) = m\<lparr>cur_offset := off\<rparr>"
  proof (cases "fst (p m)")
    case (Ok x)
    obtain off' where "snd (f x (snd (p m))) = snd (p m)\<lparr>cur_offset := off'\<rparr>"
      using assms(2) by (auto simp: moves_cursor_def)
    with Ok off show ?thesis
      by (cases "p m") (auto simp: bnd_def)
  qed (use off in \<open>cases "p m"; auto simp: bnd_def\<close>)+
qed

lemma moves_cursor_ReadBytes [prog_frame]: "moves_cursor (ReadBytes n)"
  unfolding moves_cursor_def
proof
  fix m :: dwarf_memory
  have "\<exists>off. m = m\<lparr>cur_offset := off\<rparr>"
    by (rule exI [of _ "cur_offset m"]) simp
  then show "\<exists>off. snd (ReadBytes n m) = m\<lparr>cur_offset := off\<rparr>"
    by (auto simp: ReadBytes_def split: option.splits)
qed

lemma moves_cursor_loop [prog_frame]: "moves_cursor (ReadLEB128_loop v s)"
proof (induction v s rule: ReadLEB128_loop.induct)
  case (1 v s)
  have "moves_cursor (ReadLEB128_loop (v + push_bit s (ucast (hd bs AND 0x7f))) (s + 7))"
    if "\<not> 64 \<le> s" "hd bs AND 0x80 \<noteq> 0" for bs :: "u8 list"
    by (rule 1 [OF that(1) _ _ that(2)]) simp_all
  then show ?case
    by (subst ReadLEB128_loop.simps)
      (auto simp: Let_def intro!: moves_cursor_bnd moves_cursor_ReadBytes moves_cursor_basic)
qed

lemma moves_cursor_reads [prog_frame]:
  "moves_cursor (ReadUnsigned n)" "moves_cursor (ReadSigned n)" "moves_cursor ReadULEB128"
  "moves_cursor ReadSLEB128"
  unfolding ReadUnsigned_def ReadSigned_def ReadULEB128_def ReadSLEB128_def
  by (auto intro!: prog_frame split: prod.splits)

lemma moves_cursor_encoded [prog_frame]: "moves_cursor (ReadEncodedValue ty e)"
proof -
  have "moves_cursor (AdjustEncodedValue e v)" for e v
    by (rule moves_cursor_id) (simp add: AdjustEncodedValue_def Let_def)
  then show ?thesis
    unfolding ReadEncodedValue_def ReadEncodedData_def Let_def
    by (intro prog_frame)
qed

section \<open>LEB128\<close>

text \<open>The byte lists the format allows, the number the seven bit groups denote, and the encoders.\<close>

fun leb_wf :: "u8 list \<Rightarrow> bool" where
  "leb_wf [] = False"
| "leb_wf [b] = (b AND 0x80 = 0)"
| "leb_wf (b # bs) = (b AND 0x80 \<noteq> 0 \<and> leb_wf bs)"

fun leb_nat :: "u8 list \<Rightarrow> nat" where
  "leb_nat [] = 0"
| "leb_nat (b # bs) = unat (b AND 0x7f) + 128 * leb_nat bs"

fun uleb128 :: "nat \<Rightarrow> u8 list" where
  "uleb128 n = (if n < 128 then [of_nat n] else of_nat (n mod 128 + 128) # uleb128 (n div 128))"

function sleb128 :: "int \<Rightarrow> u8 list" where
  "sleb128 v =
     (if -64 \<le> v \<and> v < 64 then [of_int (v mod 128)]
      else of_int (v mod 128 + 128) # sleb128 (v div 128))"
  by pat_completeness auto
termination
  by (relation "measure (\<lambda>v. nat \<bar>v\<bar>)") auto

declare uleb128.simps [simp del] sleb128.simps [simp del]

text \<open>The bytes \<open>bs\<close> can be read one after the other at an address.\<close>

definition holds_bytes :: "memory \<Rightarrow> u64 \<Rightarrow> u8 list \<Rightarrow> bool" where
  "holds_bytes mem a bs \<longleftrightarrow> (\<forall>i<length bs. ReadFully mem (a + of_nat i) 1 = Some [bs ! i])"

lemma holds_bytes_Cons:
  "holds_bytes mem a (b # bs) \<longleftrightarrow> ReadFully mem a 1 = Some [b] \<and> holds_bytes mem (a + 1) bs"
  by (auto simp: holds_bytes_def All_less_Suc2 add.assoc)

lemma ReadBytes_1: "ReadFully (memory_of m) (cur_offset m) 1 = Some [b] \<Longrightarrow>
  ReadBytes 1 m = (Ok [b], m\<lparr>cur_offset := cur_offset m + 1\<rparr>)"
  by (simp add: ReadBytes_def)

lemma ReadLEB128_loop_step:
  assumes "ReadFully (memory_of m) (cur_offset m) 1 = Some [b]"
  shows "ReadLEB128_loop v shift m =
    (let m' = m\<lparr>cur_offset := cur_offset m + 1\<rparr>; v' = v + push_bit shift (ucast (b AND 0x7f)) in
     if shift \<ge> 64 then (Crash Undefined, m')
     else if b AND 0x80 \<noteq> 0 then ReadLEB128_loop v' (shift + 7) m'
     else (Ok (v', shift + 7, b), m'))"
  by (subst ReadLEB128_loop.simps) (simp add: bnd_def ReadBytes_1 [OF assms] Let_def del: One_nat_def)

lemma ReadLEB128_loop_Ok:
  assumes "leb_wf bs" and "holds_bytes (memory_of m) (cur_offset m) bs"
    and "shift + 7 * (length bs - 1) < 64"
  shows "ReadLEB128_loop v shift m =
    (Ok (v + push_bit shift (of_nat (leb_nat bs)), shift + 7 * length bs, last bs),
     m\<lparr>cur_offset := cur_offset m + of_nat (length bs)\<rparr>)"
  using assms
proof (induction bs arbitrary: v shift m rule: leb_wf.induct)
  case (2 b)
  then have "ReadFully (memory_of m) (cur_offset m) 1 = Some [b]"
    by (simp add: holds_bytes_Cons)
  from ReadLEB128_loop_step [OF this, of v shift] 2 show ?case
    by (simp add: of_nat_unat)
next
  case (3 b b' bs)
  then have read: "ReadFully (memory_of m) (cur_offset m) 1 = Some [b]"
      "holds_bytes (memory_of m) (cur_offset m + 1) (b' # bs)"
    by (simp_all add: holds_bytes_Cons)
  let ?v = "v + push_bit shift (ucast (b AND 0x7f))"
  let ?m = "m\<lparr>cur_offset := cur_offset m + 1\<rparr>"
  have "ReadLEB128_loop v shift m = ReadLEB128_loop ?v (shift + 7) ?m"
    using 3 ReadLEB128_loop_step [OF read(1), of v shift] by simp
  also have "\<dots> = (Ok (?v + push_bit (shift + 7) (of_nat (leb_nat (b' # bs))),
      shift + 7 + 7 * length (b' # bs), last (b' # bs)),
      ?m\<lparr>cur_offset := cur_offset ?m + of_nat (length (b' # bs))\<rparr>)"
    using 3 read by (intro 3(1)) auto
  finally show ?case
    by (simp add: of_nat_unat push_bit_eq_mult power_add algebra_simps)
qed simp

lemma ReadLEB128_loop_Undefined:
  assumes "leb_wf bs" and "holds_bytes (memory_of m) (cur_offset m) bs"
    and "shift + 7 * (length bs - 1) \<ge> 64"
  shows "fst (ReadLEB128_loop v shift m) = Crash Undefined"
  using assms
proof (induction bs arbitrary: v shift m rule: leb_wf.induct)
  case (2 b)
  then have "ReadFully (memory_of m) (cur_offset m) 1 = Some [b]"
    by (simp add: holds_bytes_Cons)
  from ReadLEB128_loop_step [OF this, of v shift] 2 show ?case
    by simp
next
  case (3 b b' bs)
  then have read: "ReadFully (memory_of m) (cur_offset m) 1 = Some [b]"
      "holds_bytes (memory_of m) (cur_offset m + 1) (b' # bs)"
    by (simp_all add: holds_bytes_Cons)
  with 3 ReadLEB128_loop_step [OF read(1), of v shift] show ?case
    by (simp add: Let_def)
qed simp

subsection \<open>Unsigned numbers\<close>

lemma byte_and_7f: "unat (b AND 0x7f :: u8) = unat b mod 128"
proof -
  have "(0x7f :: u8) = mask 7"
    by (simp add: mask_eq_exp_minus_1)
  then show ?thesis
    by (simp only: unat_and_mask) simp
qed

lemma byte_and_80: "(b AND 0x80 :: u8) = 0 \<longleftrightarrow> unat b < 128"
proof -
  have "(0x80 :: u8) = 2 ^ 7"
    by simp
  then have "b AND 0x80 = 0 \<longleftrightarrow> \<not> bit b 7"
    by (metis and_exp_eq_0_iff_not_bit)
  also have "\<dots> \<longleftrightarrow> even (unat b div 128)"
  proof -
    have "bit b 7 \<longleftrightarrow> bit (unat b) 7"
      by (simp add: bit_unsigned_iff)
    then show ?thesis
      by (simp add: bit_iff_odd)
  qed
  also have "\<dots> \<longleftrightarrow> unat b < 128"
  proof -
    have "unat b div 128 < 2"
      using unsigned_less [of b, where 'a = nat] by (simp add: less_mult_imp_div_less)
    then have "even (unat b div 128) \<longleftrightarrow> unat b div 128 = 0"
      by (auto simp: less_2_cases_iff)
    then show ?thesis
      by (simp add: div_eq_0_iff)
  qed
  finally show ?thesis .
qed

lemma leb_wf_Cons: "leb_wf (b # bs) \<longleftrightarrow> (if bs = [] then unat b < 128 else 128 \<le> unat b \<and> leb_wf bs)"
  by (cases bs) (auto simp: byte_and_80)

lemma unat_byte: "n < 256 \<Longrightarrow> unat (of_nat n :: u8) = n"
  by (simp add: unat_of_nat)

lemma uleb128_nonempty [simp]: "uleb128 n \<noteq> []"
  by (subst uleb128.simps) simp

lemma uleb128_wf: "leb_wf (uleb128 n) \<and> leb_nat (uleb128 n) = n"
proof (induction n rule: uleb128.induct)
  case (1 n)
  have "unat (of_nat (n mod 128 + 128) :: u8) = n mod 128 + 128"
    by (rule unat_byte) (simp add: trans_less_add2)
  with 1 show ?case
    by (subst (1 2) uleb128.simps) (auto simp: leb_wf_Cons byte_and_7f unat_byte simp del: of_nat_add)
qed

lemma length_uleb128: "n < 128 ^ Suc k \<Longrightarrow> length (uleb128 n) \<le> Suc k"
proof (induction k arbitrary: n)
  case (Suc k)
  have "n div 128 < 128 ^ Suc k"
    using Suc.prems by (simp add: less_mult_imp_div_less mult.commute)
  with Suc.IH [of "n div 128"] show ?case
    by (subst uleb128.simps) simp
qed (simp add: uleb128.simps)

lemma ReadULEB128_of_nat:
  assumes "holds_bytes (memory_of m) (cur_offset m) (uleb128 n)" and "n < 2 ^ 64"
  shows "ReadULEB128 m = (Ok (of_nat n), m\<lparr>cur_offset := cur_offset m + of_nat (length (uleb128 n))\<rparr>)"
proof -
  have "n < 128 ^ Suc 9"
    using assms(2) by simp
  then have "0 + 7 * (length (uleb128 n) - 1) < 64"
    using length_uleb128 [of n 9] by linarith
  from ReadLEB128_loop_Ok [OF _ assms(1) this] uleb128_wf [of n] show ?thesis
    by (simp add: ReadULEB128_def bnd_def)
qed

text \<open>
  C29. \<^verbatim>\<open>ReadULEB128\<close> inverts the unsigned LEB128 encoding of every 64-bit number and leaves the cursor
  behind the encoding.
\<close>

theorem ReadULEB128_roundtrip:
  assumes "holds_bytes (memory_of m) (cur_offset m) (uleb128 (unat (v :: u64)))"
  shows "ReadULEB128 m =
    (Ok v, m\<lparr>cur_offset := cur_offset m + of_nat (length (uleb128 (unat v)))\<rparr>)"
  using ReadULEB128_of_nat [OF assms] unat_u64_less [of v] by simp

theorem ReadULEB128_roundtrip_witness:
  "fst (ReadULEB128 (DwarfMemory (MemoryBuffer_Read [0xe5, 0x8e, 0x26]))) = Ok 624485"
proof -
  have enc: "uleb128 624485 = [0xe5, 0x8e, 0x26]"
    by (simp add: uleb128.simps)
  have "holds_bytes (MemoryBuffer_Read [0xe5, 0x8e, 0x26]) 0 [0xe5, 0x8e, 0x26]"
    by (simp add: holds_bytes_Cons ReadFully_def MemoryBuffer_Read_def) (simp add: holds_bytes_def)
  then show ?thesis
    using ReadULEB128_roundtrip [of "DwarfMemory (MemoryBuffer_Read [0xe5, 0x8e, 0x26])" 624485]
    by (simp add: DwarfMemory_def enc)
qed

subsection \<open>Signed numbers\<close>

lemma byte_and_40: "(b AND 0x40 :: u8) = 0 \<longleftrightarrow> even (unat b div 64)"
proof -
  have "(0x40 :: u8) = 2 ^ 6"
    by simp
  then have "b AND 0x40 = 0 \<longleftrightarrow> \<not> bit b 6"
    by (metis and_exp_eq_0_iff_not_bit)
  moreover have "bit b 6 \<longleftrightarrow> bit (unat b) 6"
    by (simp add: bit_unsigned_iff)
  ultimately show ?thesis
    by (simp add: bit_iff_odd)
qed

lemma unat_byte_int: "0 \<le> i \<Longrightarrow> i < 256 \<Longrightarrow> unat (of_int i :: u8) = nat i"
  by (simp add: unsigned_of_int take_bit_int_eq_self)

lemma sleb128_rec:
  "\<not> (-64 \<le> v \<and> v < 64) \<Longrightarrow> sleb128 v = of_int (v mod 128 + 128) # sleb128 (v div 128)"
  by (subst sleb128.simps) (rule if_not_P)

lemma sleb128_nonempty [simp]: "sleb128 v \<noteq> []"
  by (subst sleb128.simps) simp

lemma sleb128_wf: "leb_wf (sleb128 v)"
proof (induction v rule: sleb128.induct)
  case (1 v)
  have "unat (of_int (v mod 128 + 128) :: u8) = nat (v mod 128 + 128)"
    "unat (of_int (v mod 128) :: u8) = nat (v mod 128)"
    using pos_mod_bound [of 128 v] pos_mod_sign [of 128 v] by (intro unat_byte_int; linarith)+
  with 1 show ?case
    by (subst sleb128.simps) (auto simp: leb_wf_Cons nat_less_iff simp del: of_int_add)
qed

lemma sleb128_sign: "last (sleb128 v) AND 0x40 \<noteq> 0 \<longleftrightarrow> v < 0"
proof (induction v rule: sleb128.induct)
  case (1 v)
  show ?case
  proof (cases "-64 \<le> v \<and> v < 64")
    case True
    have b: "unat (of_int (v mod 128) :: u8) = nat (v mod 128)"
      by (intro unat_byte_int) (auto intro: order_less_le_trans [OF pos_mod_bound])
    show ?thesis
    proof (cases "v < 0")
      case neg: True
      have "(v + 128) mod 128 = v + 128"
        using True neg by (intro mod_pos_pos_trivial) auto
      then have "v mod 128 = v + 128"
        by simp
      then have "nat (v mod 128) div 64 = 1"
        using True neg by (simp add: div_nat_eqI nat_add_distrib)
      with b True neg show ?thesis
        by (subst sleb128.simps) (simp add: byte_and_40)
    next
      case False
      then have "nat (v mod 128) div 64 = 0"
        using True by (simp add: nat_less_iff)
      with b True False show ?thesis
        by (subst sleb128.simps) (simp add: byte_and_40)
    qed
  next
    case False
    with 1 show ?thesis
      by (subst sleb128.simps) (auto simp: pos_imp_zdiv_neg_iff)
  qed
qed

lemma sleb128_value: "int (leb_nat (sleb128 v)) = v mod 128 ^ length (sleb128 v)"
proof (induction v rule: sleb128.induct)
  case (1 v)
  have b: "int (unat (of_int (v mod 128) :: u8)) = v mod 128"
    by (subst unat_byte_int) (auto intro: order_less_le_trans [OF pos_mod_bound])
  have c: "int (unat (of_int (v mod 128 + 128) :: u8)) = v mod 128 + 128"
    using pos_mod_bound [of 128 v] pos_mod_sign [of 128 v] by (subst unat_byte_int; linarith)
  show ?case
  proof (cases "-64 \<le> v \<and> v < 64")
    case True
    then show ?thesis
      using b by (subst (1 2) sleb128.simps) (simp add: byte_and_7f zmod_int)
  next
    case False
    have "v mod 128 + 128 * (v div 128 mod 128 ^ length (sleb128 (v div 128))) =
        v mod 128 ^ Suc (length (sleb128 (v div 128)))"
      by (simp add: zmod_zmult2_eq add.commute)
    with 1 [OF False] c show ?thesis
      by (simp add: sleb128_rec [OF False] byte_and_7f zmod_int del: of_int_add)
  qed
qed

lemma sleb128_range:
  "- (64 * 128 ^ (length (sleb128 v) - 1)) \<le> v \<and> v < 64 * 128 ^ (length (sleb128 v) - 1)"
proof (induction v rule: sleb128.induct)
  case (1 v)
  show ?case
  proof (cases "-64 \<le> v \<and> v < 64")
    case True
    then show ?thesis
      by (subst (1 2) sleb128.simps) simp
  next
    case False
    obtain k where k: "length (sleb128 (v div 128)) = Suc k"
      by (cases "sleb128 (v div 128)") simp_all
    have "- (64 * 128 ^ k) \<le> v div 128" "v div 128 < 64 * 128 ^ k"
      using 1 [OF False] k by simp_all
    then have "- (64 * 128 ^ Suc k) \<le> v" "v < 64 * 128 ^ Suc k"
      by simp_all
    then show ?thesis
      using k by (simp add: sleb128_rec [OF False])
  qed
qed

lemma length_sleb128: "- (64 * 128 ^ k) \<le> v \<Longrightarrow> v < 64 * 128 ^ k \<Longrightarrow> length (sleb128 v) \<le> Suc k"
proof (induction k arbitrary: v)
  case (Suc k)
  define P :: int where "P = 128 ^ k"
  have "- (64 * P) \<le> v div 128" "v div 128 < 64 * P"
    using Suc.prems unfolding power_Suc P_def [symmetric] by linarith+
  then have "length (sleb128 (v div 128)) \<le> Suc k"
    by (intro Suc.IH) (simp_all add: P_def)
  then show ?case
    by (subst sleb128.simps) simp
qed (simp add: sleb128.simps)

lemma or_high_ones:
  fixes a :: "'a::len word"
  assumes "take_bit n a = a"
  shows "a OR push_bit n (-1) = a - 2 ^ n"
proof -
  have "a OR push_bit n (-1) = a + push_bit n (-1)"
  proof (rule disjunctive_add [symmetric])
    fix i
    show "\<not> bit a i \<or> \<not> bit (push_bit n (-1) :: 'a word) i"
      using assms by (metis bit_push_bit_iff bit_take_bit_iff not_le)
  qed
  then show ?thesis
    by (simp add: push_bit_eq_mult)
qed

lemma sleb128_word:
  fixes v :: int
  defines "n \<equiv> 7 * length (sleb128 v)"
  shows "(if v < 0 then of_nat (leb_nat (sleb128 v)) OR push_bit n (-1)
          else of_nat (leb_nat (sleb128 v))) = (of_int v :: u64)"
proof -
  let ?L = "length (sleb128 v)" and ?u = "leb_nat (sleb128 v)"
  obtain k where k: "?L = Suc k"
    by (cases "sleb128 v") simp_all
  have P: "(128 :: int) ^ ?L = 2 ^ n"
    by (simp add: n_def power_mult)
  have u: "int ?u = v mod 2 ^ n"
    by (simp only: sleb128_value P)
  have range: "- (2 ^ n) \<le> v" "v < 2 ^ n"
    using sleb128_range [of v] unfolding P [symmetric] k by simp_all
  show ?thesis
  proof (cases "v < 0")
    case True
    have "(v + 2 ^ n) mod 2 ^ n = v + 2 ^ n"
      using True range by (intro mod_pos_pos_trivial) auto
    then have u': "int ?u = v + 2 ^ n"
      using u by simp
    then have "?u < 2 ^ n"
      using True by (simp flip: of_nat_less_iff [where 'a = int])
    then have "take_bit n (of_nat ?u) = (of_nat ?u :: u64)"
      by (simp add: take_bit_of_nat take_bit_nat_eq_self)
    from or_high_ones [OF this] have "of_nat ?u OR push_bit n (-1) = (of_nat ?u :: u64) - 2 ^ n" .
    also have "\<dots> = of_int (int ?u - 2 ^ n)"
      by simp
    also have "\<dots> = of_int v"
      by (simp add: u')
    finally show ?thesis
      using True by simp
  next
    case False
    then have "int ?u = v"
      using u range by simp
    then show ?thesis
      using False by (metis of_int_of_nat_eq)
  qed
qed

lemma ReadSLEB128_eq:
  assumes "holds_bytes (memory_of m) (cur_offset m) (sleb128 v)" and "length (sleb128 v) \<le> 10"
  shows "ReadSLEB128 m =
    (if v < 0 \<and> length (sleb128 v) = 10 then Crash Undefined else Ok (of_int v),
     m\<lparr>cur_offset := cur_offset m + of_nat (length (sleb128 v))\<rparr>)"
proof -
  have "0 + 7 * (length (sleb128 v) - 1) < 64"
    using assms(2) by simp
  from ReadLEB128_loop_Ok [OF sleb128_wf assms(1) this]
  have loop: "ReadLEB128_loop 0 0 m =
      (Ok (of_nat (leb_nat (sleb128 v)), 7 * length (sleb128 v), last (sleb128 v)),
       m\<lparr>cur_offset := cur_offset m + of_nat (length (sleb128 v))\<rparr>)"
    by simp
  have "7 * length (sleb128 v) \<ge> 64 \<longleftrightarrow> length (sleb128 v) = 10"
    using assms(2) by linarith
  then show ?thesis
    using sleb128_word [of v] sleb128_sign [of v]
    by (simp add: ReadSLEB128_def bnd_def loop split: if_splits)
qed

lemma length_sleb128_10: "- (2 ^ 63) \<le> v \<Longrightarrow> v < 2 ^ 63 \<Longrightarrow> length (sleb128 v) \<le> 10"
  using length_sleb128 [of 9 v] by simp

lemma length_sleb128_neg:
  assumes "v < 0" and "- (2 ^ 63) \<le> v"
  shows "length (sleb128 v) = 10 \<longleftrightarrow> v < - (2 ^ 62)"
proof
  assume "length (sleb128 v) = 10"
  then show "v < - (2 ^ 62)"
    using length_sleb128 [of 8 v] assms by fastforce
next
  assume lt: "v < - (2 ^ 62)"
  have "\<not> length (sleb128 v) \<le> 9"
  proof
    assume "length (sleb128 v) \<le> 9"
    then have "(128 :: int) ^ (length (sleb128 v) - 1) \<le> 128 ^ 8"
      by (intro power_increasing) auto
    then show False
      using sleb128_range [of v] lt by simp
  qed
  then show "length (sleb128 v) = 10"
    using length_sleb128_10 [of v] assms by simp
qed

text \<open>
  C30. \<^verbatim>\<open>ReadSLEB128\<close> inverts the signed LEB128 encoding of the 64-bit numbers from \<open>-2\<^sup>6\<^sup>2\<close> on. The
  encodings of the numbers below that bound have ten bytes, and on them the sign extension shifts
  a 64-bit value by 70, which is undefined.
\<close>

theorem ReadSLEB128_roundtrip:
  assumes "- (2 ^ 63) \<le> v" and "v < 2 ^ 63"
    and "holds_bytes (memory_of m) (cur_offset m) (sleb128 v)"
  shows "ReadSLEB128 m =
    (if - (2 ^ 62) \<le> v then Ok (of_int v) else Crash Undefined,
     m\<lparr>cur_offset := cur_offset m + of_nat (length (sleb128 v))\<rparr>)"
  using ReadSLEB128_eq [OF assms(3) length_sleb128_10] assms length_sleb128_neg [of v] by auto

theorem ReadSLEB128_roundtrip_witness:
  "fst (ReadSLEB128 (DwarfMemory (MemoryBuffer_Read [0xc0, 0xbb, 0x78]))) = Ok (- 123456)"
proof -
  have enc: "sleb128 (- 123456) = [0xc0, 0xbb, 0x78]"
    by (simp add: sleb128.simps)
  have "holds_bytes (MemoryBuffer_Read [0xc0, 0xbb, 0x78]) 0 [0xc0, 0xbb, 0x78]"
    by (simp add: holds_bytes_Cons ReadFully_def MemoryBuffer_Read_def) (simp add: holds_bytes_def)
  then show ?thesis
    using ReadSLEB128_roundtrip [of "- 123456" "DwarfMemory (MemoryBuffer_Read [0xc0, 0xbb, 0x78])"]
    by (simp add: DwarfMemory_def enc)
qed

section \<open>Encoded values\<close>

lemma ReadBytes_OkD: "ReadBytes n m = (Ok bs, m') \<Longrightarrow>
  m' = m\<lparr>cur_offset := cur_offset m + of_nat n\<rparr> \<and> length bs = n \<and>
  ReadFully (memory_of m) (cur_offset m) n = Some bs"
  by (auto simp: ReadBytes_def ReadFully_def Let_def split: option.splits if_splits)

lemma ReadBytes_no_Crash [simp]: "ReadBytes n m \<noteq> (Crash c, m')"
  by (simp add: ReadBytes_def split: option.splits)

lemma ReadUnsigned_OkD: "ReadUnsigned n m = (Ok v, m') \<Longrightarrow> m' = m\<lparr>cur_offset := cur_offset m + of_nat n\<rparr>"
  by (auto simp: ReadUnsigned_def bnd_Ok_iff dest!: ReadBytes_OkD)

lemma ReadSigned_OkD: "ReadSigned n m = (Ok v, m') \<Longrightarrow> m' = m\<lparr>cur_offset := cur_offset m + of_nat n\<rparr>"
  by (auto simp: ReadSigned_def bnd_Ok_iff dest!: ReadBytes_OkD)

lemma AdjustEncodedValue_state: "AdjustEncodedValue e v m = (r, m') \<Longrightarrow> m' = m"
  by (auto simp: AdjustEncodedValue_def Let_def split: if_splits)

text \<open>
  The cursor agrees with \<^verbatim>\<open>GetEncodedSize\<close>: a successful \<^verbatim>\<open>ReadEncodedValue\<close> of an encoding whose
  size is known in advance consumes exactly that many bytes. This is what makes the entries of an
  \<^verbatim>\<open>.eh_frame_hdr\<close> table addressable by index.
\<close>

lemma ReadEncodedValue_size:
  fixes ty :: "'a::len itself"
  assumes "ReadEncodedValue ty encoding m = (Ok v, m')"
    and "GetEncodedSize ty encoding \<noteq> 0"
    and "encoding \<noteq> DW_EH_PE_omit" and "encoding \<noteq> DW_EH_PE_aligned"
  shows "m' = m\<lparr>cur_offset := cur_offset m + of_nat (GetEncodedSize ty encoding)\<rparr>"
proof -
  obtain w where read: "ReadEncodedData ty (encoding AND 0x0f) m = (Ok w, m')"
    using assms by (auto simp: ReadEncodedValue_def bnd_Ok_iff dest: AdjustEncodedValue_state)
  show ?thesis
    using read assms(2)
    by (auto simp: ReadEncodedData_def GetEncodedSize_def encoding_defs Let_def
        dest: ReadUnsigned_OkD ReadSigned_OkD split: if_splits)
qed

lemma ReadEncodedValue_size_example:
  "cur_offset (snd (ReadEncodedValue TYPE(64) DW_EH_PE_udata4
     (DwarfMemory (MemoryBuffer_Read [1, 2, 3, 4, 5])))) = 4"
proof -
  have read: "ReadEncodedValue TYPE(64) DW_EH_PE_udata4 (DwarfMemory (MemoryBuffer_Read [1, 2, 3, 4, 5])) =
      (Ok 0x04030201, (DwarfMemory (MemoryBuffer_Read [1, 2, 3, 4, 5]))\<lparr>cur_offset := 4\<rparr>)"
    by (simp add: ReadEncodedValue_def encoding_defs ReadEncodedData_def ReadUnsigned_def ReadBytes_def
        DwarfMemory_def ReadFully_def MemoryBuffer_Read_def bnd_def AdjustEncodedValue_def le_word_def)
  have "snd (ReadEncodedValue TYPE(64) DW_EH_PE_udata4 (DwarfMemory (MemoryBuffer_Read [1, 2, 3, 4, 5]))) =
      (DwarfMemory (MemoryBuffer_Read [1, 2, 3, 4, 5]))\<lparr>cur_offset :=
        cur_offset (DwarfMemory (MemoryBuffer_Read [1, 2, 3, 4, 5]))
        + of_nat (GetEncodedSize TYPE(64) DW_EH_PE_udata4)\<rparr>"
    unfolding read snd_conv
    by (rule ReadEncodedValue_size [OF read]) (simp_all add: GetEncodedSize_def encoding_defs)
  then show ?thesis
    by (simp add: GetEncodedSize_def encoding_defs DwarfMemory_def)
qed

text \<open>
  Encoded values never trip the \<^verbatim>\<open>CHECK\<close> of \<^verbatim>\<open>AdjustEncodedValue\<close>; the only abnormal end is the
  undefined shift of an overlong LEB128 number.
\<close>

lemma ReadLEB128_loop_Crash: "ReadLEB128_loop v s m = (Crash c, m') \<Longrightarrow> c = Undefined"
proof (induction v s arbitrary: m rule: ReadLEB128_loop.induct)
  case (1 v s)
  then show ?case
    by (subst (asm) (2) ReadLEB128_loop.simps)
      (auto simp: bnd_Crash_iff Let_def split: if_splits)
qed

lemma ReadULEB128_Crash: "ReadULEB128 m = (Crash c, m') \<Longrightarrow> c = Undefined"
  by (auto simp: ReadULEB128_def bnd_Crash_iff dest: ReadLEB128_loop_Crash split: prod.splits)

lemma ReadSLEB128_Crash: "ReadSLEB128 m = (Crash c, m') \<Longrightarrow> c = Undefined"
  by (auto simp: ReadSLEB128_def bnd_Crash_iff dest: ReadLEB128_loop_Crash split: prod.splits if_splits)

lemma and_70_and_0f: "((e AND 0x70) AND 0x0f :: u8) = 0"
  by (simp add: and.assoc)

lemma AdjustEncodedValue_no_Crash: "AdjustEncodedValue (e AND 0x70) v m \<noteq> (Crash c, m')"
  unfolding AdjustEncodedValue_def Let_def by (simp add: and_70_and_0f)

lemma ReadEncodedValue_Crash:
  "ReadEncodedValue ty e m = (Crash c, m') \<Longrightarrow>
     c = Undefined \<and> e AND 0x0f \<in> {DW_EH_PE_uleb128, DW_EH_PE_sleb128}"
  by (auto simp: ReadEncodedValue_def ReadEncodedData_def bnd_Crash_iff Let_def ReadUnsigned_def
      ReadSigned_def AdjustEncodedValue_no_Crash dest: ReadULEB128_Crash ReadSLEB128_Crash
      split: if_splits)

end
