(* ===== verification/Dwarf_Structs.thy ===== *)
theory Dwarf_Structs
  imports Unwind_Prelude
begin

text \<open>
  The data types the DWARF components exchange: error codes (\<^verbatim>\<open>DwarfError.h\<close>), common information
  and frame description entries (\<^verbatim>\<open>DwarfStructs.h\<close>), register locations (\<^verbatim>\<open>DwarfLocation.h\<close>) and
  the view on a register file that remembers overwritten values (\<^verbatim>\<open>RegsInfo.h\<close>).

  A pointer to an entry of the section's \<^verbatim>\<open>cie_entries_\<close> is the key of that entry, \<open>None\<close> standing
  for \<^verbatim>\<open>nullptr\<close>.
\<close>

section \<open>Errors\<close>

datatype DwarfErrorCode =
    DWARF_ERROR_NONE
  | DWARF_ERROR_MEMORY_INVALID
  | DWARF_ERROR_ILLEGAL_VALUE
  | DWARF_ERROR_ILLEGAL_STATE
  | DWARF_ERROR_STACK_INDEX_NOT_VALID
  | DWARF_ERROR_NOT_IMPLEMENTED
  | DWARF_ERROR_TOO_MANY_ITERATIONS
  | DWARF_ERROR_CFA_NOT_DEFINED
  | DWARF_ERROR_UNSUPPORTED_VERSION
  | DWARF_ERROR_NO_FDES

record DwarfErrorData =
  code :: DwarfErrorCode
  address :: u64

section \<open>Entries\<close>

record DwarfCie =
  version :: u8
  fde_address_encoding :: u8
  lsda_encoding :: u8
  segment_size :: u8
  augmentation_string :: "u8 list"
  personality_handler :: u64
  cie_cfa_instructions_offset :: u64
  cie_cfa_instructions_end :: u64
  code_alignment_factor :: u64
  data_alignment_factor :: u64
  return_address_register :: u64

definition DwarfCie_default :: DwarfCie where
  "DwarfCie_default =
     \<lparr>version = 0, fde_address_encoding = 0, lsda_encoding = 0, segment_size = 0,
      augmentation_string = [], personality_handler = 0, cie_cfa_instructions_offset = 0,
      cie_cfa_instructions_end = 0, code_alignment_factor = 0, data_alignment_factor = 0,
      return_address_register = 0\<rparr>"

record DwarfFde =
  cie_offset :: u64
  cfa_instructions_offset :: u64
  cfa_instructions_end :: u64
  fde_pc_start :: u64
  fde_pc_end :: u64
  lsda_address :: u64
  fde_cie :: "u64 option"

definition DwarfFde_default :: DwarfFde where
  "DwarfFde_default =
     \<lparr>cie_offset = 0, cfa_instructions_offset = 0, cfa_instructions_end = 0, fde_pc_start = 0,
      fde_pc_end = 0, lsda_address = 0, fde_cie = None\<rparr>"

definition CFA_REG :: u32 where
  "CFA_REG = 0xffff"

section \<open>Locations\<close>

datatype DwarfLocationEnum =
    DWARF_LOCATION_INVALID
  | DWARF_LOCATION_UNDEFINED
  | DWARF_LOCATION_OFFSET
  | DWARF_LOCATION_VAL_OFFSET
  | DWARF_LOCATION_REGISTER
  | DWARF_LOCATION_EXPRESSION
  | DWARF_LOCATION_VAL_EXPRESSION

text \<open>The two elements of \<^verbatim>\<open>values\<close> are separate fields.\<close>

record DwarfLocation =
  loc_type :: DwarfLocationEnum
  value0 :: u64
  value1 :: u64

text \<open>
  \<^verbatim>\<open>DwarfLocations\<close> derives from \<^verbatim>\<open>std::unordered_map\<close>: \<open>locs\<close> is the map, an association list
  whose order stands for the iteration order.
\<close>

record DwarfLocations =
  locs :: "(u32 \<times> DwarfLocation) list"
  loc_cie :: "u64 option"
  pc_start :: u64
  pc_end :: u64

definition DwarfLocations_default :: DwarfLocations where
  "DwarfLocations_default = \<lparr>locs = [], loc_cie = None, pc_start = 0, pc_end = 0\<rparr>"

section \<open>Registers being unwound\<close>

definition MAX_REGISTERS :: nat where
  "MAX_REGISTERS = 64"

text \<open>\<open>regs\<close> is the vector of the \<^verbatim>\<open>RegsImpl\<close> object, \<open>saved_regs\<close> the array next to the bit set.\<close>

record 'w regs_info =
  regs :: "'w list"
  saved_reg_map :: u64
  saved_regs :: "'w list"

definition RegsInfo :: "'a::len word list \<Rightarrow> 'a word list \<Rightarrow> 'a word regs_info" where
  "RegsInfo rs uninit = \<lparr>regs = rs, saved_reg_map = 0, saved_regs = uninit\<rparr>"

definition RegsInfo_Total :: "'a::len word regs_info \<Rightarrow> u16" where
  "RegsInfo_Total info = of_nat (length (regs info))"

definition RegsInfo_IsSaved :: "'a::len word regs_info \<Rightarrow> u32 \<Rightarrow> bool outcome" where
  "RegsInfo_IsSaved info reg =
     (if unat reg > MAX_REGISTERS then Crash CheckFailed
      else if unat reg \<ge> 64 then Crash Undefined
      else Ok (bit (saved_reg_map info) (unat reg)))"

definition RegsInfo_Get :: "'a::len word regs_info \<Rightarrow> u32 \<Rightarrow> 'a word outcome" where
  "RegsInfo_Get info reg =
     (case RegsInfo_IsSaved info reg of
        Ok saved \<Rightarrow>
          if saved then
            if unat reg < length (saved_regs info) then Ok (saved_regs info ! unat reg)
            else Crash Undefined
          else if unat reg < length (regs info) then Ok (regs info ! unat reg)
          else Crash Undefined
      | Fail \<Rightarrow> Fail
      | Crash c \<Rightarrow> Crash c)"

text \<open>\<^verbatim>\<open>Save\<close> also returns a pointer to the register, through which the caller then assigns.\<close>

definition RegsInfo_Save :: "u32 \<Rightarrow> ('a::len word regs_info, unit) prog" where
  "RegsInfo_Save reg = (\<lambda>info.
     if unat reg \<ge> MAX_REGISTERS then (Crash CheckFailed, info)
     else if unat reg \<ge> length (regs info) \<or> unat reg \<ge> length (saved_regs info)
     then (Crash Undefined, info)
     else (Ok (),
       info\<lparr>saved_reg_map := set_bit (unat reg) (saved_reg_map info),
            saved_regs := (saved_regs info)[unat reg := regs info ! unat reg]\<rparr>))"

definition RegsInfo_Assign :: "u32 \<Rightarrow> 'a::len word \<Rightarrow> 'a word regs_info \<Rightarrow> 'a word regs_info" where
  "RegsInfo_Assign reg v info = info\<lparr>regs := (regs info)[unat reg := v]\<rparr>"

section \<open>Lemmas on registers\<close>

text \<open>
  The invariant of a \<^verbatim>\<open>RegsInfo\<close> during an unwind step that started with the register values \<open>orig\<close>:
  unsaved registers still hold their value, saved ones have it in \<^verbatim>\<open>saved_regs\<close>.
\<close>

definition regs_info_inv :: "'a::len word list \<Rightarrow> 'a word regs_info \<Rightarrow> bool" where
  "regs_info_inv orig info \<longleftrightarrow>
     length (regs info) = length orig \<and> length orig \<le> MAX_REGISTERS \<and>
     length (saved_regs info) = MAX_REGISTERS \<and>
     (\<forall>r < length orig.
        (if bit (saved_reg_map info) r then saved_regs info ! r else regs info ! r) = orig ! r)"

lemma RegsInfo_inv: "length rs \<le> MAX_REGISTERS \<Longrightarrow> length u = MAX_REGISTERS \<Longrightarrow> regs_info_inv rs (RegsInfo rs u)"
  by (simp add: regs_info_inv_def RegsInfo_def)

lemma RegsInfo_Get_orig:
  "regs_info_inv orig info \<Longrightarrow> unat reg < length orig \<Longrightarrow> RegsInfo_Get info reg = Ok (orig ! unat reg)"
  by (auto simp: regs_info_inv_def RegsInfo_Get_def RegsInfo_IsSaved_def MAX_REGISTERS_def)

lemma RegsInfo_Save_assign:
  assumes "regs_info_inv orig info" and "unat reg < length orig" and "\<not> bit (saved_reg_map info) (unat reg)"
  shows "\<exists>info'. RegsInfo_Save reg info = (Ok (), info') \<and> regs_info_inv orig (RegsInfo_Assign reg v info') \<and>
    regs (RegsInfo_Assign reg v info') = (regs info)[unat reg := v]"
  using assms
  by (auto simp: regs_info_inv_def RegsInfo_Save_def RegsInfo_Assign_def MAX_REGISTERS_def
      bit_set_bit_iff nth_list_update)

end
