(* ===== verification/Dwarf_Op.thy ===== *)
theory Dwarf_Op
  imports Dwarf_Op_Table Dwarf_Structs
begin

text \<open>
  \<^verbatim>\<open>DwarfOp.cpp\<close> and \<^verbatim>\<open>DwarfOp.h\<close>: the evaluator of DWARF expressions. The template parameter
  \<^verbatim>\<open>AddressType\<close> is the word type of the stack. Every operation is a program on the record
  \<open>dwarf_op\<close>; \<open>op_memory\<close> is the object \<^verbatim>\<open>memory_\<close> points to, which the caller shares.
\<close>

section \<open>State\<close>

record 'w dwarf_op =
  op_memory :: dwarf_memory
  regular_memory :: memory
  regs_info :: "'w regs_info"
  dex_pc_set :: bool
  is_register :: bool
  last_error :: DwarfErrorData
  cur_op :: u8
  operands :: "'w list"
  stack :: "'w list"

text \<open>\<^verbatim>\<open>cur_op_\<close> is not initialised by the constructor.\<close>

definition DwarfOp :: "dwarf_memory \<Rightarrow> memory \<Rightarrow> 'a::len word regs_info \<Rightarrow> u8 \<Rightarrow> 'a word dwarf_op" where
  "DwarfOp mem regular info uninit =
     \<lparr>op_memory = mem, regular_memory = regular, regs_info = info, dex_pc_set = False,
      is_register = False, last_error = \<lparr>code = DWARF_ERROR_NONE, address = 0\<rparr>, cur_op = uninit,
      operands = [], stack = []\<rparr>"

type_synonym ('a, 'r) op_prog = "('a word dwarf_op, 'r) prog"

definition on_memory :: "(dwarf_memory, 'r) prog \<Rightarrow> ('a::len, 'r) op_prog" where
  "on_memory = on_member op_memory (\<lambda>m s. s\<lparr>op_memory := m\<rparr>)"

definition set_code :: "DwarfErrorCode \<Rightarrow> 'a::len word dwarf_op \<Rightarrow> 'a word dwarf_op" where
  "set_code c s = s\<lparr>last_error := (last_error s)\<lparr>code := c\<rparr>\<rparr>"

definition set_error :: "DwarfErrorCode \<Rightarrow> u64 \<Rightarrow> 'a::len word dwarf_op \<Rightarrow> 'a word dwarf_op" where
  "set_error c a s = s\<lparr>last_error := \<lparr>code = c, address = a\<rparr>\<rparr>"

definition StackAt :: "nat \<Rightarrow> ('a::len, 'a word) op_prog" where
  "StackAt i = (\<lambda>s. if i < length (stack s) then (Ok (stack s ! i), s) else (Crash Undefined, s))"

text \<open>Assignment to \<^verbatim>\<open>stack_[i]\<close>.\<close>

definition StackPut :: "nat \<Rightarrow> 'a::len word \<Rightarrow> ('a, unit) op_prog" where
  "StackPut i v = (\<lambda>s.
     if i < length (stack s) then (Ok (), s\<lparr>stack := (stack s)[i := v]\<rparr>) else (Crash Undefined, s))"

definition StackPop :: "('a::len, 'a word) op_prog" where
  "StackPop = (\<lambda>s.
     case stack s of [] \<Rightarrow> (Crash Undefined, s) | v # rest \<Rightarrow> (Ok v, s\<lparr>stack := rest\<rparr>))"

definition push_front :: "'a::len word \<Rightarrow> ('a, unit) op_prog" where
  "push_front v = modify (\<lambda>s. s\<lparr>stack := v # stack s\<rparr>)"

definition OperandAt :: "nat \<Rightarrow> ('a::len, 'a word) op_prog" where
  "OperandAt i = (\<lambda>s. if i < length (operands s) then (Ok (operands s ! i), s) else (Crash Undefined, s))"

definition bool_to_dwarf_bool :: "bool \<Rightarrow> 'a::len word" where
  "bool_to_dwarf_bool b = (if b then 1 else 0)"

section \<open>Operations\<close>

text \<open>The frame of the two-operand operations: pop the top and update the new top with it.\<close>

definition binary :: "('a word \<Rightarrow> 'a word \<Rightarrow> 'a word) \<Rightarrow> ('a::len, unit) op_prog" where
  "binary f = bnd StackPop (\<lambda>top. bnd (StackAt 0) (\<lambda>v. StackPut 0 (f v top)))"

definition min_signed :: "'a::len word" where
  "min_signed = push_bit (LENGTH('a) - 1) 1"

definition op_deref :: "('a::len, unit) op_prog" where
  "op_deref =
     bnd StackPop (\<lambda>addr.
     bnd (gets regular_memory) (\<lambda>mem.
     case read_word mem (ucast addr) of
       None \<Rightarrow> fail_with (set_error DWARF_ERROR_MEMORY_INVALID (ucast addr))
     | Some value \<Rightarrow> push_front value))"

definition op_deref_size :: "('a::len, unit) op_prog" where
  "op_deref_size =
     bnd (OperandAt 0) (\<lambda>bytes_to_read.
     if unat bytes_to_read > sizeof TYPE('a) \<or> bytes_to_read = 0
     then fail_with (set_code DWARF_ERROR_ILLEGAL_VALUE)
     else
       bnd StackPop (\<lambda>addr.
       bnd (gets regular_memory) (\<lambda>mem.
       case ReadFully mem (ucast addr) (unat bytes_to_read) of
         None \<Rightarrow> fail_with (set_error DWARF_ERROR_MEMORY_INVALID (ucast addr))
       | Some bs \<Rightarrow> push_front (le_word bs))))"

definition op_push :: "('a::len, unit) op_prog" where
  "op_push = modify (\<lambda>s. s\<lparr>stack := fold (#) (operands s) (stack s)\<rparr>)"

definition op_dup :: "('a::len, unit) op_prog" where
  "op_dup = bnd (StackAt 0) push_front"

definition op_drop :: "('a::len, unit) op_prog" where
  "op_drop = bnd StackPop (\<lambda>_. ret ())"

definition op_over :: "('a::len, unit) op_prog" where
  "op_over = bnd (StackAt 1) push_front"

definition op_pick :: "('a::len, unit) op_prog" where
  "op_pick =
     bnd (OperandAt 0) (\<lambda>index.
     bnd (gets stack) (\<lambda>st.
     if unat index > length st then fail_with (set_code DWARF_ERROR_STACK_INDEX_NOT_VALID)
     else bnd (StackAt (unat index)) push_front))"

definition op_swap :: "('a::len, unit) op_prog" where
  "op_swap =
     bnd (StackAt 0) (\<lambda>old_value.
     bnd (StackAt 1) (\<lambda>v1.
     bnd (StackPut 0 v1) (\<lambda>_.
     StackPut 1 old_value)))"

definition op_rot :: "('a::len, unit) op_prog" where
  "op_rot =
     bnd (StackAt 0) (\<lambda>top.
     bnd (StackAt 1) (\<lambda>v1.
     bnd (StackPut 0 v1) (\<lambda>_.
     bnd (StackAt 2) (\<lambda>v2.
     bnd (StackPut 1 v2) (\<lambda>_.
     StackPut 2 top)))))"

text \<open>Negating or dividing the least signed number overflows, which is undefined.\<close>

definition op_abs :: "('a::len, unit) op_prog" where
  "op_abs =
     bnd (StackAt 0) (\<lambda>v.
     if v = min_signed then crash Undefined
     else StackPut 0 (if sint v < 0 then - v else v))"

definition op_and :: "('a::len, unit) op_prog" where
  "op_and = binary (\<lambda>v top. v AND top)"

definition op_div :: "('a::len, unit) op_prog" where
  "op_div =
     bnd StackPop (\<lambda>top.
     if top = 0 then fail_with (set_code DWARF_ERROR_ILLEGAL_VALUE)
     else
       bnd (StackAt 0) (\<lambda>dividend.
       if dividend = min_signed \<and> top = -1 then crash Undefined
       else StackPut 0 (of_int (sgn (sint dividend) * sgn (sint top) * (\<bar>sint dividend\<bar> div \<bar>sint top\<bar>)))))"

definition op_minus :: "('a::len, unit) op_prog" where
  "op_minus = binary (\<lambda>v top. v - top)"

definition op_mod :: "('a::len, unit) op_prog" where
  "op_mod =
     bnd StackPop (\<lambda>top.
     if top = 0 then fail_with (set_code DWARF_ERROR_ILLEGAL_VALUE)
     else bnd (StackAt 0) (\<lambda>v. StackPut 0 (v mod top)))"

definition op_mul :: "('a::len, unit) op_prog" where
  "op_mul = binary (\<lambda>v top. v * top)"

definition op_neg :: "('a::len, unit) op_prog" where
  "op_neg = bnd (StackAt 0) (\<lambda>v. if v = min_signed then crash Undefined else StackPut 0 (- v))"

definition op_not :: "('a::len, unit) op_prog" where
  "op_not = bnd (StackAt 0) (\<lambda>v. StackPut 0 (NOT v))"

definition op_or :: "('a::len, unit) op_prog" where
  "op_or = binary (\<lambda>v top. v OR top)"

definition op_plus :: "('a::len, unit) op_prog" where
  "op_plus = binary (\<lambda>v top. v + top)"

definition op_plus_uconst :: "('a::len, unit) op_prog" where
  "op_plus_uconst = bnd (OperandAt 0) (\<lambda>k. bnd (StackAt 0) (\<lambda>v. StackPut 0 (v + k)))"

text \<open>Shifts by the width of the operand or more are undefined.\<close>

definition shift_op :: "(nat \<Rightarrow> 'a word \<Rightarrow> 'a word) \<Rightarrow> ('a::len, unit) op_prog" where
  "shift_op f =
     bnd StackPop (\<lambda>top.
     bnd (StackAt 0) (\<lambda>v.
     if unat top \<ge> LENGTH('a) then crash Undefined else StackPut 0 (f (unat top) v)))"

definition op_shl :: "('a::len, unit) op_prog" where
  "op_shl = shift_op push_bit"

definition op_shr :: "('a::len, unit) op_prog" where
  "op_shr = shift_op drop_bit"

definition op_shra :: "('a::len, unit) op_prog" where
  "op_shra = shift_op signed_drop_bit"

definition op_xor :: "('a::len, unit) op_prog" where
  "op_xor = binary (\<lambda>v top. v XOR top)"

text \<open>\<^verbatim>\<open>static_cast<int16_t>(OperandAt(0))\<close>, widened to the 64 bits of \<^verbatim>\<open>cur_offset\<close>.\<close>

definition branch_offset :: "'a::len word \<Rightarrow> u64" where
  "branch_offset operand = scast (ucast operand :: u16)"

definition op_bra :: "('a::len, unit) op_prog" where
  "op_bra =
     bnd StackPop (\<lambda>top.
     bnd (OperandAt 0) (\<lambda>k.
     bnd (gets (\<lambda>s. cur_offset (op_memory s))) (\<lambda>off.
     let new_offset = (if top \<noteq> 0 then off + branch_offset k else off - branch_offset k) in
     on_memory (set_cur_offset new_offset))))"

definition op_eq :: "('a::len, unit) op_prog" where
  "op_eq = binary (\<lambda>v top. bool_to_dwarf_bool (v = top))"

definition op_ge :: "('a::len, unit) op_prog" where
  "op_ge = binary (\<lambda>v top. bool_to_dwarf_bool (v \<ge> top))"

definition op_gt :: "('a::len, unit) op_prog" where
  "op_gt = binary (\<lambda>v top. bool_to_dwarf_bool (v > top))"

definition op_le :: "('a::len, unit) op_prog" where
  "op_le = binary (\<lambda>v top. bool_to_dwarf_bool (v \<le> top))"

definition op_lt :: "('a::len, unit) op_prog" where
  "op_lt = binary (\<lambda>v top. bool_to_dwarf_bool (v < top))"

definition op_ne :: "('a::len, unit) op_prog" where
  "op_ne = binary (\<lambda>v top. bool_to_dwarf_bool (v \<noteq> top))"

definition op_skip :: "('a::len, unit) op_prog" where
  "op_skip =
     bnd (OperandAt 0) (\<lambda>k.
     bnd (gets (\<lambda>s. cur_offset (op_memory s))) (\<lambda>off.
     on_memory (set_cur_offset (off + branch_offset k))))"

definition op_lit :: "('a::len, unit) op_prog" where
  "op_lit = bnd (gets cur_op) (\<lambda>op. push_front (ucast op - 0x30))"

definition op_reg :: "('a::len, unit) op_prog" where
  "op_reg =
     bnd (modify (\<lambda>s. s\<lparr>is_register := True\<rparr>)) (\<lambda>_.
     bnd (gets cur_op) (\<lambda>op. push_front (ucast op - 0x50)))"

definition op_regx :: "('a::len, unit) op_prog" where
  "op_regx = bnd (modify (\<lambda>s. s\<lparr>is_register := True\<rparr>)) (\<lambda>_. bnd (OperandAt 0) push_front)"

text \<open>\<^verbatim>\<open>regs_info_->Get(reg)\<close>, the register number being converted to \<^verbatim>\<open>uint32_t\<close>.\<close>

definition get_reg :: "u32 \<Rightarrow> ('a::len, 'a word) op_prog" where
  "get_reg reg = (\<lambda>s. (RegsInfo_Get (regs_info s) reg, s))"

definition op_breg :: "('a::len, unit) op_prog" where
  "op_breg =
     bnd (gets cur_op) (\<lambda>op.
     bnd (gets (\<lambda>s. RegsInfo_Total (regs_info s))) (\<lambda>total.
     let reg = ucast op - 0x70 :: u16 in
     if reg \<ge> total then fail_with (set_code DWARF_ERROR_ILLEGAL_VALUE)
     else bnd (get_reg (ucast reg)) (\<lambda>v. bnd (OperandAt 0) (\<lambda>k. push_front (v + k)))))"

definition op_bregx :: "('a::len, unit) op_prog" where
  "op_bregx =
     bnd (OperandAt 0) (\<lambda>reg.
     bnd (gets (\<lambda>s. RegsInfo_Total (regs_info s))) (\<lambda>total.
     if unat reg \<ge> unat total then fail_with (set_code DWARF_ERROR_ILLEGAL_VALUE)
     else bnd (get_reg (ucast reg)) (\<lambda>v. bnd (OperandAt 1) (\<lambda>k. push_front (v + k)))))"

definition op_nop :: "('a::len, unit) op_prog" where
  "op_nop = ret ()"

definition op_not_implemented :: "('a::len, unit) op_prog" where
  "op_not_implemented = fail_with (set_code DWARF_ERROR_NOT_IMPLEMENTED)"

section \<open>Evaluation\<close>

text \<open>The entry for \<^verbatim>\<open>OP_ILLEGAL\<close> is a null pointer, calling it is undefined.\<close>

fun kOpHandleFuncList :: "DwarfOpHandleFunc \<Rightarrow> ('a::len, unit) op_prog" where
  "kOpHandleFuncList OP_ILLEGAL = crash Undefined"
| "kOpHandleFuncList OP_DEREF = op_deref"
| "kOpHandleFuncList OP_DEREF_SIZE = op_deref_size"
| "kOpHandleFuncList OP_PUSH = op_push"
| "kOpHandleFuncList OP_DUP = op_dup"
| "kOpHandleFuncList OP_DROP = op_drop"
| "kOpHandleFuncList OP_OVER = op_over"
| "kOpHandleFuncList OP_PICK = op_pick"
| "kOpHandleFuncList OP_SWAP = op_swap"
| "kOpHandleFuncList OP_ROT = op_rot"
| "kOpHandleFuncList OP_ABS = op_abs"
| "kOpHandleFuncList OP_AND = op_and"
| "kOpHandleFuncList OP_DIV = op_div"
| "kOpHandleFuncList OP_MINUS = op_minus"
| "kOpHandleFuncList OP_MOD = op_mod"
| "kOpHandleFuncList OP_MUL = op_mul"
| "kOpHandleFuncList OP_NEG = op_neg"
| "kOpHandleFuncList OP_NOT = op_not"
| "kOpHandleFuncList OP_OR = op_or"
| "kOpHandleFuncList OP_PLUS = op_plus"
| "kOpHandleFuncList OP_PLUS_UCONST = op_plus_uconst"
| "kOpHandleFuncList OP_SHL = op_shl"
| "kOpHandleFuncList OP_SHR = op_shr"
| "kOpHandleFuncList OP_SHRA = op_shra"
| "kOpHandleFuncList OP_XOR = op_xor"
| "kOpHandleFuncList OP_BRA = op_bra"
| "kOpHandleFuncList OP_EQ = op_eq"
| "kOpHandleFuncList OP_GE = op_ge"
| "kOpHandleFuncList OP_GT = op_gt"
| "kOpHandleFuncList OP_LE = op_le"
| "kOpHandleFuncList OP_LT = op_lt"
| "kOpHandleFuncList OP_NE = op_ne"
| "kOpHandleFuncList OP_SKIP = op_skip"
| "kOpHandleFuncList OP_LIT = op_lit"
| "kOpHandleFuncList OP_REG = op_reg"
| "kOpHandleFuncList OP_REGX = op_regx"
| "kOpHandleFuncList OP_BREG = op_breg"
| "kOpHandleFuncList OP_BREGX = op_bregx"
| "kOpHandleFuncList OP_NOP = op_nop"
| "kOpHandleFuncList OP_NOT_IMPLEMENTED = op_not_implemented"

text \<open>The error every failed read of the expression reports.\<close>

definition memory_error :: "'a::len word dwarf_op \<Rightarrow> 'a word dwarf_op" where
  "memory_error s = set_error DWARF_ERROR_MEMORY_INVALID (cur_offset (op_memory s)) s"

text \<open>The loop over the operands, which are narrowed to \<^verbatim>\<open>AddressType\<close> when they are stored.\<close>

fun ReadOperands :: "u8 list \<Rightarrow> ('a::len, unit) op_prog" where
  "ReadOperands [] = ret ()"
| "ReadOperands (e # es) =
     bnd (on_fail (on_memory (ReadEncodedValue TYPE('a) e)) memory_error) (\<lambda>value.
     bnd (modify (\<lambda>s. s\<lparr>operands := operands s @ [ucast value]\<rparr>)) (\<lambda>_.
     ReadOperands es))"

definition Decode :: "('a::len, unit) op_prog" where
  "Decode =
     bnd (modify (set_code DWARF_ERROR_NONE)) (\<lambda>_.
     bnd (on_fail (on_memory (ReadBytes 1)) memory_error) (\<lambda>bs.
     bnd (modify (\<lambda>s. s\<lparr>cur_op := hd bs\<rparr>)) (\<lambda>_.
     let op = kCallbackTable ! unat (hd bs) in
     if handle_func op = OP_ILLEGAL then fail_with (set_code DWARF_ERROR_ILLEGAL_VALUE)
     else
       bnd (gets stack) (\<lambda>st.
       if length st < num_required_stack_values op
       then fail_with (set_code DWARF_ERROR_STACK_INDEX_NOT_VALID)
       else
         bnd (modify (\<lambda>s. s\<lparr>operands := []\<rparr>)) (\<lambda>_.
         bnd (ReadOperands (take (num_operands op) (op_operands op))) (\<lambda>_.
         kOpHandleFuncList (handle_func op)))))))"

text \<open>
  The main loop of \<^verbatim>\<open>Eval\<close>, which gives up after a fixed number of operations. The counter starts
  at 2 and goes up by one, so that reaching 1000 is the same as the comparison with 1000 in the code.
\<close>

function Eval_loop :: "u64 \<Rightarrow> nat \<Rightarrow> ('a::len, unit) op_prog" where
  "Eval_loop end iterations =
     bnd (gets (\<lambda>s. cur_offset (op_memory s))) (\<lambda>off.
     if off < end then
       bnd Decode (\<lambda>_.
       if iterations \<ge> 1000 then fail_with (set_code DWARF_ERROR_TOO_MANY_ITERATIONS)
       else Eval_loop end (iterations + 1))
     else ret ())"
  by pat_completeness auto
termination
  by (relation "measure (\<lambda>(_, iterations). 1001 - iterations)") auto

declare Eval_loop.simps [simp del]

definition Eval :: "u64 \<Rightarrow> u64 \<Rightarrow> ('a::len, unit) op_prog" where
  "Eval start end =
     bnd (modify (\<lambda>s. s\<lparr>is_register := False, stack := []\<rparr>)) (\<lambda>_.
     bnd (on_memory (set_cur_offset start)) (\<lambda>_.
     bnd (modify (\<lambda>s. s\<lparr>dex_pc_set := False\<rparr>)) (\<lambda>_.
     if start < end then
       bnd Decode (\<lambda>_.
       bnd (gets (\<lambda>s. cur_op s = 0x0c \<and> last (operands s) = 0x31584544)) (\<lambda>check_for_drop.
       bnd (gets (\<lambda>s. cur_offset (op_memory s))) (\<lambda>off.
       if off < end then
         bnd Decode (\<lambda>_.
         bnd (modify (\<lambda>s. if check_for_drop \<and> cur_op s = 0x13 then s\<lparr>dex_pc_set := True\<rparr> else s)) (\<lambda>_.
         Eval_loop end 2))
       else ret ())))
     else ret ())))"

section \<open>Logging\<close>

text \<open>
  \<^verbatim>\<open>GetLogInfo\<close> works on the memory object only. A failed read ends it with the lines collected so
  far. The fuel bounds the number of operations; \<open>GetLogInfo_fuel\<close> below shows how much is enough.
\<close>

fun LogOperands :: "'a::len itself \<Rightarrow> u8 list \<Rightarrow> string \<Rightarrow> (dwarf_memory, string) prog" where
  "LogOperands ty [] log_string = ret log_string"
| "LogOperands ty (e # es) log_string =
     bnd (ReadEncodedValue ty e) (\<lambda>value. LogOperands ty es (log_string @ '' '' @ dec (unat value)))"

fun LogRawBytes :: "nat \<Rightarrow> string \<Rightarrow> (dwarf_memory, string) prog" where
  "LogRawBytes 0 raw_string = ret raw_string"
| "LogRawBytes (Suc n) raw_string =
     bnd (ReadBytes 1) (\<lambda>bs. LogRawBytes n (raw_string @ '' 0x'' @ pad0 2 (hex (unat (hd bs)))))"

definition LogOp :: "'a::len itself \<Rightarrow> (dwarf_memory, string \<times> string) prog" where
  "LogOp ty =
     bnd (ReadBytes 1) (\<lambda>bs.
     let cur = hd bs;
         raw_string = ''Raw Data: 0x'' @ pad0 2 (hex (unat cur));
         op = kCallbackTable ! unat cur in
     if handle_func op = OP_ILLEGAL then ret (''Illegal'', raw_string)
     else
       bnd (gets cur_offset) (\<lambda>start_offset.
       bnd (LogOperands ty (take (num_operands op) (op_operands op)) (op_name op)) (\<lambda>log_string.
       bnd (gets cur_offset) (\<lambda>end_offset.
       bnd (set_cur_offset start_offset) (\<lambda>_.
       bnd (LogRawBytes (unat end_offset - unat start_offset) raw_string) (\<lambda>raw.
       bnd (set_cur_offset end_offset) (\<lambda>_.
       ret (log_string, raw))))))))"

fun GetLogInfo_loop ::
  "nat \<Rightarrow> 'a::len itself \<Rightarrow> u64 \<Rightarrow> string list \<Rightarrow> (dwarf_memory, string list) prog" where
  "GetLogInfo_loop fuel ty end lines =
     bnd (gets cur_offset) (\<lambda>off.
     if off < end then
       case fuel of
         0 \<Rightarrow> crash OutOfFuel
       | Suc fuel' \<Rightarrow>
           bnd (or_else (bnd (LogOp ty) (\<lambda>r. ret (Some r))) (ret None)) (\<lambda>r.
           case r of
             None \<Rightarrow> ret lines
           | Some (log_string, raw_string) \<Rightarrow>
               GetLogInfo_loop fuel' ty end (lines @ [log_string, raw_string]))
     else ret lines)"

definition GetLogInfo :: "nat \<Rightarrow> 'a::len itself \<Rightarrow> u64 \<Rightarrow> u64 \<Rightarrow> (dwarf_memory, string list) prog" where
  "GetLogInfo fuel ty start end =
     bnd (set_cur_offset start) (\<lambda>_. GetLogInfo_loop fuel ty end [])"

section \<open>When an operation is undefined\<close>

text \<open>The inputs on which a handler leaves the defined behaviour of C++.\<close>

definition op_hazard :: "DwarfOpHandleFunc \<Rightarrow> 'a::len word dwarf_op \<Rightarrow> bool" where
  "op_hazard f s =
     (case f of
        OP_PICK \<Rightarrow> unat (operands s ! 0) = length (stack s)
      | OP_ABS \<Rightarrow> stack s ! 0 = min_signed
      | OP_NEG \<Rightarrow> stack s ! 0 = min_signed
      | OP_DIV \<Rightarrow> stack s ! 0 = -1 \<and> stack s ! 1 = min_signed
      | OP_SHL \<Rightarrow> unat (stack s ! 0) \<ge> LENGTH('a)
      | OP_SHR \<Rightarrow> unat (stack s ! 0) \<ge> LENGTH('a)
      | OP_SHRA \<Rightarrow> unat (stack s ! 0) \<ge> LENGTH('a)
      | _ \<Rightarrow> False)"

definition regs_ok :: "'a::len word regs_info \<Rightarrow> bool" where
  "regs_ok info \<longleftrightarrow> length (regs info) \<le> MAX_REGISTERS \<and> length (saved_regs info) = MAX_REGISTERS"

lemma RegsInfo_Get_Ok:
  "regs_ok info \<Longrightarrow> unat reg < length (regs info) \<Longrightarrow> \<exists>v. RegsInfo_Get info reg = Ok v"
  by (auto simp: regs_ok_def RegsInfo_Get_def RegsInfo_IsSaved_def MAX_REGISTERS_def)

lemma RegsInfo_Total_eq: "regs_ok info \<Longrightarrow> unat (RegsInfo_Total info) = length (regs info)"
  by (simp add: regs_ok_def RegsInfo_Total_def MAX_REGISTERS_def unat_of_nat)

lemmas op_defs = op_deref_def op_deref_size_def op_push_def op_dup_def op_drop_def op_over_def
  op_pick_def op_swap_def op_rot_def op_abs_def op_and_def op_div_def op_minus_def op_mod_def
  op_mul_def op_neg_def op_not_def op_or_def op_plus_def op_plus_uconst_def op_shl_def op_shr_def
  op_shra_def op_xor_def op_bra_def op_eq_def op_ge_def op_gt_def op_le_def op_lt_def op_ne_def
  op_skip_def op_lit_def op_reg_def op_regx_def op_breg_def op_bregx_def op_nop_def
  op_not_implemented_def binary_def shift_op_def

lemmas stack_defs = StackAt_def StackPut_def StackPop_def OperandAt_def push_front_def get_reg_def
  on_memory_def on_member_def set_cur_offset_def

lemma unat_u16_less32: "unat (w :: u16) < 4294967296"
  using unsigned_less [of w, where 'a = nat] by simp

lemma op_breg_no_crash:
  assumes "regs_ok (regs_info s)" and "1 \<le> length (operands s)"
  shows "fst (op_breg s) \<noteq> Crash c"
proof -
  let ?reg = "ucast (cur_op s) - 0x70 :: u16"
  have "\<exists>v. RegsInfo_Get (regs_info s) (ucast ?reg) = Ok v" if "\<not> RegsInfo_Total (regs_info s) \<le> ?reg"
    using that RegsInfo_Total_eq [OF assms(1)]
    by (intro RegsInfo_Get_Ok [OF assms(1)]) (simp add: word_le_nat_alt unsigned_ucast_eq take_bit_nat_eq_self unat_u16_less32)
  then show ?thesis
    using assms(2) by (auto simp: op_defs stack_defs bnd_def Let_def)
qed

lemma op_bregx_no_crash:
  fixes s :: "'a::len word dwarf_op"
  assumes "regs_ok (regs_info s)" and "2 \<le> length (operands s)"
  shows "fst (op_bregx s) \<noteq> Crash c"
proof -
  let ?reg = "operands s ! 0"
  have "\<exists>v. RegsInfo_Get (regs_info s) (ucast ?reg) = Ok v"
    if "\<not> unat (RegsInfo_Total (regs_info s)) \<le> unat ?reg"
  proof (rule RegsInfo_Get_Ok [OF assms(1)])
    have "unat ?reg < length (regs (regs_info s))" "length (regs (regs_info s)) \<le> 64"
      using that assms(1) RegsInfo_Total_eq [OF assms(1)] by (simp_all add: regs_ok_def MAX_REGISTERS_def)
    then show "unat (ucast ?reg :: u32) < length (regs (regs_info s))"
      by (simp add: unsigned_ucast_eq take_bit_nat_eq_self)
  qed
  then show ?thesis
    using assms(2) by (auto simp: op_defs stack_defs bnd_def Let_def)
qed

lemma handler_crash_iff:
  fixes s :: "'a::len word dwarf_op"
  assumes "fst (handler_needs f) \<le> length (stack s)" and "snd (handler_needs f) \<le> length (operands s)"
    and "f \<noteq> OP_ILLEGAL" and "regs_ok (regs_info s)"
  shows "fst (kOpHandleFuncList f s) = Crash c \<longleftrightarrow> c = Undefined \<and> op_hazard f s"
proof (cases "f = OP_BREG \<or> f = OP_BREGX")
  case True
  then show ?thesis
    using assms op_breg_no_crash [of s c] op_bregx_no_crash [of s c]
    by (auto simp: handler_needs_def op_hazard_def)
next
  case False
  show ?thesis
    using assms(1-3) False
    by (cases f) (auto simp: handler_needs_def op_hazard_def op_defs stack_defs bnd_def Let_def
        Suc_le_length_iff numeral_2_eq_2 numeral_3_eq_3 split: option.splits if_splits)
qed

text \<open>
  \<^verbatim>\<open>DW_OP_bra\<close> jumps in both cases: if the popped value is zero, where the standard continues with
  the next operation, the code moves backwards by the offset.
\<close>

lemma op_bra_zero:
  assumes "stack s = 0 # st" and "operands s = [k]"
  shows "op_bra s =
    (Ok (), s\<lparr>stack := st,
      op_memory := (op_memory s)\<lparr>cur_offset := cur_offset (op_memory s) - branch_offset k\<rparr>\<rparr>)"
  using assms by (simp add: op_bra_def stack_defs bnd_def Let_def)

text \<open>\<^verbatim>\<open>Decode\<close> is the fetch of an operation with its operands, followed by the call of the handler.\<close>

definition Decode_fetch :: "('a::len, OpCallback) op_prog" where
  "Decode_fetch =
     bnd (modify (set_code DWARF_ERROR_NONE)) (\<lambda>_.
     bnd (on_fail (on_memory (ReadBytes 1)) memory_error) (\<lambda>bs.
     bnd (modify (\<lambda>s. s\<lparr>cur_op := hd bs\<rparr>)) (\<lambda>_.
     let op = kCallbackTable ! unat (hd bs) in
     if handle_func op = OP_ILLEGAL then fail_with (set_code DWARF_ERROR_ILLEGAL_VALUE)
     else
       bnd (gets stack) (\<lambda>st.
       if length st < num_required_stack_values op
       then fail_with (set_code DWARF_ERROR_STACK_INDEX_NOT_VALID)
       else
         bnd (modify (\<lambda>s. s\<lparr>operands := []\<rparr>)) (\<lambda>_.
         bnd (ReadOperands (take (num_operands op) (op_operands op))) (\<lambda>_.
         ret op))))))"

lemma Decode_eq: "Decode s = bnd Decode_fetch (\<lambda>op. kOpHandleFuncList (handle_func op)) s"
  by (simp add: Decode_def Decode_fetch_def bnd_def Let_def split: prod.split outcome.split)

lemma ReadOperands_frame:
  "ReadOperands es s = (r, s') \<Longrightarrow>
     stack s' = stack s \<and> regs_info s' = regs_info s \<and> cur_op s' = cur_op s \<and>
     regular_memory s' = regular_memory s \<and> dex_pc_set s' = dex_pc_set s \<and> is_register s' = is_register s \<and>
     (r = Ok () \<longrightarrow> length (operands s') = length (operands s) + length es)"
proof (induction es arbitrary: s)
  case (Cons e es)
  then show ?case
    by (auto simp: bnd_def on_fail_def on_memory_def on_member_def memory_error_def set_error_def
        split: prod.splits outcome.splits dest!: Cons.IH)
qed simp

lemma ReadOperands_Crash: "ReadOperands es s = (Crash c, s') \<Longrightarrow> c = Undefined"
proof (induction es arbitrary: s)
  case (Cons e es)
  then show ?case
    by (auto simp: bnd_Crash_iff on_memory_def on_member_eq_iff dest: ReadEncodedValue_Crash Cons.IH)
qed simp

lemma Decode_fetch_Ok:
  assumes "Decode_fetch s = (Ok op, s')"
  shows "op = kCallbackTable ! unat (cur_op s') \<and> handle_func op \<noteq> OP_ILLEGAL \<and>
    num_required_stack_values op \<le> length (stack s') \<and> length (operands s') = num_operands op \<and>
    stack s' = stack s \<and> regs_info s' = regs_info s \<and> regular_memory s' = regular_memory s \<and>
    dex_pc_set s' = dex_pc_set s \<and> is_register s' = is_register s"
proof -
  from assms obtain bs m where
    m: "ReadBytes 1 (op_memory s) = (Ok bs, m)" and
    op: "op = kCallbackTable ! unat (hd bs)" "handle_func op \<noteq> OP_ILLEGAL"
      "num_required_stack_values op \<le> length (stack s)" and
    rd: "ReadOperands (take (num_operands op) (op_operands op))
      ((set_code DWARF_ERROR_NONE s)\<lparr>op_memory := m, cur_op := hd bs, operands := []\<rparr>) = (Ok (), s')"
    by (auto simp: Decode_fetch_def bnd_Ok_iff Let_def on_memory_def on_member_eq_iff set_code_def
        split: if_splits)
  have "num_operands op = length (op_operands op)"
    using row_ok_nth [of "hd bs"] op(1) by (simp add: row_ok_def)
  with ReadOperands_frame [OF rd] op show ?thesis
    by (simp add: set_code_def)
qed

lemma Decode_fetch_Crash: "Decode_fetch s = (Crash c, s') \<Longrightarrow> c = Undefined"
  by (auto simp: Decode_fetch_def bnd_Crash_iff Let_def on_memory_def on_member_eq_iff
      dest: ReadOperands_Crash split: if_splits)



end
