(* ===== verification/Dwarf_Op_Eval.thy ===== *)
theory Dwarf_Op_Eval
  imports Dwarf_Op
begin

text \<open>
  Results on the evaluation of whole DWARF expressions: the iteration bound of \<^verbatim>\<open>Eval\<close> and the
  detection of the dex pc marker, the termination of the disassembler \<^verbatim>\<open>GetLogInfo\<close>, and the
  agreement of \<^verbatim>\<open>Eval\<close> with the stack machine of the DWARF standard on assembled expressions.
\<close>

section \<open>How long an evaluation runs\<close>

text \<open>The field \<^verbatim>\<open>dex_pc_set_\<close> is not read by the operations.\<close>

definition dex_free :: "('a::len, 'r) op_prog \<Rightarrow> bool" where
  "dex_free p \<longleftrightarrow> (\<forall>s b. p (s\<lparr>dex_pc_set := b\<rparr>) = apsnd (\<lambda>s. s\<lparr>dex_pc_set := b\<rparr>) (p s))"

lemma dex_freeD: "dex_free p \<Longrightarrow> p (s\<lparr>dex_pc_set := b\<rparr>) = apsnd (\<lambda>s. s\<lparr>dex_pc_set := b\<rparr>) (p s)"
  by (simp add: dex_free_def)

lemma dex_free_basic [prog_frame]:
  "dex_free (ret x)" "dex_free (crash c)"
  "(\<And>s b. f (s\<lparr>dex_pc_set := b\<rparr>) = f s) \<Longrightarrow> dex_free (gets f)"
  "(\<And>s b. g (s\<lparr>dex_pc_set := b\<rparr>) = (g s)\<lparr>dex_pc_set := b\<rparr>) \<Longrightarrow> dex_free (modify g)"
  "(\<And>s b. g (s\<lparr>dex_pc_set := b\<rparr>) = (g s)\<lparr>dex_pc_set := b\<rparr>) \<Longrightarrow> dex_free (fail_with g)"
  "dex_free (on_memory m)"
  by (simp_all add: dex_free_def on_memory_def on_member_def split: prod.split)

lemma dex_free_bnd [prog_frame]: "dex_free p \<Longrightarrow> (\<And>x. dex_free (f x)) \<Longrightarrow> dex_free (bnd p f)"
  by (simp add: dex_free_def bnd_def split: prod.split outcome.split)

lemma dex_free_on_fail [prog_frame]:
  "dex_free p \<Longrightarrow> (\<And>s b. g (s\<lparr>dex_pc_set := b\<rparr>) = (g s)\<lparr>dex_pc_set := b\<rparr>) \<Longrightarrow> dex_free (on_fail p g)"
  by (simp add: dex_free_def on_fail_def split: prod.split outcome.split)

lemma dex_free_if [prog_frame]: "dex_free p \<Longrightarrow> dex_free q \<Longrightarrow> dex_free (if b then p else q)"
  by simp

lemma dex_free_option [prog_frame]:
  "dex_free p \<Longrightarrow> (\<And>x. dex_free (f x)) \<Longrightarrow> dex_free (case v of None \<Rightarrow> p | Some x \<Rightarrow> f x)"
  by (cases v) simp_all

lemma dex_free_stack [prog_frame]:
  "dex_free (StackAt i)" "dex_free (StackPut i v)" "dex_free StackPop" "dex_free (OperandAt i)"
  "dex_free (push_front v)" "dex_free (get_reg r)"
  by (simp_all add: dex_free_def stack_defs split: list.split)

lemma dex_free_error [simp]:
  "set_code c (s\<lparr>dex_pc_set := b\<rparr>) = (set_code c s)\<lparr>dex_pc_set := b\<rparr>"
  "set_error c a (s\<lparr>dex_pc_set := b\<rparr>) = (set_error c a s)\<lparr>dex_pc_set := b\<rparr>"
  "memory_error (s\<lparr>dex_pc_set := b\<rparr>) = (memory_error s)\<lparr>dex_pc_set := b\<rparr>"
  by (simp_all add: set_code_def set_error_def memory_error_def)

lemma dex_free_handler [prog_frame]: "dex_free (kOpHandleFuncList f)"
  by (cases f) (simp_all add: op_defs Let_def, (intro prog_frame; simp)+)

lemma dex_free_ReadOperands [prog_frame]: "dex_free (ReadOperands es)"
proof (induction es)
  case (Cons e es)
  show ?case
    unfolding ReadOperands.simps by (intro prog_frame Cons; simp)
qed (simp add: dex_free_def)

lemma dex_free_Decode [prog_frame]: "dex_free Decode"
  unfolding Decode_def Let_def by (intro prog_frame; simp)

text \<open>\<open>n\<close> operations are executed one after the other, each starting in front of \<open>end\<close>.\<close>

inductive op_runs :: "u64 \<Rightarrow> nat \<Rightarrow> 'a::len word dwarf_op \<Rightarrow> 'a word dwarf_op \<Rightarrow> bool" for "end" where
  op_runs_0: "op_runs end 0 s s"
| op_runs_Suc: "cur_offset (op_memory s) < end \<Longrightarrow> Decode s = (Ok (), s') \<Longrightarrow> op_runs end n s' t \<Longrightarrow>
    op_runs end (Suc n) s t"

inductive_simps op_runs_0_iff: "op_runs end 0 s t"
inductive_simps op_runs_Suc_iff: "op_runs end (Suc n) s t"

lemma op_runs_dex:
  "op_runs end n s t \<Longrightarrow> op_runs end n (s\<lparr>dex_pc_set := b\<rparr>) (t\<lparr>dex_pc_set := b\<rparr>)"
proof (induction rule: op_runs.induct)
  case (op_runs_Suc s s' n t)
  have "Decode (s\<lparr>dex_pc_set := b\<rparr>) = (Ok (), s'\<lparr>dex_pc_set := b\<rparr>)"
    using dex_freeD [OF dex_free_Decode, of b s] op_runs_Suc(2) by simp
  with op_runs_Suc show ?case
    by (intro op_runs.op_runs_Suc [of "s\<lparr>dex_pc_set := b\<rparr>"]) simp_all
qed (rule op_runs_0)

lemma Eval_loop_step:
  "Eval_loop end i s =
     (if cur_offset (op_memory s) < end then
        case Decode s of
          (Ok _, s') \<Rightarrow>
            if i \<ge> 1000 then (Fail, set_code DWARF_ERROR_TOO_MANY_ITERATIONS s') else Eval_loop end (i + 1) s'
        | r \<Rightarrow> r
      else (Ok (), s))"
  by (subst Eval_loop.simps) (simp add: bnd_def split: prod.split outcome.split)

text \<open>At most \<open>n\<close> operations lead from \<open>s\<close> to \<open>t\<close>, which is behind the expression.\<close>

definition op_finishes :: "u64 \<Rightarrow> nat \<Rightarrow> 'a::len word dwarf_op \<Rightarrow> 'a word dwarf_op \<Rightarrow> bool" where
  "op_finishes end n s t \<longleftrightarrow> (\<exists>k \<le> n. op_runs end k s t) \<and> \<not> cur_offset (op_memory t) < end"

lemma op_finishes_0: "op_finishes end 0 s t \<longleftrightarrow> s = t \<and> \<not> cur_offset (op_memory s) < end"
  by (auto simp: op_finishes_def op_runs_0_iff)

lemma op_finishes_Suc:
  "op_finishes end (Suc n) s t \<longleftrightarrow>
     (if cur_offset (op_memory s) < end
      then \<exists>s'. Decode s = (Ok (), s') \<and> op_finishes end n s' t else s = t)"
proof -
  have "(\<exists>k \<le> Suc n. op_runs end k s t) \<longleftrightarrow> op_runs end 0 s t \<or> (\<exists>k \<le> n. op_runs end (Suc k) s t)"
    by (metis Suc_le_mono le0 not0_implies_Suc)
  then show ?thesis
    by (auto simp: op_finishes_def op_runs_0_iff op_runs_Suc_iff)
qed

lemma Eval_loop_Ok_iff:
  "i + n = 1000 \<Longrightarrow> Eval_loop end i s = (Ok (), t) \<longleftrightarrow> op_finishes end n s t"
proof (induction n arbitrary: i s)
  case 0
  then show ?case
    by (subst Eval_loop_step) (auto simp: op_finishes_0 split: prod.splits outcome.splits)
next
  case (Suc n)
  have "Eval_loop end (i + 1) s' = (Ok (), t) \<longleftrightarrow> op_finishes end n s' t" for s'
    using Suc.prems by (intro Suc.IH) simp
  then show ?case
    using Suc.prems
    by (subst Eval_loop_step) (auto simp: op_finishes_Suc split: prod.splits outcome.splits)
qed

lemma op_finishes_dex:
  "op_finishes end n (s\<lparr>dex_pc_set := b\<rparr>) (t\<lparr>dex_pc_set := b\<rparr>) \<longleftrightarrow>
     op_finishes end n (s\<lparr>dex_pc_set := c\<rparr>) (t\<lparr>dex_pc_set := c\<rparr>)"
proof -
  have "op_runs end k (s\<lparr>dex_pc_set := b\<rparr>) (t\<lparr>dex_pc_set := b\<rparr>) \<longleftrightarrow>
      op_runs end k (s\<lparr>dex_pc_set := c\<rparr>) (t\<lparr>dex_pc_set := c\<rparr>)" for k
    using op_runs_dex [of "end" k "s\<lparr>dex_pc_set := b\<rparr>" "t\<lparr>dex_pc_set := b\<rparr>" c]
      op_runs_dex [of "end" k "s\<lparr>dex_pc_set := c\<rparr>" "t\<lparr>dex_pc_set := c\<rparr>" b]
    by simp blast
  then show ?thesis
    by (simp add: op_finishes_def)
qed

text \<open>The state in which \<^verbatim>\<open>Eval\<close> starts, and the expression prefix that marks a dex pc.\<close>

definition Eval_start :: "u64 \<Rightarrow> 'a::len word dwarf_op \<Rightarrow> 'a word dwarf_op" where
  "Eval_start start s =
     s\<lparr>is_register := False, stack := [], op_memory := (op_memory s)\<lparr>cur_offset := start\<rparr>,
       dex_pc_set := False\<rparr>"

definition starts_with_dex :: "u64 \<Rightarrow> 'a::len word dwarf_op \<Rightarrow> bool" where
  "starts_with_dex end s \<longleftrightarrow>
     (\<exists>s1 s2. op_runs end 1 s s1 \<and> op_runs end 1 s1 s2 \<and>
        cur_op s1 = 0x0c \<and> last (operands s1) = 0x31584544 \<and> cur_op s2 = 0x13)"

lemma op_runs_1: "op_runs end (Suc 0) s t \<longleftrightarrow> cur_offset (op_memory s) < end \<and> Decode s = (Ok (), t)"
  by (auto simp: op_runs_Suc_iff op_runs_0_iff)

lemma Decode_dex_pc_set: "Decode s = (r, t) \<Longrightarrow> dex_pc_set t = dex_pc_set s"
  using dex_freeD [OF dex_free_Decode, of "dex_pc_set s" s]
  by (metis apsnd_conv dwarf_op.select_convs(4) dwarf_op.surjective dwarf_op.update_convs(4) prod.inject)

lemma op_runs_dex_pc_set: "op_runs end n s t \<Longrightarrow> dex_pc_set t = dex_pc_set s"
  by (induction rule: op_runs.induct) (auto dest: Decode_dex_pc_set)

lemma op_finishes_dex_pc_set: "op_finishes end n s t \<Longrightarrow> dex_pc_set t = dex_pc_set s"
  by (auto simp: op_finishes_def dest: op_runs_dex_pc_set)

lemma op_finishes_set_dex:
  assumes "\<not> dex_pc_set s"
  shows "op_finishes end n (s\<lparr>dex_pc_set := True\<rparr>) t \<longleftrightarrow>
    op_finishes end n s (t\<lparr>dex_pc_set := False\<rparr>) \<and> dex_pc_set t"
proof -
  have s: "s\<lparr>dex_pc_set := False\<rparr> = s"
    using assms by simp
  have t: "dex_pc_set t \<Longrightarrow> t\<lparr>dex_pc_set := True\<rparr> = t"
    by simp
  show ?thesis
    using op_finishes_dex [of "end" n True s t False] s t op_finishes_dex_pc_set
    by (metis dwarf_op.select_convs(4) dwarf_op.surjective dwarf_op.update_convs(4))
qed

lemma Eval_eq:
  "Eval start end s =
     (let s0 = Eval_start start s in
      if start < end then
        case Decode s0 of
          (Ok _, s1) \<Rightarrow>
            if cur_offset (op_memory s1) < end then
              case Decode s1 of
                (Ok _, s2) \<Rightarrow>
                  Eval_loop end 2
                    (if (cur_op s1 = 0x0c \<and> last (operands s1) = 0x31584544) \<and> cur_op s2 = 0x13
                     then s2\<lparr>dex_pc_set := True\<rparr> else s2)
              | r \<Rightarrow> r
            else (Ok (), s1)
        | r \<Rightarrow> r
      else (Ok (), s0))"
  by (simp add: Eval_def Eval_start_def bnd_def on_memory_def on_member_def set_cur_offset_def Let_def
      split: prod.split outcome.split)

lemma Eval_start_simps [simp]:
  "cur_offset (op_memory (Eval_start start s)) = start" "\<not> dex_pc_set (Eval_start start s)"
  by (simp_all add: Eval_start_def)

lemma starts_with_dex_eq:
  assumes "Decode s = (Ok (), s1)" and "cur_offset (op_memory s) < end"
  shows "starts_with_dex end s \<longleftrightarrow>
    cur_offset (op_memory s1) < end \<and> cur_op s1 = 0x0c \<and> last (operands s1) = 0x31584544 \<and>
    (\<exists>s2. Decode s1 = (Ok (), s2) \<and> cur_op s2 = 0x13)"
  using assms by (auto simp: starts_with_dex_def op_runs_1)

lemma op_finishes_clear_dex:
  assumes "\<not> dex_pc_set s"
  shows "op_finishes end n s t \<longleftrightarrow> op_finishes end n s (t\<lparr>dex_pc_set := False\<rparr>) \<and> \<not> dex_pc_set t"
proof (cases "dex_pc_set t")
  case True
  then show ?thesis
    using op_finishes_dex_pc_set [of "end" n s t] assms by auto
next
  case False
  then have "t\<lparr>dex_pc_set := False\<rparr> = t"
    by simp
  with False show ?thesis
    by (simp only: not_False_eq_True simp_thms)
qed

lemma op_finishes_1000:
  "op_finishes end 1000 s t \<longleftrightarrow>
     (if cur_offset (op_memory s) < end then
        \<exists>s1. Decode s = (Ok (), s1) \<and>
          (if cur_offset (op_memory s1) < end
           then \<exists>s2. Decode s1 = (Ok (), s2) \<and> op_finishes end 998 s2 t else s1 = t)
      else s = t)"
proof -
  have n: "(1000 :: nat) = Suc (Suc 998)"
    by simp
  show ?thesis
    by (simp only: n op_finishes_Suc)
qed

lemma dex_pc_set_False_eq:
  "\<not> dex_pc_set u \<Longrightarrow> u = t\<lparr>dex_pc_set := False\<rparr> \<and> \<not> dex_pc_set t \<longleftrightarrow> u = t"
  by (cases "dex_pc_set t") auto

lemma Eval_succeeds_iff:
  fixes s t :: "'a::len word dwarf_op"
  shows "Eval start end s = (Ok (), t) \<longleftrightarrow>
     op_finishes end 1000 (Eval_start start s) (t\<lparr>dex_pc_set := False\<rparr>) \<and>
     (dex_pc_set t \<longleftrightarrow> starts_with_dex end (Eval_start start s))"
proof (cases "start < end")
  case False
  then show ?thesis
    using dex_pc_set_False_eq [of "Eval_start start s" t]
    by (auto simp: Eval_eq op_finishes_1000 starts_with_dex_def op_runs_1)
next
  case True
  let ?s0 = "Eval_start start s" and ?t = "t\<lparr>dex_pc_set := False\<rparr>"
  obtain r s1 where s1: "Decode ?s0 = (r, s1)"
    by (cases "Decode ?s0")
  have d1: "\<not> dex_pc_set s1"
    using Decode_dex_pc_set [OF s1] by simp
  show ?thesis
  proof (cases "r = Ok () \<and> cur_offset (op_memory s1) < end")
    case False
    then show ?thesis
      using True s1 dex_pc_set_False_eq [OF d1, of t] starts_with_dex_eq [of ?s0 s1 "end"]
      by (cases r) (auto simp: Eval_eq op_finishes_1000)
  next
    case more: True
    then have s1': "Decode ?s0 = (Ok (), s1)"
      using s1 by simp
    obtain r2 s2 where s2: "Decode s1 = (r2, s2)"
      by (cases "Decode s1")
    have d2: "\<not> dex_pc_set s2"
      using Decode_dex_pc_set [OF s2] d1 by simp
    let ?C = "cur_op s1 = 0x0c \<and> last (operands s1) = 0x31584544 \<and> cur_op s2 = 0x13"
    note eqs = True more [THEN conjunct2] s1' s2
    show ?thesis
    proof (cases "r2 = Ok ()")
      case False
      then show ?thesis
        using eqs by (cases r2) (simp_all add: Eval_eq op_finishes_1000)
    next
      case ok: True
      have fin: "op_finishes end 1000 ?s0 ?t \<longleftrightarrow> op_finishes end 998 s2 ?t"
        using eqs ok by (simp add: op_finishes_1000)
      have dex: "starts_with_dex end ?s0 \<longleftrightarrow> ?C"
        using eqs ok by (simp add: starts_with_dex_eq)
      have "Eval start end s = Eval_loop end 2 (if ?C then s2\<lparr>dex_pc_set := True\<rparr> else s2)"
        using eqs ok by (simp add: Eval_eq)
      moreover have "Eval_loop end 2 u = (Ok (), t) \<longleftrightarrow> op_finishes end 998 u t" for u
        by (rule Eval_loop_Ok_iff) simp
      ultimately show ?thesis
        unfolding fin dex using op_finishes_set_dex [OF d2, of "end" 998 t]
          op_finishes_clear_dex [OF d2, of "end" 998 t]
        by (cases ?C) auto
    qed
  qed
qed

text \<open>
  C23. \<^verbatim>\<open>Eval\<close> always comes to an end, and it succeeds exactly if at most 1000 operations lead from the
  start of the expression to a position at or behind its end; the final state is the one these
  operations produce, and \<^verbatim>\<open>dex_pc_set\<close> tells whether the first two are \<^verbatim>\<open>DW_OP_const4u\<close> of the dex
  marker and \<^verbatim>\<open>DW_OP_drop\<close>.
\<close>

theorem Eval_Ok_iff:
  "Eval start end s = (Ok (), t) \<longleftrightarrow>
     op_finishes end 1000 (Eval_start start s) (t\<lparr>dex_pc_set := False\<rparr>) \<and>
     (dex_pc_set t \<longleftrightarrow> starts_with_dex end (Eval_start start s))"
  by (rule Eval_succeeds_iff)

section \<open>Agreement with the stack machine of the standard\<close>

text \<open>
  Instructions of the DWARF stack machine, their encoding, and what they do to a stack (top first)
  with the values of the registers and a memory.
\<close>

datatype 'w instr =
    ILit nat | IConstu 'w | IConsts int | IBreg nat int | IPlusUconst 'w
  | IDup | IDrop | IOver | ISwap | IRot | IDeref
  | IAnd | IMinus | IMul | INot | IOr | IPlus | IXor | IEq | IGe | IGt | ILe | ILt | INe

fun assemble :: "'a::len word instr \<Rightarrow> u8 list" where
  "assemble (ILit n) = [of_nat (0x30 + n)]"
| "assemble (IConstu v) = 0x10 # uleb128 (unat v)"
| "assemble (IConsts i) = 0x11 # sleb128 i"
| "assemble (IBreg r i) = of_nat (0x70 + r) # sleb128 i"
| "assemble (IPlusUconst v) = 0x23 # uleb128 (unat v)"
| "assemble IDup = [0x12]"
| "assemble IDrop = [0x13]"
| "assemble IOver = [0x14]"
| "assemble ISwap = [0x16]"
| "assemble IRot = [0x17]"
| "assemble IDeref = [0x06]"
| "assemble IAnd = [0x1a]"
| "assemble IMinus = [0x1c]"
| "assemble IMul = [0x1e]"
| "assemble INot = [0x20]"
| "assemble IOr = [0x21]"
| "assemble IPlus = [0x22]"
| "assemble IXor = [0x27]"
| "assemble IEq = [0x29]"
| "assemble IGe = [0x2a]"
| "assemble IGt = [0x2b]"
| "assemble ILe = [0x2c]"
| "assemble ILt = [0x2d]"
| "assemble INe = [0x2e]"

fun encodable :: "'a::len word instr \<Rightarrow> bool" where
  "encodable (ILit n) = (n < 32)"
| "encodable (IConstu v) = (unat v < 2 ^ 64)"
| "encodable (IPlusUconst v) = (unat v < 2 ^ 64)"
| "encodable (IConsts i) = (- (2 ^ 62) \<le> i \<and> i < 2 ^ 63)"
| "encodable (IBreg r i) = (r < 32 \<and> - (2 ^ 62) \<le> i \<and> i < 2 ^ 63)"
| "encodable _ = True"

fun execute :: "'a::len word list \<Rightarrow> memory \<Rightarrow> 'a word instr \<Rightarrow> 'a word list \<Rightarrow> 'a word list option" where
  "execute rs mem (ILit n) st = Some (of_nat n # st)"
| "execute rs mem (IConstu v) st = Some (v # st)"
| "execute rs mem (IConsts i) st = Some (of_int i # st)"
| "execute rs mem (IBreg r i) st = (if r < length rs then Some ((rs ! r + of_int i) # st) else None)"
| "execute rs mem (IPlusUconst v) (x # st) = Some ((x + v) # st)"
| "execute rs mem IDup (x # st) = Some (x # x # st)"
| "execute rs mem IDrop (x # st) = Some st"
| "execute rs mem IOver (x # y # st) = Some (y # x # y # st)"
| "execute rs mem ISwap (x # y # st) = Some (y # x # st)"
| "execute rs mem IRot (x # y # z # st) = Some (y # z # x # st)"
| "execute rs mem IDeref (x # st) = map_option (\<lambda>v. v # st) (read_word mem (ucast x))"
| "execute rs mem IAnd (x # y # st) = Some ((y AND x) # st)"
| "execute rs mem IMinus (x # y # st) = Some ((y - x) # st)"
| "execute rs mem IMul (x # y # st) = Some ((y * x) # st)"
| "execute rs mem INot (x # st) = Some ((NOT x) # st)"
| "execute rs mem IOr (x # y # st) = Some ((y OR x) # st)"
| "execute rs mem IPlus (x # y # st) = Some ((y + x) # st)"
| "execute rs mem IXor (x # y # st) = Some ((y XOR x) # st)"
| "execute rs mem IEq (x # y # st) = Some ((if y = x then 1 else 0) # st)"
| "execute rs mem IGe (x # y # st) = Some ((if y \<ge> x then 1 else 0) # st)"
| "execute rs mem IGt (x # y # st) = Some ((if y > x then 1 else 0) # st)"
| "execute rs mem ILe (x # y # st) = Some ((if y \<le> x then 1 else 0) # st)"
| "execute rs mem ILt (x # y # st) = Some ((if y < x then 1 else 0) # st)"
| "execute rs mem INe (x # y # st) = Some ((if y \<noteq> x then 1 else 0) # st)"
| "execute rs mem _ _ = None"

fun execute_all :: "'a::len word list \<Rightarrow> memory \<Rightarrow> 'a word instr list \<Rightarrow> 'a word list \<Rightarrow> 'a word list option" where
  "execute_all rs mem [] st = Some st"
| "execute_all rs mem (i # is) st =
     (case execute rs mem i st of None \<Rightarrow> None | Some st' \<Rightarrow> execute_all rs mem is st')"

text \<open>The state in which the handler of a fetched operation runs.\<close>

definition fetched :: "u8 \<Rightarrow> nat \<Rightarrow> 'a::len word list \<Rightarrow> 'a word dwarf_op \<Rightarrow> 'a word dwarf_op" where
  "fetched op n ops s =
     (set_code DWARF_ERROR_NONE s)\<lparr>
       op_memory := (op_memory s)\<lparr>cur_offset := cur_offset (op_memory s) + of_nat n\<rparr>,
       cur_op := op, operands := ops\<rparr>"

lemma Decode_no_operands:
  assumes "holds_bytes (memory_of (op_memory s)) (cur_offset (op_memory s)) [op]"
    and "kCallbackTable ! unat op = OpCallback nm f req 0 []" and "f \<noteq> OP_ILLEGAL"
    and "req \<le> length (stack s)"
  shows "Decode s = kOpHandleFuncList f (fetched op 1 [] s)"
proof -
  have "ReadBytes 1 (op_memory s) = (Ok [op], (op_memory s)\<lparr>cur_offset := cur_offset (op_memory s) + 1\<rparr>)"
    using assms(1) by (intro ReadBytes_1) (simp add: holds_bytes_Cons)
  then show ?thesis
    using assms(2-4)
    by (simp add: Decode_def bnd_def on_fail_def on_memory_def on_member_def set_code_def fetched_def
        Let_def del: One_nat_def)
qed

lemma Decode_one_operand:
  fixes s :: "'a::len word dwarf_op"
  assumes "holds_bytes (memory_of (op_memory s)) (cur_offset (op_memory s)) (op # bs)"
    and "kCallbackTable ! unat op = OpCallback nm f req 1 [e]" and "f \<noteq> OP_ILLEGAL"
    and "req \<le> length (stack s)"
    and read: "\<And>m. holds_bytes (memory_of m) (cur_offset m) bs \<Longrightarrow>
      ReadEncodedValue TYPE('a) e m = (Ok v, m\<lparr>cur_offset := cur_offset m + of_nat (length bs)\<rparr>)"
  shows "Decode s = kOpHandleFuncList f (fetched op (Suc (length bs)) [ucast v] s)"
proof -
  let ?m = "(op_memory s)\<lparr>cur_offset := cur_offset (op_memory s) + 1\<rparr>"
  have "ReadBytes 1 (op_memory s) = (Ok [op], ?m)"
    using assms(1) by (intro ReadBytes_1) (simp add: holds_bytes_Cons)
  moreover have "ReadEncodedValue TYPE('a) e ?m =
      (Ok v, ?m\<lparr>cur_offset := cur_offset ?m + of_nat (length bs)\<rparr>)"
    using assms(1) by (intro read) (simp add: holds_bytes_Cons)
  ultimately show ?thesis
    using assms(2-4)
    by (cases s) (simp add: Decode_def bnd_def on_fail_def on_memory_def on_member_def set_code_def
        fetched_def Let_def add.assoc del: One_nat_def)
qed

lemma ReadEncodedValue_uleb128:
  assumes "holds_bytes (memory_of m) (cur_offset m) (uleb128 n)" and "n < 2 ^ 64"
  shows "ReadEncodedValue ty DW_EH_PE_uleb128 m =
    (Ok (of_nat n), m\<lparr>cur_offset := cur_offset m + of_nat (length (uleb128 n))\<rparr>)"
  using ReadULEB128_of_nat [OF assms]
  by (simp add: ReadEncodedValue_def ReadEncodedData_def encoding_defs bnd_def AdjustEncodedValue_def)

lemma ReadEncodedValue_sleb128:
  assumes "holds_bytes (memory_of m) (cur_offset m) (sleb128 i)" and "- (2 ^ 62) \<le> i" and "i < 2 ^ 63"
  shows "ReadEncodedValue ty DW_EH_PE_sleb128 m =
    (Ok (of_int i), m\<lparr>cur_offset := cur_offset m + of_nat (length (sleb128 i))\<rparr>)"
proof -
  have "- (2 ^ 63) \<le> i"
    using assms(2) by simp
  then have "\<not> (i < 0 \<and> length (sleb128 i) = 10)" "length (sleb128 i) \<le> 10"
    using assms length_sleb128_neg [of i] length_sleb128_10 [of i] by auto
  then show ?thesis
    using ReadSLEB128_eq [OF assms(1)]
    by (auto simp: ReadEncodedValue_def ReadEncodedData_def encoding_defs bnd_def AdjustEncodedValue_def)
qed

lemma rows_lit: "list_all (\<lambda>n. \<exists>nm. kCallbackTable ! (0x30 + n) = OpCallback nm OP_LIT 0 0 []) [0..<32]"
  by (simp add: upt_rec kCallbackTable_def kCallbackTable_rows)

lemma rows_breg:
  "list_all (\<lambda>n. \<exists>nm. kCallbackTable ! (0x70 + n) = OpCallback nm OP_BREG 0 1 [DW_EH_PE_sleb128]) [0..<32]"
  by (simp add: upt_rec kCallbackTable_def kCallbackTable_rows)

lemma rows_fixed:
  "kCallbackTable ! 6 = OpCallback ''DW_OP_deref'' OP_DEREF 1 0 []"
  "kCallbackTable ! 18 = OpCallback ''DW_OP_dup'' OP_DUP 1 0 []"
  "kCallbackTable ! 19 = OpCallback ''DW_OP_drop'' OP_DROP 1 0 []"
  "kCallbackTable ! 20 = OpCallback ''DW_OP_over'' OP_OVER 2 0 []"
  "kCallbackTable ! 22 = OpCallback ''DW_OP_swap'' OP_SWAP 2 0 []"
  "kCallbackTable ! 23 = OpCallback ''DW_OP_rot'' OP_ROT 3 0 []"
  "kCallbackTable ! 26 = OpCallback ''DW_OP_and'' OP_AND 2 0 []"
  "kCallbackTable ! 28 = OpCallback ''DW_OP_minus'' OP_MINUS 2 0 []"
  "kCallbackTable ! 30 = OpCallback ''DW_OP_mul'' OP_MUL 2 0 []"
  "kCallbackTable ! 32 = OpCallback ''DW_OP_not'' OP_NOT 1 0 []"
  "kCallbackTable ! 33 = OpCallback ''DW_OP_or'' OP_OR 2 0 []"
  "kCallbackTable ! 34 = OpCallback ''DW_OP_plus'' OP_PLUS 2 0 []"
  "kCallbackTable ! 39 = OpCallback ''DW_OP_xor'' OP_XOR 2 0 []"
  "kCallbackTable ! 41 = OpCallback ''DW_OP_eq'' OP_EQ 2 0 []"
  "kCallbackTable ! 42 = OpCallback ''DW_OP_ge'' OP_GE 2 0 []"
  "kCallbackTable ! 43 = OpCallback ''DW_OP_gt'' OP_GT 2 0 []"
  "kCallbackTable ! 44 = OpCallback ''DW_OP_le'' OP_LE 2 0 []"
  "kCallbackTable ! 45 = OpCallback ''DW_OP_lt'' OP_LT 2 0 []"
  "kCallbackTable ! 46 = OpCallback ''DW_OP_ne'' OP_NE 2 0 []"
  "kCallbackTable ! 16 = OpCallback ''DW_OP_constu'' OP_PUSH 0 1 [DW_EH_PE_uleb128]"
  "kCallbackTable ! 17 = OpCallback ''DW_OP_consts'' OP_PUSH 0 1 [DW_EH_PE_sleb128]"
  "kCallbackTable ! 35 = OpCallback ''DW_OP_plus_uconst'' OP_PLUS_UCONST 1 1 [DW_EH_PE_uleb128]"
  by (simp_all add: kCallbackTable_def kCallbackTable_rows)

text \<open>The step of the machine and the step of the code: \<open>step_ok\<close> relates the states.\<close>

definition step_ok :: "nat \<Rightarrow> 'a::len word list \<Rightarrow> 'a word dwarf_op \<Rightarrow> 'a word dwarf_op \<Rightarrow> bool" where
  "step_ok n st s s' \<longleftrightarrow> stack s' = st \<and> regs_info s' = regs_info s \<and>
     regular_memory s' = regular_memory s \<and>
     op_memory s' = (op_memory s)\<lparr>cur_offset := cur_offset (op_memory s) + of_nat n\<rparr>"

lemma fetched_simps [simp]:
  "stack (fetched op n ops s) = stack s" "operands (fetched op n ops s) = ops"
  "cur_op (fetched op n ops s) = op" "regs_info (fetched op n ops s) = regs_info s"
  "regular_memory (fetched op n ops s) = regular_memory s"
  "op_memory (fetched op n ops s) = (op_memory s)\<lparr>cur_offset := cur_offset (op_memory s) + of_nat n\<rparr>"
  by (simp_all add: fetched_def set_code_def)

text \<open>The instructions without operands: opcode, handler and required stack depth.\<close>

fun simple_row :: "'w instr \<Rightarrow> (u8 \<times> DwarfOpHandleFunc \<times> nat) option" where
  "simple_row IDup = Some (0x12, OP_DUP, 1)"
| "simple_row IDrop = Some (0x13, OP_DROP, 1)"
| "simple_row IOver = Some (0x14, OP_OVER, 2)"
| "simple_row ISwap = Some (0x16, OP_SWAP, 2)"
| "simple_row IRot = Some (0x17, OP_ROT, 3)"
| "simple_row IDeref = Some (0x06, OP_DEREF, 1)"
| "simple_row IAnd = Some (0x1a, OP_AND, 2)"
| "simple_row IMinus = Some (0x1c, OP_MINUS, 2)"
| "simple_row IMul = Some (0x1e, OP_MUL, 2)"
| "simple_row INot = Some (0x20, OP_NOT, 1)"
| "simple_row IOr = Some (0x21, OP_OR, 2)"
| "simple_row IPlus = Some (0x22, OP_PLUS, 2)"
| "simple_row IXor = Some (0x27, OP_XOR, 2)"
| "simple_row IEq = Some (0x29, OP_EQ, 2)"
| "simple_row IGe = Some (0x2a, OP_GE, 2)"
| "simple_row IGt = Some (0x2b, OP_GT, 2)"
| "simple_row ILe = Some (0x2c, OP_LE, 2)"
| "simple_row ILt = Some (0x2d, OP_LT, 2)"
| "simple_row INe = Some (0x2e, OP_NE, 2)"
| "simple_row _ = None"

lemma simple_row_table:
  "simple_row i = Some (op, f, req) \<Longrightarrow>
     assemble i = [op] \<and> (\<exists>nm. kCallbackTable ! unat op = OpCallback nm f req 0 []) \<and> f \<noteq> OP_ILLEGAL"
  by (cases i) (auto simp: rows_fixed)

lemma simple_row_handler:
  assumes "simple_row i = Some (op, f, req)" and "execute rs (regular_memory s) i (stack s) = Some st"
  shows "req \<le> length (stack s) \<and>
    (\<exists>s'. kOpHandleFuncList f (fetched op 1 [] s) = (Ok (), s') \<and> step_ok 1 st s s')"
proof -
  consider "stack s = []" | x where "stack s = [x]" | x y where "stack s = [x, y]"
    | x y z zs where "stack s = x # y # z # zs"
    by (metis list.exhaust)
  then show ?thesis
    using assms
    by cases (cases i; auto simp: step_ok_def op_defs stack_defs bnd_def bool_to_dwarf_bool_def
        split: option.splits)+
qed

lemma Decode_simple_instr:
  assumes "holds_bytes (memory_of (op_memory s)) (cur_offset (op_memory s)) (assemble i)"
    and "execute rs (regular_memory s) i (stack s) = Some st" and "simple_row i = Some (op, f, req)"
  shows "\<exists>s'. Decode s = (Ok (), s') \<and> step_ok (length (assemble i)) st s s'"
  using simple_row_table [OF assms(3)] simple_row_handler [OF assms(3,2)] assms(1)
    Decode_no_operands [of s op _ f req] by fastforce

lemma ucast_of_nat_unat:
  fixes v :: "'a::len word"
  assumes "unat v < 2 ^ 64"
  shows "ucast (of_nat (unat v) :: u64) = v"
proof -
  have "unat (of_nat (unat v) :: u64) = unat v"
    using assms by (simp add: unsigned_ucast_eq take_bit_nat_eq_self)
  moreover have "unat (ucast (of_nat (unat v) :: u64) :: 'a word) = take_bit LENGTH('a) (unat (of_nat (unat v) :: u64))"
    by (rule unsigned_ucast_eq)
  moreover have "take_bit LENGTH('a) (unat v) = unat v"
    by (intro take_bit_nat_eq_self) simp
  ultimately show ?thesis
    by (simp only: word_unat_eq_iff)
qed

lemma ucast_of_int: "LENGTH('a) \<le> 64 \<Longrightarrow> ucast (of_int i :: u64) = (of_int i :: 'a::len word)"
  by (rule bit_word_eqI) (auto simp: bit_simps)

lemma Decode_ILit:
  fixes s :: "'a::len word dwarf_op"
  assumes holds: "holds_bytes (memory_of (op_memory s)) (cur_offset (op_memory s)) (assemble (ILit n :: 'a word instr))"
    and n: "n < 32"
  shows "\<exists>s'. Decode s = (Ok (), s') \<and> step_ok 1 (of_nat n # stack s) s s'"
proof -
  have op: "unat (of_nat (0x30 + n) :: u8) = 0x30 + n"
    using n by (intro unat_byte) simp
  obtain nm where "kCallbackTable ! (0x30 + n) = OpCallback nm OP_LIT 0 0 []"
    using rows_lit n by (fastforce simp: list_all_iff)
  then have row: "kCallbackTable ! unat (of_nat (0x30 + n) :: u8) = OpCallback nm OP_LIT 0 0 []"
    by (simp only: op)
  have "ucast (of_nat (0x30 + n) :: u8) - 0x30 = (of_nat (unat (of_nat (0x30 + n) :: u8)) - 0x30 :: 'a word)"
    by (simp only: of_nat_unat)
  also have "\<dots> = of_nat n"
    unfolding op by simp
  finally show ?thesis
    using Decode_no_operands [OF _ row, of s] holds
    by (simp add: step_ok_def op_lit_def push_front_def del: of_nat_add)
qed

lemma Decode_uleb128:
  fixes s :: "'a::len word dwarf_op" and v :: "'a word"
  assumes "holds_bytes (memory_of (op_memory s)) (cur_offset (op_memory s)) (op # uleb128 (unat v))"
    and "kCallbackTable ! unat op = OpCallback nm f req 1 [DW_EH_PE_uleb128]" and "f \<noteq> OP_ILLEGAL"
    and "req \<le> length (stack s)" and "unat v < 2 ^ 64"
  shows "Decode s = kOpHandleFuncList f (fetched op (Suc (length (uleb128 (unat v)))) [v] s)"
  using Decode_one_operand [OF assms(1-4), of "of_nat (unat v)"] assms(5)
  by (simp add: ReadEncodedValue_uleb128 ucast_of_nat_unat del: of_nat_unat)

lemma Decode_sleb128:
  fixes s :: "'a::len word dwarf_op"
  assumes "holds_bytes (memory_of (op_memory s)) (cur_offset (op_memory s)) (op # sleb128 i)"
    and "kCallbackTable ! unat op = OpCallback nm f req 1 [DW_EH_PE_sleb128]" and "f \<noteq> OP_ILLEGAL"
    and "req \<le> length (stack s)" and "- (2 ^ 62) \<le> i" and "i < 2 ^ 63" and "LENGTH('a) \<le> 64"
  shows "Decode s = kOpHandleFuncList f (fetched op (Suc (length (sleb128 i))) [of_int i] s)"
  using Decode_one_operand [OF assms(1-4), of "of_int i"] assms(5-7)
  by (simp add: ReadEncodedValue_sleb128 ucast_of_int)

lemma Decode_IBreg:
  fixes s :: "'a::len word dwarf_op"
  assumes holds: "holds_bytes (memory_of (op_memory s)) (cur_offset (op_memory s)) (assemble (IBreg r i :: 'a word instr))"
    and r: "r < 32" "r < length rs" and i: "- (2 ^ 62) \<le> i" "i < 2 ^ 63" and len: "LENGTH('a) \<le> 64"
    and info: "regs_info_inv rs (regs_info s)"
  shows "\<exists>s'. Decode s = (Ok (), s') \<and> step_ok (Suc (length (sleb128 i))) ((rs ! r + of_int i) # stack s) s s'"
proof -
  let ?op = "of_nat (0x70 + r) :: u8"
  have op: "unat ?op = 0x70 + r"
    using r by (intro unat_byte) simp
  obtain nm where "kCallbackTable ! (0x70 + r) = OpCallback nm OP_BREG 0 1 [DW_EH_PE_sleb128]"
    using rows_breg r by (fastforce simp: list_all_iff)
  then have row: "kCallbackTable ! unat ?op = OpCallback nm OP_BREG 0 1 [DW_EH_PE_sleb128]"
    by (simp only: op)
  have dec: "Decode s = op_breg (fetched ?op (Suc (length (sleb128 i))) [of_int i] s)"
    using Decode_sleb128 [OF _ row] holds i len by (simp del: of_nat_add)
  have "(ucast ?op - 0x70 :: u16) = of_nat (unat ?op) - 0x70"
    by (simp only: of_nat_unat)
  then have reg: "(ucast ?op - 0x70 :: u16) = of_nat r"
    unfolding op by simp
  have "length rs \<le> 64" "length (regs (regs_info s)) = length rs"
    using info by (simp_all add: regs_info_inv_def MAX_REGISTERS_def)
  then have "\<not> RegsInfo_Total (regs_info s) \<le> (of_nat r :: u16)"
    using r by (simp add: RegsInfo_Total_def word_le_nat_alt unat_of_nat)
  moreover have "RegsInfo_Get (regs_info s) (ucast (of_nat r :: u16)) = Ok (rs ! r)"
    using RegsInfo_Get_orig [OF info, of "ucast (of_nat r :: u16)"] r
    by (simp add: unsigned_ucast_eq unat_of_nat take_bit_nat_eq_self)
  ultimately show ?thesis
    unfolding dec by (simp add: op_breg_def stack_defs bnd_def reg step_ok_def Let_def del: of_nat_add)
qed

lemma Decode_instr:
  fixes s :: "'a::len word dwarf_op"
  assumes holds: "holds_bytes (memory_of (op_memory s)) (cur_offset (op_memory s)) (assemble i)"
    and exec: "execute rs (regular_memory s) i (stack s) = Some st"
    and enc: "encodable i" and info: "regs_info_inv rs (regs_info s)" and len: "LENGTH('a) \<le> 64"
  shows "\<exists>s'. Decode s = (Ok (), s') \<and> step_ok (length (assemble i)) st s s'"
proof (cases "simple_row i")
  case None
  have row1: "kCallbackTable ! unat (0x10 :: u8) = OpCallback ''DW_OP_constu'' OP_PUSH 0 1 [DW_EH_PE_uleb128]"
    and row2: "kCallbackTable ! unat (0x11 :: u8) = OpCallback ''DW_OP_consts'' OP_PUSH 0 1 [DW_EH_PE_sleb128]"
    and row3: "kCallbackTable ! unat (0x23 :: u8) = OpCallback ''DW_OP_plus_uconst'' OP_PLUS_UCONST 1 1 [DW_EH_PE_uleb128]"
    by (simp_all add: rows_fixed)
  show ?thesis
  proof (cases i)
    case (ILit n)
    then show ?thesis
      using Decode_ILit [of s n] holds exec enc by simp
  next
    case (IConstu v)
    then show ?thesis
      using Decode_uleb128 [OF _ row1, of s v] holds exec enc
      by (simp add: op_push_def step_ok_def)
  next
    case (IConsts k)
    then show ?thesis
      using Decode_sleb128 [OF _ row2, of s k] holds exec enc len
      by (simp add: op_push_def step_ok_def)
  next
    case (IBreg r k)
    then show ?thesis
      using Decode_IBreg [of s r k rs] holds exec enc len info by (simp split: if_splits)
  next
    case (IPlusUconst v)
    then obtain x xs where "stack s = x # xs"
      using exec by (cases "stack s") simp_all
    then show ?thesis
      using Decode_uleb128 [OF _ row3, of s v] holds exec enc IPlusUconst
      by (simp add: op_plus_uconst_def stack_defs bnd_def step_ok_def)
  qed (use None in simp_all)
next
  case (Some row)
  then show ?thesis
    using Decode_simple_instr [OF holds exec] by (cases row) auto
qed

lemma holds_bytes_append:
  "holds_bytes mem a (xs @ ys) \<longleftrightarrow> holds_bytes mem a xs \<and> holds_bytes mem (a + of_nat (length xs)) ys"
  by (induction xs arbitrary: a) (auto simp: holds_bytes_Cons add.assoc, simp_all add: holds_bytes_def)

lemma assemble_nonempty: "assemble i \<noteq> []"
  by (cases i) simp_all

lemma op_runs_assembled:
  fixes s :: "'a::len word dwarf_op"
  assumes "holds_bytes (memory_of (op_memory s)) (cur_offset (op_memory s)) (concat (map assemble prog))"
    and "execute_all rs (regular_memory s) prog (stack s) = Some st"
    and "list_all encodable prog" and "regs_info_inv rs (regs_info s)" and "LENGTH('a) \<le> 64"
    and "unat (cur_offset (op_memory s)) + length (concat (map assemble prog)) = unat end"
  shows "\<exists>t. op_runs end (length prog) s t \<and> step_ok (length (concat (map assemble prog))) st s t"
  using assms
proof (induction prog arbitrary: s)
  case Nil
  then show ?case
    by (intro exI [of _ s]) (simp add: op_runs_0 step_ok_def)
next
  case (Cons i prog)
  let ?n = "length (assemble i)" and ?rest = "concat (map assemble prog)"
  let ?off = "cur_offset (op_memory s)"
  obtain st1 where st1: "execute rs (regular_memory s) i (stack s) = Some st1"
      "execute_all rs (regular_memory s) prog st1 = Some st"
    using Cons.prems(2) by (auto split: option.splits)
  have holds: "holds_bytes (memory_of (op_memory s)) ?off (assemble i)"
      "holds_bytes (memory_of (op_memory s)) (?off + of_nat ?n) ?rest"
    using Cons.prems(1) by (simp_all add: holds_bytes_append)
  obtain s1 where s1: "Decode s = (Ok (), s1)" "step_ok ?n st1 s s1"
    using Decode_instr [OF holds(1) st1(1)] Cons.prems by auto
  have off1: "unat (?off + of_nat ?n) = unat ?off + ?n"
    using Cons.prems(6) unat_u64_less [of "end"] by (intro unat_add_of_nat) simp
  have "\<exists>t. op_runs end (length prog) s1 t \<and> step_ok (length ?rest) st s1 t"
    using s1(2) holds st1 Cons.prems off1 by (intro Cons.IH) (simp_all add: step_ok_def)
  then obtain t where t: "op_runs end (length prog) s1 t" "step_ok (length ?rest) st s1 t"
    by blast
  have "?off < end"
  proof -
    obtain b bs where "assemble i = b # bs"
      using assemble_nonempty by (cases "assemble i") auto
    with Cons.prems(6) show ?thesis
      by (simp add: word_less_nat_alt)
  qed
  then have "op_runs end (length (i # prog)) s t"
    using s1(1) t(1) by (simp add: op_runs_Suc)
  moreover have "step_ok (length (concat (map assemble (i # prog)))) st s t"
    using s1(2) t(2) by (simp add: step_ok_def add.assoc)
  ultimately show ?case
    by blast
qed



section \<open>The disassembler comes to an end\<close>

text \<open>How far a read can move the cursor.\<close>

definition advances :: "nat \<Rightarrow> (dwarf_memory, 'r) prog \<Rightarrow> bool" where
  "advances n p \<longleftrightarrow>
     (\<forall>m r m'. p m = (Ok r, m') \<longrightarrow> (\<exists>k \<le> n. cur_offset m' = cur_offset m + of_nat k))"

lemma advances_ret: "advances n (ret x)"
  by (auto simp: advances_def intro: exI [of _ 0])

lemma advances_bnd:
  assumes "advances i p" and "\<And>x. advances j (f x)"
  shows "advances (i + j) (bnd p f)"
  unfolding advances_def
proof (intro allI impI)
  fix m r m'
  assume "bnd p f m = (Ok r, m')"
  then obtain x m1 where "p m = (Ok x, m1)" "f x m1 = (Ok r, m')"
    by (auto simp: bnd_Ok_iff)
  then obtain k l where "k \<le> i" "cur_offset m1 = cur_offset m + of_nat k"
      "l \<le> j" "cur_offset m' = cur_offset m1 + of_nat l"
    using assms unfolding advances_def by blast
  then show "\<exists>k \<le> i + j. cur_offset m' = cur_offset m + of_nat k"
    by (intro exI [of _ "k + l"]) simp
qed

lemma advances_mono: "advances i p \<Longrightarrow> i \<le> j \<Longrightarrow> advances j p"
  unfolding advances_def by (meson order_trans)

lemma advances_ReadBytes: "advances n (ReadBytes n)"
  by (auto simp: advances_def dest!: ReadBytes_OkD)

lemma advances_loop: "advances ((76 - shift) div 7) (ReadLEB128_loop v shift)"
proof (induction v shift rule: ReadLEB128_loop.induct)
  case (1 v shift)
  show ?case
    unfolding advances_def
  proof (intro allI impI)
    fix m r m'
    assume run: "ReadLEB128_loop v shift m = (Ok r, m')"
    then obtain bs m1 where m1: "ReadBytes 1 m = (Ok bs, m1)" and lt: "\<not> 64 \<le> shift"
      by (subst (asm) ReadLEB128_loop.simps) (auto simp: bnd_Ok_iff split: if_splits)
    have off: "cur_offset m1 = cur_offset m + 1"
      using ReadBytes_OkD [OF m1] by simp
    have div: "Suc ((76 - (shift + 7)) div 7) \<le> (76 - shift) div 7"
      using lt by linarith
    show "\<exists>k \<le> (76 - shift) div 7. cur_offset m' = cur_offset m + of_nat k"
    proof (cases "hd bs AND 0x80 = 0")
      case True
      then have "m' = m1"
        using run m1 lt by (subst (asm) ReadLEB128_loop.simps) (simp add: bnd_def Let_def del: One_nat_def)
      then show ?thesis
        using off div by (intro exI [of _ 1]) simp
    next
      case False
      then have "ReadLEB128_loop (v + push_bit shift (ucast (hd bs AND 0x7f))) (shift + 7) m1 = (Ok r, m')"
        using run m1 lt by (subst (asm) ReadLEB128_loop.simps) (simp add: bnd_def Let_def del: One_nat_def)
      moreover have "advances ((76 - (shift + 7)) div 7)
          (ReadLEB128_loop (v + push_bit shift (ucast (hd bs AND 0x7f))) (shift + 7))"
        by (rule 1 [OF lt _ _ False]) simp_all
      ultimately obtain k where "k \<le> (76 - (shift + 7)) div 7" "cur_offset m' = cur_offset m1 + of_nat k"
        unfolding advances_def by blast
      then show ?thesis
        using off div by (intro exI [of _ "Suc k"]) simp
    qed
  qed
qed

lemma advances_reads:
  "advances n (ReadUnsigned n)" "advances n (ReadSigned n)" "advances 10 ReadULEB128" "advances 10 ReadSLEB128"
proof -
  show "advances n (ReadUnsigned n)" "advances n (ReadSigned n)"
    unfolding ReadUnsigned_def ReadSigned_def
    using advances_bnd [OF advances_ReadBytes advances_ret, where j = 0] by simp_all
  have crash: "advances k (crash c)" for k c
    by (simp add: advances_def)
  have loop: "advances 10 (ReadLEB128_loop 0 0)"
    using advances_loop [of 0 0] by simp
  show "advances 10 ReadULEB128"
    unfolding ReadULEB128_def
    by (rule advances_bnd [OF loop, where j = 0, simplified]) (auto intro: advances_ret split: prod.split)
  show "advances 10 ReadSLEB128"
    unfolding ReadSLEB128_def
    by (rule advances_bnd [OF loop, where j = 0, simplified])
      (auto intro: advances_ret crash split: prod.split)
qed

text \<open>The operand encodings the table uses.\<close>

definition plain_encodings :: "u8 set" where
  "plain_encodings =
     {DW_EH_PE_absptr, DW_EH_PE_uleb128, DW_EH_PE_sleb128, DW_EH_PE_udata1, DW_EH_PE_sdata1,
      DW_EH_PE_udata2, DW_EH_PE_sdata2, DW_EH_PE_udata4, DW_EH_PE_sdata4, DW_EH_PE_udata8, DW_EH_PE_sdata8}"

lemma advances_ReadEncodedValue:
  assumes "e \<in> plain_encodings" and "sizeof ty \<le> 8"
  shows "advances 10 (ReadEncodedValue ty e)"
proof -
  have "advances 10 (ReadEncodedData ty (e AND 0x0f))"
    using assms
    by (auto simp: plain_encodings_def ReadEncodedData_def encoding_defs
        intro: advances_reads advances_mono [OF advances_reads(1)] advances_mono [OF advances_reads(2)])
  moreover have "advances 0 (AdjustEncodedValue f v)" for f v
    by (auto simp: advances_def dest: AdjustEncodedValue_state)
  ultimately have "advances (10 + 0) (bnd (ReadEncodedData ty (e AND 0x0f)) (AdjustEncodedValue (e AND 0x70)))"
    by (rule advances_bnd)
  then show ?thesis
    using assms(1) by (auto simp: plain_encodings_def ReadEncodedValue_def encoding_defs)
qed

lemma advances_LogOperands:
  "set es \<subseteq> plain_encodings \<Longrightarrow> sizeof ty \<le> 8 \<Longrightarrow> advances (10 * length es) (LogOperands ty es str)"
proof (induction es arbitrary: str)
  case (Cons e es)
  have "advances (10 + 10 * length es)
      (bnd (ReadEncodedValue ty e) (\<lambda>value. LogOperands ty es (str @ '' '' @ dec (unat value))))"
    using Cons by (intro advances_bnd advances_ReadEncodedValue) auto
  then show ?case
    by simp
qed (simp add: advances_ret)

lemma row_operands: "length (op_operands (kCallbackTable ! unat (op :: u8))) \<le> 2"
    "set (op_operands (kCallbackTable ! unat op)) \<subseteq> plain_encodings"
proof -
  have "list_all (\<lambda>cb. length (op_operands cb) \<le> 2) kCallbackTable"
    by (simp add: kCallbackTable_def kCallbackTable_rows)
  moreover have "unat op < 256"
    using unsigned_less [of op, where 'a = nat] by simp
  ultimately show "length (op_operands (kCallbackTable ! unat op)) \<le> 2"
    by (simp add: list_all_length length_kCallbackTable)
  show "set (op_operands (kCallbackTable ! unat op)) \<subseteq> plain_encodings"
    using row_ok_nth [of op] by (auto simp: row_ok_def plain_encodings_def)
qed

lemma LogOp_advances:
  assumes "LogOp ty m = (Ok r, m')" and "sizeof ty \<le> 8"
  shows "\<exists>k. 1 \<le> k \<and> k \<le> 21 \<and> cur_offset m' = cur_offset m + of_nat k"
proof -
  obtain bs m1 where m1: "ReadBytes 1 m = (Ok bs, m1)"
    using assms(1) by (auto simp: LogOp_def bnd_Ok_iff)
  have off: "cur_offset m1 = cur_offset m + 1"
    using ReadBytes_OkD [OF m1] by simp
  let ?cb = "kCallbackTable ! unat (hd bs)"
  show ?thesis
  proof (cases "handle_func ?cb = OP_ILLEGAL")
    case True
    then have "m' = m1"
      using assms(1) m1 by (simp add: LogOp_def bnd_def Let_def del: One_nat_def)
    then show ?thesis
      using off by (intro exI [of _ 1]) simp
  next
    case False
    then obtain str m2 where
      m2: "LogOperands ty (take (num_operands ?cb) (op_operands ?cb)) (op_name ?cb) m1 = (Ok str, m2)"
      and m': "cur_offset m' = cur_offset m2"
      using assms(1) m1
      by (auto simp: LogOp_def bnd_Ok_iff Let_def set_cur_offset_def simp del: One_nat_def)
    have "set (take (num_operands ?cb) (op_operands ?cb)) \<subseteq> plain_encodings"
      using row_operands(2) [of "hd bs"] by (meson order_trans set_take_subset)
    from advances_LogOperands [OF this assms(2)] m2
    obtain k where k: "k \<le> 10 * length (take (num_operands ?cb) (op_operands ?cb))"
        "cur_offset m2 = cur_offset m1 + of_nat k"
      unfolding advances_def by blast
    then have "k \<le> 20"
      using row_operands(1) [of "hd bs"] by simp
    then show ?thesis
      using k(2) off m' by (intro exI [of _ "Suc k"]) simp
  qed
qed

lemma LogOperands_Crash: "LogOperands ty es str m = (Crash c, m') \<Longrightarrow> c = Undefined"
proof (induction es arbitrary: str m)
  case (Cons e es)
  then show ?case
    by (auto simp: bnd_Crash_iff dest: ReadEncodedValue_Crash Cons.IH)
qed simp

lemma LogRawBytes_no_Crash: "LogRawBytes n str m \<noteq> (Crash c, m')"
  by (induction n arbitrary: str m) (auto simp: bnd_Crash_iff)

lemma LogOp_Crash: "LogOp ty m = (Crash c, m') \<Longrightarrow> c = Undefined"
  by (auto simp: LogOp_def bnd_Crash_iff Let_def LogRawBytes_no_Crash set_cur_offset_def
      dest: LogOperands_Crash split: if_splits)

lemma GetLogInfo_loop_step:
  "GetLogInfo_loop (Suc fuel) ty end lines m =
     (if cur_offset m < end then
        case LogOp ty m of
          (Ok (log_string, raw_string), m') \<Rightarrow> GetLogInfo_loop fuel ty end (lines @ [log_string, raw_string]) m'
        | (Fail, m') \<Rightarrow> (Ok lines, m')
        | (Crash c, m') \<Rightarrow> (Crash c, m')
      else (Ok lines, m))"
  by (simp add: bnd_def or_else_def split: prod.split outcome.split)

lemma GetLogInfo_loop_fuel:
  assumes "sizeof ty \<le> 8" and "unat end + 21 \<le> 2 ^ 64" and "unat end - unat (cur_offset m) \<le> fuel"
  shows "fst (GetLogInfo_loop fuel ty end lines m) \<noteq> Crash OutOfFuel"
  using assms(3)
proof (induction fuel arbitrary: lines m)
  case 0
  then have "\<not> cur_offset m < end"
    by (simp add: word_less_nat_alt)
  then show ?case
    by (simp add: bnd_def)
next
  case (Suc fuel)
  show ?case
  proof (cases "cur_offset m < end")
    case True
    obtain r m' where op: "LogOp ty m = (r, m')"
      by (cases "LogOp ty m")
    show ?thesis
    proof (cases r)
      case (Ok p)
      obtain k where k: "1 \<le> k" "k \<le> 21" "cur_offset m' = cur_offset m + of_nat k"
        using LogOp_advances op Ok assms(1) by blast
      have "unat (cur_offset m') = unat (cur_offset m) + k"
        unfolding k(3) using True k(2) assms(2)
        by (intro unat_add_of_nat) (simp add: word_less_nat_alt)
      then have "unat end - unat (cur_offset m') \<le> fuel"
        using Suc.prems k(1) by linarith
      then show ?thesis
        using True op Ok Suc.IH [of m'] by (cases p) (simp only: GetLogInfo_loop_step, simp)
    qed (use True op LogOp_Crash [of ty m] in \<open>auto simp: GetLogInfo_loop_step simp del: GetLogInfo_loop.simps\<close>)
  qed (simp add: GetLogInfo_loop_step del: GetLogInfo_loop.simps)
qed

text \<open>
  C33. \<^verbatim>\<open>GetLogInfo\<close> ends: if no more than \<open>end - start\<close> operations are logged it never runs out of fuel,
  whatever the bytes are, provided the expression does not reach into the last 21 bytes of the
  address space, the size of the longest operation.
\<close>

theorem GetLogInfo_terminates:
  assumes "sizeof ty \<le> 8" and "unat end + 21 \<le> 2 ^ 64" and "unat end - unat start \<le> fuel"
  shows "fst (GetLogInfo fuel ty start end m) \<noteq> Crash OutOfFuel"
  using assms GetLogInfo_loop_fuel [of ty "end" "m\<lparr>cur_offset := start\<rparr>" fuel "[]"]
  by (simp add: GetLogInfo_def set_cur_offset_def del: GetLogInfo_loop.simps)

theorem GetLogInfo_terminates_witness:
  "fst (GetLogInfo 5 TYPE(64) 3 8 (DwarfMemory (MemoryBuffer_Read [0x96, 0x96, 0x96, 0x96]))) \<noteq> Crash OutOfFuel"
  by (rule GetLogInfo_terminates) (simp_all add: sizeof_def)

end
