(* ===== verification/Dwarf_Cfa.thy ===== *)
theory Dwarf_Cfa
  imports Dwarf_Op
begin

text \<open>
  \<^verbatim>\<open>DwarfCfa.cpp\<close> and \<^verbatim>\<open>DwarfCfa.h\<close>: the interpreter of call frame instructions, which computes
  where the registers of the caller are stored at a given pc, and its disassembler. All members are
  programs on the record \<open>dwarf_cfa\<close>, which also holds the objects the code reaches through pointers:
  the memory, the FDE with its CIE, and the location map that \<^verbatim>\<open>GetLocationInfo\<close> fills.
\<close>

section \<open>The instruction table\<close>

datatype DisplayType =
    DWARF_DISPLAY_NONE
  | DWARF_DISPLAY_REGISTER
  | DWARF_DISPLAY_NUMBER
  | DWARF_DISPLAY_SIGNED_NUMBER
  | DWARF_DISPLAY_EVAL_BLOCK
  | DWARF_DISPLAY_ADDRESS
  | DWARF_DISPLAY_SET_LOC
  | DWARF_DISPLAY_ADVANCE_LOC

datatype CfaInfo =
  CfaInfo (cfa_name: string) (supported_version: nat) (cfa_num_operands: nat)
    (cfa_operand_encodings: "u8 list") (display_operands: "DisplayType list")

abbreviation illegal_cfa :: CfaInfo where
  "illegal_cfa \<equiv> CfaInfo [] 0 0 [] []"

definition kTable_low :: "CfaInfo list" where
  "kTable_low = [
     CfaInfo ''DW_CFA_nop'' 2 0 [] [],
     CfaInfo ''DW_CFA_set_loc'' 2 1 [DW_EH_PE_absptr] [DWARF_DISPLAY_SET_LOC],
     CfaInfo ''DW_CFA_advance_loc1'' 2 1 [DW_EH_PE_udata1] [DWARF_DISPLAY_ADVANCE_LOC],
     CfaInfo ''DW_CFA_advance_loc2'' 2 1 [DW_EH_PE_udata2] [DWARF_DISPLAY_ADVANCE_LOC],
     CfaInfo ''DW_CFA_advance_loc4'' 2 1 [DW_EH_PE_udata4] [DWARF_DISPLAY_ADVANCE_LOC],
     CfaInfo ''DW_CFA_offset_extended'' 2 2 [DW_EH_PE_uleb128, DW_EH_PE_uleb128] [DWARF_DISPLAY_REGISTER, DWARF_DISPLAY_NUMBER],
     CfaInfo ''DW_CFA_restore_extended'' 2 1 [DW_EH_PE_uleb128] [DWARF_DISPLAY_REGISTER],
     CfaInfo ''DW_CFA_undefined'' 2 1 [DW_EH_PE_uleb128] [DWARF_DISPLAY_REGISTER],
     CfaInfo ''DW_CFA_same_value'' 2 1 [DW_EH_PE_uleb128] [DWARF_DISPLAY_REGISTER],
     CfaInfo ''DW_CFA_register'' 2 2 [DW_EH_PE_uleb128, DW_EH_PE_uleb128] [DWARF_DISPLAY_REGISTER, DWARF_DISPLAY_REGISTER],
     CfaInfo ''DW_CFA_remember_state'' 2 0 [] [],
     CfaInfo ''DW_CFA_restore_state'' 2 0 [] [],
     CfaInfo ''DW_CFA_def_cfa'' 2 2 [DW_EH_PE_uleb128, DW_EH_PE_uleb128] [DWARF_DISPLAY_REGISTER, DWARF_DISPLAY_NUMBER],
     CfaInfo ''DW_CFA_def_cfa_register'' 2 1 [DW_EH_PE_uleb128] [DWARF_DISPLAY_REGISTER],
     CfaInfo ''DW_CFA_def_cfa_offset'' 2 1 [DW_EH_PE_uleb128] [DWARF_DISPLAY_NUMBER],
     CfaInfo ''DW_CFA_def_cfa_expression'' 2 1 [DW_EH_PE_block] [DWARF_DISPLAY_EVAL_BLOCK],
     CfaInfo ''DW_CFA_expression'' 2 2 [DW_EH_PE_uleb128, DW_EH_PE_block] [DWARF_DISPLAY_REGISTER, DWARF_DISPLAY_EVAL_BLOCK],
     CfaInfo ''DW_CFA_offset_extended_sf'' 2 2 [DW_EH_PE_uleb128, DW_EH_PE_sleb128] [DWARF_DISPLAY_REGISTER, DWARF_DISPLAY_SIGNED_NUMBER],
     CfaInfo ''DW_CFA_def_cfa_sf'' 2 2 [DW_EH_PE_uleb128, DW_EH_PE_sleb128] [DWARF_DISPLAY_REGISTER, DWARF_DISPLAY_SIGNED_NUMBER],
     CfaInfo ''DW_CFA_def_cfa_offset_sf'' 2 1 [DW_EH_PE_sleb128] [DWARF_DISPLAY_SIGNED_NUMBER],
     CfaInfo ''DW_CFA_val_offset'' 2 2 [DW_EH_PE_uleb128, DW_EH_PE_uleb128] [DWARF_DISPLAY_REGISTER, DWARF_DISPLAY_NUMBER],
     CfaInfo ''DW_CFA_val_offset_sf'' 2 2 [DW_EH_PE_uleb128, DW_EH_PE_sleb128] [DWARF_DISPLAY_REGISTER, DWARF_DISPLAY_SIGNED_NUMBER],
     CfaInfo ''DW_CFA_val_expression'' 2 2 [DW_EH_PE_uleb128, DW_EH_PE_block] [DWARF_DISPLAY_REGISTER, DWARF_DISPLAY_EVAL_BLOCK]]"

definition kTable_high :: "CfaInfo list" where
  "kTable_high = [
     illegal_cfa,
     illegal_cfa,
     illegal_cfa,
     illegal_cfa,
     illegal_cfa,
     illegal_cfa,
     illegal_cfa,
     illegal_cfa,
     illegal_cfa,
     illegal_cfa,
     illegal_cfa,
     illegal_cfa,
     illegal_cfa,
     illegal_cfa,
     illegal_cfa,
     illegal_cfa,
     illegal_cfa,
     illegal_cfa,
     illegal_cfa,
     illegal_cfa,
     illegal_cfa,
     illegal_cfa,
     illegal_cfa,
     CfaInfo ''DW_CFA_GNU_args_size'' 2 1 [DW_EH_PE_uleb128] [DWARF_DISPLAY_NUMBER],
     CfaInfo ''DW_CFA_GNU_negative_offset_extended'' 2 2 [DW_EH_PE_uleb128, DW_EH_PE_uleb128] [DWARF_DISPLAY_REGISTER, DWARF_DISPLAY_NUMBER],
     illegal_cfa,
     illegal_cfa,
     illegal_cfa,
     illegal_cfa,
     illegal_cfa,
     illegal_cfa,
     illegal_cfa,
     illegal_cfa,
     illegal_cfa,
     illegal_cfa,
     illegal_cfa,
     illegal_cfa,
     illegal_cfa,
     illegal_cfa,
     illegal_cfa]"

text \<open>The array has 64 elements but 63 initialisers; the last element is zero.\<close>

definition kTable :: "CfaInfo list" where
  "kTable = kTable_low @ kTable_high @ [illegal_cfa]"

section \<open>State\<close>

record 'w dwarf_cfa =
  cfa_error :: DwarfErrorData
  cfa_memory :: dwarf_memory
  cfa_fde :: DwarfFde
  cfa_cie :: DwarfCie
  cur_pc :: 'w
  cie_loc_regs :: "DwarfLocations option"
  cfa_operands :: "'w list"
  loc_reg_state :: "DwarfLocations list"
  loc_regs :: DwarfLocations
  cfa_log :: "(nat \<times> string) list"

type_synonym ('a, 'r) cfa_prog = "('a word dwarf_cfa, 'r) prog"

text \<open>\<^verbatim>\<open>last_error_\<close> and \<^verbatim>\<open>cur_pc_\<close> are not initialised by the constructor.\<close>

definition DwarfCfa ::
  "dwarf_memory \<Rightarrow> DwarfFde \<Rightarrow> DwarfCie \<Rightarrow> DwarfErrorData \<Rightarrow> 'a::len word \<Rightarrow> DwarfLocations \<Rightarrow> 'a word dwarf_cfa" where
  "DwarfCfa mem fde cie uninit_error uninit_pc lregs =
     \<lparr>cfa_error = uninit_error, cfa_memory = mem, cfa_fde = fde, cfa_cie = cie, cur_pc = uninit_pc,
      cie_loc_regs = None, cfa_operands = [], loc_reg_state = [], loc_regs = lregs, cfa_log = []\<rparr>"

definition set_cie_loc_regs :: "DwarfLocations option \<Rightarrow> 'a::len word dwarf_cfa \<Rightarrow> 'a word dwarf_cfa" where
  "set_cie_loc_regs lregs s = s\<lparr>cie_loc_regs := lregs\<rparr>"

definition cfa_on_memory :: "(dwarf_memory, 'r) prog \<Rightarrow> ('a::len, 'r) cfa_prog" where
  "cfa_on_memory = on_member cfa_memory (\<lambda>m s. s\<lparr>cfa_memory := m\<rparr>)"

definition cfa_set_code :: "DwarfErrorCode \<Rightarrow> 'a::len word dwarf_cfa \<Rightarrow> 'a word dwarf_cfa" where
  "cfa_set_code c s = s\<lparr>cfa_error := (cfa_error s)\<lparr>code := c\<rparr>\<rparr>"

definition cfa_memory_error :: "'a::len word dwarf_cfa \<Rightarrow> 'a word dwarf_cfa" where
  "cfa_memory_error s =
     s\<lparr>cfa_error := \<lparr>code = DWARF_ERROR_MEMORY_INVALID, address = cur_offset (cfa_memory s)\<rparr>\<rparr>"

text \<open>\<^verbatim>\<open>log(indent, ...)\<close>.\<close>

definition log_line :: "nat \<Rightarrow> string \<Rightarrow> ('a::len, unit) cfa_prog" where
  "log_line indent line = modify (\<lambda>s. s\<lparr>cfa_log := cfa_log s @ [(indent, line)]\<rparr>)"

definition cfa_operand :: "nat \<Rightarrow> ('a::len, 'a word) cfa_prog" where
  "cfa_operand i = (\<lambda>s.
     if i < length (cfa_operands s) then (Ok (cfa_operands s ! i), s) else (Crash Undefined, s))"

text \<open>\<^verbatim>\<open>(*loc_regs)[reg] = ...\<close> and \<^verbatim>\<open>loc_regs->erase(reg)\<close>.\<close>

definition set_loc :: "u32 \<Rightarrow> DwarfLocation \<Rightarrow> ('a::len, unit) cfa_prog" where
  "set_loc reg loc =
     modify (\<lambda>s. s\<lparr>loc_regs := (loc_regs s)\<lparr>locs := AList.update reg loc (locs (loc_regs s))\<rparr>\<rparr>)"

definition erase_loc :: "u32 \<Rightarrow> ('a::len, unit) cfa_prog" where
  "erase_loc reg =
     modify (\<lambda>s. s\<lparr>loc_regs := (loc_regs s)\<lparr>locs := AList.delete reg (locs (loc_regs s))\<rparr>\<rparr>)"

abbreviation location :: "DwarfLocationEnum \<Rightarrow> u64 \<Rightarrow> u64 \<Rightarrow> DwarfLocation" where
  "location ty v0 v1 \<equiv> \<lparr>loc_type = ty, value0 = v0, value1 = v1\<rparr>"

text \<open>
  \<^verbatim>\<open>static_cast<uint64_t>(static_cast<SignedType>(v) * data_alignment_factor)\<close>: the product is an
  \<^verbatim>\<open>int64_t\<close>, whose overflow is undefined, and it is narrowed to \<^verbatim>\<open>SignedType\<close>.
\<close>

definition scaled :: "'a::len word \<Rightarrow> ('a, u64) cfa_prog" where
  "scaled v = (\<lambda>s.
     let p = sint v * sint (data_alignment_factor (cfa_cie s)) in
     if - (2 ^ 63) \<le> p \<and> p < 2 ^ 63 then (Ok (scast (of_int p :: 'a word)), s)
     else (Crash Undefined, s))"

section \<open>Instructions\<close>

definition cfa_nop :: "('a::len, unit) cfa_prog" where
  "cfa_nop = ret ()"

definition cfa_set_loc :: "('a::len, unit) cfa_prog" where
  "cfa_set_loc =
     bnd (gets cur_pc) (\<lambda>old_pc.
     bnd (cfa_operand 0) (\<lambda>new_pc.
     bnd (if new_pc < old_pc
          then log_line 0 (''Warning: PC is moving backwards: old 0x'' @ hex (unat old_pc) @
            '' new 0x'' @ hex (unat new_pc))
          else ret ()) (\<lambda>_.
     modify (\<lambda>s. s\<lparr>cur_pc := new_pc\<rparr>))))"

text \<open>\<^verbatim>\<open>cur_pc_ += delta * code_alignment_factor\<close>, computed with 64 bits and narrowed.\<close>

definition advance_pc :: "u64 \<Rightarrow> ('a::len, unit) cfa_prog" where
  "advance_pc delta =
     modify (\<lambda>s. s\<lparr>cur_pc := ucast (ucast (cur_pc s) + delta * code_alignment_factor (cfa_cie s) :: u64)\<rparr>)"

definition cfa_advance_loc :: "('a::len, unit) cfa_prog" where
  "cfa_advance_loc = bnd (cfa_operand 0) (\<lambda>delta. advance_pc (ucast delta))"

definition cfa_offset :: "('a::len, unit) cfa_prog" where
  "cfa_offset =
     bnd (cfa_operand 0) (\<lambda>reg.
     bnd (cfa_operand 1) (\<lambda>off.
     set_loc (ucast reg) (location DWARF_LOCATION_OFFSET (ucast off) 0)))"

text \<open>Restoring a register to its rule in the CIE, for \<^verbatim>\<open>DW_CFA_restore\<close> and \<^verbatim>\<open>DW_CFA_restore_extended\<close>.\<close>

definition restore_reg :: "u32 \<Rightarrow> ('a::len, unit) cfa_prog" where
  "restore_reg reg =
     bnd (gets cie_loc_regs) (\<lambda>lregs.
     case lregs of
       None \<Rightarrow>
         bnd (log_line 0 ''restore while processing cie'') (\<lambda>_.
         fail_with (cfa_set_code DWARF_ERROR_ILLEGAL_STATE))
     | Some cie_regs \<Rightarrow>
         (case map_of (locs cie_regs) reg of
            None \<Rightarrow> erase_loc reg
          | Some loc \<Rightarrow> set_loc reg loc))"

definition cfa_restore :: "('a::len, unit) cfa_prog" where
  "cfa_restore = bnd (cfa_operand 0) (\<lambda>reg. restore_reg (ucast reg))"

definition cfa_undefined :: "('a::len, unit) cfa_prog" where
  "cfa_undefined =
     bnd (cfa_operand 0) (\<lambda>reg. set_loc (ucast reg) (location DWARF_LOCATION_UNDEFINED 0 0))"

definition cfa_same_value :: "('a::len, unit) cfa_prog" where
  "cfa_same_value = bnd (cfa_operand 0) (\<lambda>reg. erase_loc (ucast reg))"

definition cfa_register :: "('a::len, unit) cfa_prog" where
  "cfa_register =
     bnd (cfa_operand 0) (\<lambda>reg.
     bnd (cfa_operand 1) (\<lambda>reg_dst.
     set_loc (ucast reg) (location DWARF_LOCATION_REGISTER (ucast reg_dst) 0)))"

definition cfa_remember_state :: "('a::len, unit) cfa_prog" where
  "cfa_remember_state = modify (\<lambda>s. s\<lparr>loc_reg_state := loc_regs s # loc_reg_state s\<rparr>)"

definition cfa_restore_state :: "('a::len, unit) cfa_prog" where
  "cfa_restore_state =
     bnd (gets loc_reg_state) (\<lambda>st.
     case st of
       [] \<Rightarrow> log_line 0 ''Warning: Attempt to restore without remember.''
     | saved # rest \<Rightarrow> modify (\<lambda>s. s\<lparr>loc_regs := saved, loc_reg_state := rest\<rparr>))"

definition cfa_def_cfa :: "('a::len, unit) cfa_prog" where
  "cfa_def_cfa =
     bnd (cfa_operand 0) (\<lambda>reg.
     bnd (cfa_operand 1) (\<lambda>off.
     set_loc CFA_REG (location DWARF_LOCATION_REGISTER (ucast reg) (ucast off))))"

text \<open>The CFA rule, if it is a register rule, for the instructions that change a part of it.\<close>

definition cfa_register_rule :: "string \<Rightarrow> ('a::len, DwarfLocation) cfa_prog" where
  "cfa_register_rule message =
     bnd (gets (\<lambda>s. map_of (locs (loc_regs s)) CFA_REG)) (\<lambda>cfa_location.
     case cfa_location of
       Some loc \<Rightarrow>
         if loc_type loc = DWARF_LOCATION_REGISTER then ret loc
         else bnd (log_line 0 message) (\<lambda>_. fail_with (cfa_set_code DWARF_ERROR_ILLEGAL_STATE))
     | None \<Rightarrow> bnd (log_line 0 message) (\<lambda>_. fail_with (cfa_set_code DWARF_ERROR_ILLEGAL_STATE)))"

definition cfa_def_cfa_register :: "('a::len, unit) cfa_prog" where
  "cfa_def_cfa_register =
     bnd (cfa_register_rule ''Attempt to set new register, but cfa is not already set to a register.'') (\<lambda>loc.
     bnd (cfa_operand 0) (\<lambda>reg.
     set_loc CFA_REG (loc\<lparr>value0 := ucast reg\<rparr>)))"

definition cfa_def_cfa_offset :: "('a::len, unit) cfa_prog" where
  "cfa_def_cfa_offset =
     bnd (cfa_register_rule ''Attempt to set offset, but cfa is not set to a register.'') (\<lambda>loc.
     bnd (cfa_operand 0) (\<lambda>off.
     set_loc CFA_REG (loc\<lparr>value1 := ucast off\<rparr>)))"

definition cfa_def_cfa_expression :: "('a::len, unit) cfa_prog" where
  "cfa_def_cfa_expression =
     bnd (cfa_operand 0) (\<lambda>len.
     bnd (gets (\<lambda>s. cur_offset (cfa_memory s))) (\<lambda>off.
     set_loc CFA_REG (location DWARF_LOCATION_VAL_EXPRESSION (ucast len) off)))"

definition cfa_expression :: "('a::len, unit) cfa_prog" where
  "cfa_expression =
     bnd (cfa_operand 0) (\<lambda>reg.
     bnd (cfa_operand 1) (\<lambda>len.
     bnd (gets (\<lambda>s. cur_offset (cfa_memory s))) (\<lambda>off.
     set_loc (ucast reg) (location DWARF_LOCATION_EXPRESSION (ucast len) off))))"

definition cfa_offset_extended_sf :: "('a::len, unit) cfa_prog" where
  "cfa_offset_extended_sf =
     bnd (cfa_operand 0) (\<lambda>reg.
     bnd (cfa_operand 1) (\<lambda>k.
     bnd (scaled k) (\<lambda>v.
     set_loc (ucast reg) (location DWARF_LOCATION_OFFSET v 0))))"

definition cfa_def_cfa_sf :: "('a::len, unit) cfa_prog" where
  "cfa_def_cfa_sf =
     bnd (cfa_operand 1) (\<lambda>k.
     bnd (scaled k) (\<lambda>v.
     bnd (cfa_operand 0) (\<lambda>reg.
     set_loc CFA_REG (location DWARF_LOCATION_REGISTER (ucast reg) v))))"

definition cfa_def_cfa_offset_sf :: "('a::len, unit) cfa_prog" where
  "cfa_def_cfa_offset_sf =
     bnd (cfa_register_rule ''Attempt to set offset, but cfa is not set to a register.'') (\<lambda>loc.
     bnd (cfa_operand 0) (\<lambda>k.
     bnd (scaled k) (\<lambda>v.
     set_loc CFA_REG (loc\<lparr>value1 := v\<rparr>))))"

definition cfa_val_offset :: "('a::len, unit) cfa_prog" where
  "cfa_val_offset =
     bnd (cfa_operand 0) (\<lambda>reg.
     bnd (cfa_operand 1) (\<lambda>k.
     bnd (scaled k) (\<lambda>v.
     set_loc (ucast reg) (location DWARF_LOCATION_VAL_OFFSET v 0))))"

definition cfa_val_offset_sf :: "('a::len, unit) cfa_prog" where
  "cfa_val_offset_sf =
     bnd (cfa_operand 0) (\<lambda>reg.
     bnd (cfa_operand 1) (\<lambda>k.
     bnd (scaled k) (\<lambda>v.
     set_loc (ucast reg) (location DWARF_LOCATION_VAL_OFFSET v 0))))"

definition cfa_val_expression :: "('a::len, unit) cfa_prog" where
  "cfa_val_expression =
     bnd (cfa_operand 0) (\<lambda>reg.
     bnd (cfa_operand 1) (\<lambda>len.
     bnd (gets (\<lambda>s. cur_offset (cfa_memory s))) (\<lambda>off.
     set_loc (ucast reg) (location DWARF_LOCATION_VAL_EXPRESSION (ucast len) off))))"

text \<open>The negation of the least \<^verbatim>\<open>SignedType\<close> overflows, which is undefined.\<close>

definition cfa_gnu_negative_offset_extended :: "('a::len, unit) cfa_prog" where
  "cfa_gnu_negative_offset_extended =
     bnd (cfa_operand 0) (\<lambda>reg.
     bnd (cfa_operand 1) (\<lambda>k.
     if k = min_signed then crash Undefined
     else set_loc (ucast reg) (location DWARF_LOCATION_OFFSET (scast (- k)) 0)))"

definition kCfaCallbackTable :: "('a::len, unit) cfa_prog option list" where
  "kCfaCallbackTable = [
     Some cfa_nop, Some cfa_set_loc, Some cfa_advance_loc, Some cfa_advance_loc,
     Some cfa_advance_loc, Some cfa_offset, Some cfa_restore, Some cfa_undefined,
     Some cfa_same_value, Some cfa_register, Some cfa_remember_state, Some cfa_restore_state,
     Some cfa_def_cfa, Some cfa_def_cfa_register, Some cfa_def_cfa_offset, Some cfa_def_cfa_expression,
     Some cfa_expression, Some cfa_offset_extended_sf, Some cfa_def_cfa_sf, Some cfa_def_cfa_offset_sf,
     Some cfa_val_offset, Some cfa_val_offset_sf, Some cfa_val_expression, None,
     None, None, None, None,
     None, None, None, None,
     None, None, None, None,
     None, None, None, None,
     None, None, None, None,
     None, None, Some cfa_nop, Some cfa_gnu_negative_offset_extended,
     None, None, None, None,
     None, None, None, None,
     None, None, None, None,
     None, None, None, None]"

section \<open>Interpretation\<close>

fun cfa_read_operands :: "u8 list \<Rightarrow> ('a::len, unit) cfa_prog" where
  "cfa_read_operands [] = ret ()"
| "cfa_read_operands (e # es) =
     bnd (if e = DW_EH_PE_block then
            bnd (on_fail (cfa_on_memory ReadULEB128) cfa_memory_error) (\<lambda>block_length.
            bnd (modify (\<lambda>s. s\<lparr>cfa_operands := cfa_operands s @ [ucast block_length]\<rparr>)) (\<lambda>_.
            bnd (gets (\<lambda>s. cur_offset (cfa_memory s))) (\<lambda>off.
            cfa_on_memory (set_cur_offset (off + block_length)))))
          else
            bnd (on_fail (cfa_on_memory (ReadEncodedValue TYPE('a) e)) cfa_memory_error) (\<lambda>value.
            modify (\<lambda>s. s\<lparr>cfa_operands := cfa_operands s @ [ucast value]\<rparr>))) (\<lambda>_.
     cfa_read_operands es)"

text \<open>
  One iteration of the loop of \<^verbatim>\<open>GetLocationInfo\<close>, after the two checks for the end: \<open>cfa_dispatch\<close> is
  the switch on the two high bits of the opcode.
\<close>

definition cfa_dispatch :: "u8 \<Rightarrow> ('a::len, unit) cfa_prog" where
  "cfa_dispatch cfa_value =
     (let cfa_low = cfa_value AND 0x3f; high = unat (drop_bit 6 cfa_value) in
      if high = 1 then advance_pc (ucast cfa_low)
      else if high = 2 then
        bnd (on_fail (cfa_on_memory ReadULEB128) cfa_memory_error) (\<lambda>offset.
        bnd (scaled (ucast offset)) (\<lambda>v.
        set_loc (ucast cfa_low) (location DWARF_LOCATION_OFFSET v 0)))
      else if high = 3 then restore_reg (ucast cfa_low)
      else
        case kCfaCallbackTable ! unat cfa_low of
          None \<Rightarrow> fail_with (cfa_set_code DWARF_ERROR_ILLEGAL_VALUE)
        | Some handle_cfa \<Rightarrow>
            bnd (cfa_read_operands (take (cfa_num_operands (kTable ! unat cfa_low))
              (cfa_operand_encodings (kTable ! unat cfa_low)))) (\<lambda>_.
            handle_cfa))"

definition cfa_step :: "('a::len, unit) cfa_prog" where
  "cfa_step =
     bnd (modify (\<lambda>s. s\<lparr>loc_regs := (loc_regs s)\<lparr>pc_start := ucast (cur_pc s)\<rparr>, cfa_operands := []\<rparr>)) (\<lambda>_.
     bnd (on_fail (cfa_on_memory (ReadBytes 1)) cfa_memory_error) (\<lambda>bs.
     cfa_dispatch (hd bs)))"

text \<open>
  The loop. An expression block may move the cursor backwards, so that the loop need not end; the
  fuel bounds the number of instructions.
\<close>

fun GetLocationInfo_loop :: "nat \<Rightarrow> u64 \<Rightarrow> u64 \<Rightarrow> ('a::len, unit) cfa_prog" where
  "GetLocationInfo_loop fuel pc end_offset = (\<lambda>s.
     if ucast (cur_pc s) > pc
     then (Ok (), s\<lparr>loc_regs := (loc_regs s)\<lparr>pc_end := ucast (cur_pc s)\<rparr>\<rparr>)
     else if cur_offset (cfa_memory s) \<ge> end_offset
     then (Ok (), s\<lparr>loc_regs := (loc_regs s)\<lparr>pc_end := fde_pc_end (cfa_fde s)\<rparr>\<rparr>)
     else
       case fuel of
         0 \<Rightarrow> (Crash OutOfFuel, s)
       | Suc fuel' \<Rightarrow> bnd cfa_step (\<lambda>_. GetLocationInfo_loop fuel' pc end_offset) s)"

definition copy_locs :: "DwarfLocations option \<Rightarrow> DwarfLocations \<Rightarrow> DwarfLocations" where
  "copy_locs cie_regs lregs =
     (case cie_regs of
        None \<Rightarrow> lregs
      | Some cie \<Rightarrow> lregs\<lparr>locs := fold (\<lambda>(reg, loc). AList.update reg loc) (locs cie) (locs lregs)\<rparr>)"

definition GetLocationInfo :: "nat \<Rightarrow> u64 \<Rightarrow> u64 \<Rightarrow> u64 \<Rightarrow> ('a::len, unit) cfa_prog" where
  "GetLocationInfo fuel pc start_offset end_offset =
     bnd (modify (\<lambda>s. s\<lparr>loc_regs := copy_locs (cie_loc_regs s) (loc_regs s),
                        cfa_error := \<lparr>code = DWARF_ERROR_NONE, address = 0\<rparr>\<rparr>)) (\<lambda>_.
     bnd (cfa_on_memory (set_cur_offset start_offset)) (\<lambda>_.
     bnd (modify (\<lambda>s. s\<lparr>cur_pc := ucast (fde_pc_start (cfa_fde s))\<rparr>)) (\<lambda>_.
     bnd (modify (\<lambda>s. s\<lparr>loc_regs := (loc_regs s)\<lparr>pc_start := ucast (cur_pc s)\<rparr>\<rparr>)) (\<lambda>_.
     GetLocationInfo_loop fuel pc end_offset))))"

section \<open>Disassembly\<close>

text \<open>The string for an operand and the new value of \<^verbatim>\<open>*cur_pc\<close>.\<close>

definition GetOperandString :: "'a::len itself \<Rightarrow> DisplayType \<Rightarrow> u64 \<Rightarrow> u64 \<Rightarrow> string \<times> u64" where
  "GetOperandString ty operand value pc =
     (let addr = '' 0x'' @ (if LENGTH('a) = 32 then hex (unat (ucast value :: u32)) else hex (unat value)) in
      case operand of
        DWARF_DISPLAY_REGISTER \<Rightarrow> ('' register('' @ dec (unat value) @ '')'', pc)
      | DWARF_DISPLAY_SIGNED_NUMBER \<Rightarrow> ('' '' @ sdec (sint (ucast value :: 'a word)), pc)
      | DWARF_DISPLAY_ADVANCE_LOC \<Rightarrow> ('' '' @ dec (unat value), pc + value)
      | DWARF_DISPLAY_NUMBER \<Rightarrow> ('' '' @ dec (unat value), pc)
      | DWARF_DISPLAY_SET_LOC \<Rightarrow> (addr, value)
      | DWARF_DISPLAY_ADDRESS \<Rightarrow> (addr, pc)
      | _ \<Rightarrow> ('' unknown'', pc))"

definition LogOffsetRegisterString :: "nat \<Rightarrow> u64 \<Rightarrow> u8 \<Rightarrow> ('a::len, unit) cfa_prog" where
  "LogOffsetRegisterString indent cfa_start reg =
     bnd (cfa_on_memory ReadULEB128) (\<lambda>offset.
     bnd (gets (\<lambda>s. cur_offset (cfa_memory s))) (\<lambda>end_offset.
     bnd (cfa_on_memory (set_cur_offset cfa_start)) (\<lambda>_.
     bnd (cfa_on_memory (LogRawBytes (unat end_offset - unat cfa_start) ''Raw Data:'')) (\<lambda>raw_data.
     bnd (log_line indent (''DW_CFA_offset register('' @ dec (unat reg) @ '') '' @ sdec (sint offset))) (\<lambda>_.
     log_line indent raw_data)))))"

text \<open>The loop over the operands: log string, expression lines and pc so far.\<close>

fun LogCfaOperands ::
  "nat \<Rightarrow> (u8 \<times> DisplayType) list \<Rightarrow> string \<times> string list \<times> u64 \<Rightarrow>
   ('a::len, string \<times> string list \<times> u64) cfa_prog" where
  "LogCfaOperands fuel [] acc = ret acc"
| "LogCfaOperands fuel ((e, display) # ops) (log_string, lines, pc) =
     (if e = DW_EH_PE_block then
        bnd (cfa_on_memory ReadULEB128) (\<lambda>len.
        bnd (gets (\<lambda>s. cur_offset (cfa_memory s))) (\<lambda>off.
        bnd (cfa_on_memory (GetLogInfo fuel TYPE('a) off (len + off))) (\<lambda>new_lines.
        bnd (cfa_on_memory (set_cur_offset (len + off))) (\<lambda>_.
        LogCfaOperands fuel ops (log_string @ '' '' @ dec (unat len), lines @ new_lines, pc)))))
      else
        bnd (cfa_on_memory (ReadEncodedValue TYPE('a) e)) (\<lambda>value.
        let (str, pc') = GetOperandString TYPE('a) display value pc in
        LogCfaOperands fuel ops (log_string @ str, lines, pc')))"

text \<open>The raw bytes, ten to a line.\<close>

fun LogRawLines :: "nat \<Rightarrow> nat \<Rightarrow> nat \<Rightarrow> string \<Rightarrow> ('a::len, string) cfa_prog" where
  "LogRawLines indent 0 i raw_data = ret raw_data"
| "LogRawLines indent (Suc n) i raw_data =
     bnd (cfa_on_memory (ReadBytes 1)) (\<lambda>bs.
     bnd (if i mod 10 = 0 \<and> i \<noteq> 0 then bnd (log_line indent raw_data) (\<lambda>_. ret []) else ret raw_data) (\<lambda>raw.
     LogRawLines indent n (Suc i)
       ((if raw = [] then ''Raw Data:'' else raw) @ '' 0x'' @ pad0 2 (hex (unat (hd bs))))))"

fun log_lines :: "nat \<Rightarrow> string list \<Rightarrow> ('a::len, unit) cfa_prog" where
  "log_lines indent [] = ret ()"
| "log_lines indent (l # ls) = bnd (log_line indent l) (\<lambda>_. log_lines indent ls)"

definition LogInstruction :: "nat \<Rightarrow> nat \<Rightarrow> u64 \<Rightarrow> u8 \<Rightarrow> u64 \<Rightarrow> ('a::len, u64) cfa_prog" where
  "LogInstruction fuel indent cfa_start op pc =
     (let cfa = kTable ! unat op in
      if cfa_name cfa = [] then
        bnd (log_line indent ''Illegal'') (\<lambda>_.
        bnd (log_line indent (''Raw Data: 0x'' @ pad0 2 (hex (unat op)))) (\<lambda>_.
        ret pc))
      else
        bnd (LogCfaOperands fuel
               (take (cfa_num_operands cfa) (zip (cfa_operand_encodings cfa) (display_operands cfa)))
               (cfa_name cfa, [], pc)) (\<lambda>(log_string, expression_lines, pc').
        bnd (log_line indent log_string) (\<lambda>_.
        bnd (gets (\<lambda>s. cur_offset (cfa_memory s))) (\<lambda>end_offset.
        bnd (cfa_on_memory (set_cur_offset cfa_start)) (\<lambda>_.
        bnd (LogRawLines indent (unat (end_offset - cfa_start)) 0 ''Raw Data:'') (\<lambda>raw_data.
        bnd (if raw_data \<noteq> [] then log_line indent raw_data else ret ()) (\<lambda>_.
        bnd (log_lines (indent + 1) expression_lines) (\<lambda>_.
        ret pc'))))))))"

fun Log_loop :: "nat \<Rightarrow> nat \<Rightarrow> u64 \<Rightarrow> u64 \<Rightarrow> u64 \<Rightarrow> u64 \<Rightarrow> ('a::len, unit) cfa_prog" where
  "Log_loop fuel indent pc end_offset cur old =
     bnd (gets (\<lambda>s. cur_offset (cfa_memory s))) (\<lambda>cfa_start.
     if cfa_start < end_offset \<and> cur \<le> pc then
       case fuel of
         0 \<Rightarrow> crash OutOfFuel
       | Suc fuel' \<Rightarrow>
           bnd (cfa_on_memory (ReadBytes 1)) (\<lambda>bs.
           bnd (let cfa_value = hd bs; cfa_low = cfa_value AND 0x3f; high = unat (drop_bit 6 cfa_value);
                    raw = log_line indent (''Raw Data: 0x'' @ pad0 2 (hex (unat cfa_value))) in
                if high = 0 then LogInstruction fuel indent cfa_start cfa_low cur
                else if high = 1 then
                  bnd (log_line indent (''DW_CFA_advance_loc '' @ dec (unat cfa_low))) (\<lambda>_.
                  bnd raw (\<lambda>_.
                  bnd (gets (\<lambda>s. code_alignment_factor (cfa_cie s))) (\<lambda>factor.
                  ret (cur + ucast cfa_low * factor))))
                else if high = 2 then
                  bnd (LogOffsetRegisterString indent cfa_start cfa_low) (\<lambda>_. ret cur)
                else
                  bnd (log_line indent (''DW_CFA_restore register('' @ dec (unat cfa_low) @ '')'')) (\<lambda>_.
                  bnd raw (\<lambda>_.
                  ret cur))) (\<lambda>cur'.
           bnd (if cur' \<noteq> old
                then bnd (log_line 0 []) (\<lambda>_. log_line indent (''PC 0x'' @ hex (unat cur')))
                else ret ()) (\<lambda>_.
           Log_loop fuel' indent pc end_offset cur' cur')))
     else ret ())"

definition Log :: "nat \<Rightarrow> nat \<Rightarrow> u64 \<Rightarrow> u64 \<Rightarrow> u64 \<Rightarrow> ('a::len, unit) cfa_prog" where
  "Log fuel indent pc start_offset end_offset =
     bnd (cfa_on_memory (set_cur_offset start_offset)) (\<lambda>_.
     bnd (gets (\<lambda>s. fde_pc_start (cfa_fde s))) (\<lambda>start_pc.
     Log_loop fuel indent pc end_offset start_pc start_pc))"

declare GetLocationInfo_loop.simps [simp del] Log_loop.simps [simp del]

end
