(* ===== verification/Dwarf_Cfa_Rows.thy ===== *)
theory Dwarf_Cfa_Rows
  imports Dwarf_Cfa Dwarf_Op_Eval
begin

text \<open>
  Results on the interpreter of call frame instructions. A successful \<^verbatim>\<open>GetLocationInfo\<close> reports the
  row of the unwind table that covers the pc, the error codes tell why it failed, the reported
  interval is one on which the rules do not change. An example shows where the reported interval is too
  large.
\<close>

section \<open>Invariants of the instructions\<close>

lemmas cfa_instr_defs =
  cfa_nop_def cfa_set_loc_def cfa_advance_loc_def cfa_offset_def cfa_restore_def cfa_undefined_def
  cfa_same_value_def cfa_register_def cfa_remember_state_def cfa_restore_state_def cfa_def_cfa_def
  cfa_def_cfa_register_def cfa_def_cfa_offset_def cfa_def_cfa_expression_def cfa_expression_def
  cfa_offset_extended_sf_def cfa_def_cfa_sf_def cfa_def_cfa_offset_sf_def cfa_val_offset_def
  cfa_val_offset_sf_def cfa_val_expression_def cfa_gnu_negative_offset_extended_def

lemma unat_cfa_low: "unat (b AND 0x3f :: u8) = unat b mod 64"
  using unat_and_mask [of b 6] by (simp add: mask_eq_exp_minus_1)

lemma unat_cfa_high: "unat (drop_bit 6 b :: u8) = unat b div 64"
  by (simp only: unat_drop_bit_eq) (simp add: drop_bit_eq_div)

lemma unat_u8_less: "unat (b :: u8) < 256"
  using unsigned_less [of b, where 'a = nat] by simp

lemma maintains_case_list [maintain]:
  "(xs = [] \<Longrightarrow> maintains P E p) \<Longrightarrow> (\<And>y ys. xs = y # ys \<Longrightarrow> maintains P E (q y ys)) \<Longrightarrow>
     maintains P E (case xs of [] \<Rightarrow> p | y # ys \<Rightarrow> q y ys)"
  by (cases xs) simp_all

lemma maintains_operand [maintain]: "maintains P E (cfa_operand i)" "maintains P E (scaled v)"
  by (simp_all add: maintains_def cfa_operand_def scaled_def Let_def)

text \<open>
  What a property of the state must allow for all instructions except \<^verbatim>\<open>DW_CFA_restore_state\<close> to
  maintain it: it does not look at the rules, the pc and the log.
\<close>

definition cfa_stable :: "('a::len word dwarf_cfa \<Rightarrow> bool) \<Rightarrow> ('a word dwarf_cfa \<Rightarrow> bool) \<Rightarrow> bool" where
  "cfa_stable P E \<longleftrightarrow>
     (\<forall>s. P s \<longrightarrow>
        (\<forall>lines. P (s\<lparr>cfa_log := lines\<rparr>)) \<and> (\<forall>pc. P (s\<lparr>cur_pc := pc\<rparr>)) \<and>
        (\<forall>mem. P (s\<lparr>cfa_memory := mem\<rparr>)) \<and> (\<forall>ops. P (s\<lparr>cfa_operands := ops\<rparr>)) \<and>
        (\<forall>ls. P (s\<lparr>loc_regs := (loc_regs s)\<lparr>locs := ls\<rparr>\<rparr>)) \<and>
        P (s\<lparr>loc_reg_state := loc_regs s # loc_reg_state s\<rparr>) \<and>
        E (cfa_set_code DWARF_ERROR_ILLEGAL_STATE s) \<and>
        E (cfa_set_code DWARF_ERROR_ILLEGAL_VALUE s) \<and> E (cfa_memory_error s))"

lemma cfa_stableD:
  assumes "cfa_stable P E" and "P s"
  shows "P (s\<lparr>cfa_log := lines\<rparr>)" "P (s\<lparr>cur_pc := pc\<rparr>)" "P (s\<lparr>cfa_memory := mem\<rparr>)"
    "P (s\<lparr>cfa_operands := ops\<rparr>)" "P (s\<lparr>loc_regs := (loc_regs s)\<lparr>locs := ls\<rparr>\<rparr>)"
    "P (s\<lparr>loc_reg_state := loc_regs s # loc_reg_state s\<rparr>)"
    "E (cfa_set_code DWARF_ERROR_ILLEGAL_STATE s)" "E (cfa_set_code DWARF_ERROR_ILLEGAL_VALUE s)"
    "E (cfa_memory_error s)"
  using assms by (simp_all add: cfa_stable_def)

lemma maintains_updates:
  assumes "cfa_stable P E"
  shows "maintains P E (log_line i l)" "maintains P E (set_loc r loc)" "maintains P E (erase_loc r)"
    "maintains P E (advance_pc d)"
  unfolding log_line_def set_loc_def erase_loc_def advance_pc_def
  by (intro maintains_modify cfa_stableD(1,2,5) [OF assms]; assumption)+

lemma maintains_reads:
  assumes "cfa_stable P E"
  shows "maintains P E (cfa_on_memory (set_cur_offset off))"
    "maintains P E (on_fail (cfa_on_memory p) cfa_memory_error)"
  using cfa_stableD [OF assms]
  by (auto simp: maintains_def cfa_on_memory_def on_member_def on_fail_def set_cur_offset_def
      split: prod.splits outcome.splits)

lemma maintains_shared:
  assumes "cfa_stable P E"
  shows "maintains P E (restore_reg reg)" "maintains P E (cfa_register_rule msg)"
  unfolding restore_reg_def cfa_register_rule_def
  by (intro maintain maintains_updates [OF assms] cfa_stableD(7) [OF assms]; assumption)+

lemma maintains_instructions:
  assumes "cfa_stable P E"
  shows "maintains P E cfa_nop" "maintains P E cfa_set_loc" "maintains P E cfa_advance_loc"
    "maintains P E cfa_offset" "maintains P E cfa_restore" "maintains P E cfa_undefined"
    "maintains P E cfa_same_value" "maintains P E cfa_register" "maintains P E cfa_remember_state"
    "maintains P E cfa_def_cfa" "maintains P E cfa_def_cfa_register" "maintains P E cfa_def_cfa_offset"
    "maintains P E cfa_def_cfa_expression" "maintains P E cfa_expression"
    "maintains P E cfa_offset_extended_sf" "maintains P E cfa_def_cfa_sf"
    "maintains P E cfa_def_cfa_offset_sf" "maintains P E cfa_val_offset" "maintains P E cfa_val_offset_sf"
    "maintains P E cfa_val_expression" "maintains P E cfa_gnu_negative_offset_extended"
  unfolding cfa_instr_defs
  by (intro maintain maintains_updates [OF assms] maintains_shared [OF assms]
      cfa_stableD(2,6) [OF assms]; assumption)+

lemma maintains_restore_state:
  assumes "cfa_stable P E"
    and "\<And>s ls rest. P s \<Longrightarrow> loc_reg_state s = ls # rest \<Longrightarrow> P (s\<lparr>loc_regs := ls, loc_reg_state := rest\<rparr>)"
  shows "maintains P E cfa_restore_state"
  using assms(2) cfa_stableD(1) [OF assms(1)]
  by (auto simp: maintains_def cfa_restore_state_def log_line_def split: list.splits)

lemma maintains_table:
  fixes P :: "'a::len word dwarf_cfa \<Rightarrow> bool"
  assumes "cfa_stable P E" and "kCfaCallbackTable ! n = Some p" and "n < 64"
    and "n = 0x0b \<Longrightarrow> maintains P E cfa_restore_state"
  shows "maintains P E p"
proof -
  have "list_all (\<lambda>(i, h). i = 0x0b \<or> (case h of None \<Rightarrow> True | Some p \<Rightarrow> maintains P E p))
      (enumerate 0 (kCfaCallbackTable :: ('a, unit) cfa_prog option list))"
    by (simp add: kCfaCallbackTable_def maintains_instructions [OF assms(1)])
  moreover have "kCfaCallbackTable ! 0x0b = Some (cfa_restore_state :: ('a, unit) cfa_prog)"
    "length (kCfaCallbackTable :: ('a, unit) cfa_prog option list) = 64"
    by (simp_all add: kCfaCallbackTable_def)
  ultimately show ?thesis
    using assms(2-4) by (auto simp: list_all_length nth_enumerate_eq)
qed

lemma maintains_read_operands: "cfa_stable P E \<Longrightarrow> maintains P E (cfa_read_operands es)"
  for P :: "'a::len word dwarf_cfa \<Rightarrow> bool"
proof (induction es)
  case (Cons e es)
  note st = Cons.prems
  show ?case
    unfolding cfa_read_operands.simps
    by (intro maintain maintains_reads [OF st] cfa_stableD(4) [OF st] Cons.IH [OF st]; assumption?)
qed (simp add: maintain)

text \<open>The state at the start of a step, with the start of the row recorded.\<close>

definition row_started :: "'a::len word dwarf_cfa \<Rightarrow> 'a word dwarf_cfa" where
  "row_started s = s\<lparr>loc_regs := (loc_regs s)\<lparr>pc_start := ucast (cur_pc s)\<rparr>, cfa_operands := []\<rparr>"

lemma cfa_step_eq:
  "cfa_step s =
     bnd (on_fail (cfa_on_memory (ReadBytes 1)) cfa_memory_error) (\<lambda>bs. cfa_dispatch (hd bs)) (row_started s)"
  by (simp add: cfa_step_def row_started_def)

lemma maintains_dispatch:
  assumes "cfa_stable P E" and "b = 0x0b \<Longrightarrow> maintains P E cfa_restore_state"
  shows "maintains P E (cfa_dispatch b)"
proof -
  have high: "b = 0x0b" if "unat b div 64 \<noteq> 1" "unat b div 64 \<noteq> 2" "unat b div 64 \<noteq> 3" "unat b mod 64 = 0x0b"
  proof -
    have "unat b div 64 = 0"
      using that(1-3) unat_u8_less [of b] by linarith
    then have "unat b = 0x0b"
      using that(4) by (simp add: div_eq_0_iff)
    then show ?thesis
      by (simp add: word_unat_eq_iff)
  qed
  have "maintains P E p"
    if "kCfaCallbackTable ! unat (b AND 0x3f) = Some p" "unat (drop_bit 6 b) \<noteq> 1" "unat (drop_bit 6 b) \<noteq> 2"
      "unat (drop_bit 6 b) \<noteq> 3" for p
    using that high assms(2) by (intro maintains_table [OF assms(1) that(1)]) (simp_all add: unat_cfa_low unat_cfa_high)
  then show ?thesis
    unfolding cfa_dispatch_def Let_def
    by (intro maintain maintains_updates [OF assms(1)] maintains_reads [OF assms(1)]
        maintains_shared [OF assms(1)] maintains_read_operands [OF assms(1)] cfa_stableD(8) [OF assms(1)];
        assumption?)
qed

lemma cfa_step_maintains:
  assumes "cfa_stable P E" and "maintains P E cfa_restore_state" and "P (row_started s)"
  shows "cfa_step s = (Ok (), t) \<Longrightarrow> P t" "cfa_step s = (Fail, t) \<Longrightarrow> E t"
proof -
  have "maintains P E (bnd (on_fail (cfa_on_memory (ReadBytes 1)) cfa_memory_error) (\<lambda>bs. cfa_dispatch (hd bs)))"
    by (intro maintains_bnd maintains_reads [OF assms(1)] maintains_dispatch [OF assms(1,2)])
  then show "cfa_step s = (Ok (), t) \<Longrightarrow> P t" "cfa_step s = (Fail, t) \<Longrightarrow> E t"
    using assms(3) unfolding cfa_step_eq by (blast intro: maintainsD)+
qed

section \<open>The loop\<close>

definition cfa_entry :: "u64 \<Rightarrow> 'a::len word dwarf_cfa \<Rightarrow> 'a word dwarf_cfa" where
  "cfa_entry start_offset s =
     (let first = ucast (fde_pc_start (cfa_fde s)) in
      s\<lparr>cfa_error := \<lparr>code = DWARF_ERROR_NONE, address = 0\<rparr>,
        cfa_memory := (cfa_memory s)\<lparr>cur_offset := start_offset\<rparr>, cur_pc := first,
        loc_regs := (copy_locs (cie_loc_regs s) (loc_regs s))\<lparr>pc_start := ucast first\<rparr>\<rparr>)"

lemma GetLocationInfo_eq:
  "GetLocationInfo fuel pc start end s = GetLocationInfo_loop fuel pc end (cfa_entry start s)"
  by (cases s) (simp add: GetLocationInfo_def cfa_entry_def Let_def bnd_def cfa_on_memory_def on_member_def
      set_cur_offset_def)

definition row_ended :: "u64 \<Rightarrow> 'a::len word dwarf_cfa \<Rightarrow> 'a word dwarf_cfa" where
  "row_ended e s = s\<lparr>loc_regs := (loc_regs s)\<lparr>pc_end := e\<rparr>\<rparr>"

lemma row_ended_simps [simp]:
  "pc_end (loc_regs (row_ended e s)) = e" "pc_start (loc_regs (row_ended e s)) = pc_start (loc_regs s)"
  "locs (loc_regs (row_ended e s)) = locs (loc_regs s)" "cfa_error (row_ended e s) = cfa_error s"
  by (simp_all add: row_ended_def)

lemma loop_past:
  "pc < ucast (cur_pc s) \<Longrightarrow> GetLocationInfo_loop fuel pc end s = (Ok (), row_ended (ucast (cur_pc s)) s)"
  by (subst GetLocationInfo_loop.simps) (simp add: row_ended_def)

lemma loop_end:
  "\<not> pc < ucast (cur_pc s) \<Longrightarrow> end \<le> cur_offset (cfa_memory s) \<Longrightarrow>
     GetLocationInfo_loop fuel pc end s = (Ok (), row_ended (fde_pc_end (cfa_fde s)) s)"
  by (subst GetLocationInfo_loop.simps) (simp add: row_ended_def)

lemma loop_zero:
  "\<not> pc < ucast (cur_pc s) \<Longrightarrow> \<not> end \<le> cur_offset (cfa_memory s) \<Longrightarrow>
     GetLocationInfo_loop 0 pc end s = (Crash OutOfFuel, s)"
  by (subst GetLocationInfo_loop.simps) simp

lemma loop_step:
  "\<not> pc < ucast (cur_pc s) \<Longrightarrow> \<not> end \<le> cur_offset (cfa_memory s) \<Longrightarrow>
     GetLocationInfo_loop (Suc fuel) pc end s = bnd cfa_step (\<lambda>_. GetLocationInfo_loop fuel pc end) s"
  by (subst GetLocationInfo_loop.simps) simp

lemma loop_invariant:
  assumes run: "GetLocationInfo_loop fuel pc end s = (r, t)" and "P s"
    and step: "\<forall>u v. P u \<and> ucast (cur_pc u) \<le> pc \<and> cfa_step u = (Ok (), v) \<longrightarrow> P v"
  shows "(r = Ok () \<longrightarrow> (\<exists>u e. P u \<and> t = row_ended e u \<and> (pc < e \<or> e = fde_pc_end (cfa_fde u)))) \<and>
    (r = Fail \<longrightarrow> (\<exists>u. P u \<and> ucast (cur_pc u) \<le> pc \<and> cfa_step u = (Fail, t)))"
  using assms(1,2)
proof (induction fuel arbitrary: s)
  case 0
  then show ?case
    by (cases "pc < ucast (cur_pc s)"; cases "end \<le> cur_offset (cfa_memory s)")
      (auto simp: loop_past loop_end loop_zero)
next
  case (Suc fuel)
  consider "pc < ucast (cur_pc s)" | "\<not> pc < ucast (cur_pc s)" "end \<le> cur_offset (cfa_memory s)"
    | "\<not> pc < ucast (cur_pc s)" "\<not> end \<le> cur_offset (cfa_memory s)"
    by blast
  then show ?case
  proof cases
    case 3
    obtain r1 s1 where s1: "cfa_step s = (r1, s1)"
      by (cases "cfa_step s")
    show ?thesis
    proof (cases r1)
      case (Ok x)
      then have "P s1"
        using step Suc.prems(2) 3(1) s1 by (auto simp: not_less)
      then show ?thesis
        using Suc.IH [of s1] Suc.prems(1) 3 s1 Ok by (simp add: loop_step bnd_def)
    qed (use Suc.prems 3 s1 in \<open>auto simp: loop_step bnd_def not_less\<close>)
  qed (use Suc.prems in \<open>auto simp: loop_past loop_end\<close>)
qed

lemma loop_OkE:
  assumes "GetLocationInfo_loop fuel pc end s = (Ok (), t)" and "P s"
    and "\<forall>u v. P u \<and> ucast (cur_pc u) \<le> pc \<and> cfa_step u = (Ok (), v) \<longrightarrow> P v"
  obtains u e where "P u" "t = row_ended e u" "pc < e \<or> e = fde_pc_end (cfa_fde u)"
  using loop_invariant [where P = P, OF assms] by blast

lemma loop_FailE:
  assumes "GetLocationInfo_loop fuel pc end s = (Fail, t)" and "P s"
    and "\<forall>u v. P u \<and> ucast (cur_pc u) \<le> pc \<and> cfa_step u = (Ok (), v) \<longrightarrow> P v"
  obtains u where "P u" "cfa_step u = (Fail, t)"
  using loop_invariant [where P = P, OF assms] by blast

lemma unat_ucast_le: "unat (ucast y :: 'b::len word) \<le> unat (y :: 'a::len word)"
  by (metis unsigned_ucast_eq take_bit_nat_less_eq_self)

lemma ucast_ucast_u64_le: "(ucast (ucast (x :: u64) :: 'a::len word) :: u64) \<le> x"
  unfolding word_le_nat_alt by (rule order_trans [OF unat_ucast_le unat_ucast_le])

lemma GetLocationInfo_covers:
  fixes s :: "'a::len word dwarf_cfa"
  assumes "GetLocationInfo fuel pc start end s = (Ok (), t)"
    and "loc_reg_state s = []" and "fde_pc_start (cfa_fde s) \<le> pc"
  shows "pc_start (loc_regs t) \<le> pc \<and>
    (pc < pc_end (loc_regs t) \<or> pc_end (loc_regs t) = fde_pc_end (cfa_fde s))"
proof -
  let ?P = "\<lambda>u :: 'a word dwarf_cfa. pc_start (loc_regs u) \<le> pc \<and>
    (\<forall>l \<in> set (loc_reg_state u). pc_start l \<le> pc) \<and> cfa_fde u = cfa_fde s"
  have stable: "cfa_stable ?P (\<lambda>_. True)"
    by (simp add: cfa_stable_def)
  have restore: "maintains ?P (\<lambda>_. True) cfa_restore_state"
    by (rule maintains_restore_state [OF stable]) auto
  have step: "\<forall>u v. ?P u \<and> ucast (cur_pc u) \<le> pc \<and> cfa_step u = (Ok (), v) \<longrightarrow> ?P v"
  proof (intro allI impI)
    fix u v
    assume "?P u \<and> ucast (cur_pc u) \<le> pc \<and> cfa_step u = (Ok (), v)"
    then show "?P v"
      by (intro cfa_step_maintains(1) [OF stable restore, of u v]) (simp_all add: row_started_def)
  qed
  have entry: "?P (cfa_entry start s)"
    using assms(2,3) order_trans [OF ucast_ucast_u64_le, of _ pc] by (simp add: cfa_entry_def Let_def)
  obtain u e where "?P u" "t = row_ended e u" "pc < e \<or> e = fde_pc_end (cfa_fde u)"
    by (rule loop_OkE [where P = ?P, OF assms(1) [unfolded GetLocationInfo_eq] entry step])
  then show ?thesis
    by simp
qed

text \<open>
  A row that \<^verbatim>\<open>GetLocationInfo\<close> reports covers the pc: its start is not above the pc, and its end
  is above the pc or is the end of the function. This also holds after \<^verbatim>\<open>DW_CFA_restore_state\<close>, which
  brings back the start of an earlier row.
\<close>

lemma GetLocationInfo_interval:
  fixes s :: "'a::len word dwarf_cfa"
  assumes "GetLocationInfo fuel pc start end s = (Ok (), t)"
    and "loc_reg_state s = []" and "fde_pc_start (cfa_fde s) \<le> pc"
  shows "pc_start (loc_regs t) \<le> pc \<and>
    (pc < pc_end (loc_regs t) \<or> pc_end (loc_regs t) = fde_pc_end (cfa_fde s))"
  by (rule GetLocationInfo_covers [OF assms])


section \<open>Rows are constant on the reported interval\<close>

text \<open>The instructions that are executed: the location they are executed at, and the opcode.\<close>

fun cfa_trace :: "nat \<Rightarrow> u64 \<Rightarrow> u64 \<Rightarrow> 'a::len word dwarf_cfa \<Rightarrow> (u64 \<times> u8) list" where
  "cfa_trace fuel pc end s =
     (if pc < ucast (cur_pc s) \<or> end \<le> cur_offset (cfa_memory s) then []
      else
        case fuel of
          0 \<Rightarrow> []
        | Suc fuel' \<Rightarrow>
            (case (fst (ReadBytes 1 (cfa_memory s)), cfa_step s) of
               (Ok bs, Ok _, t) \<Rightarrow> (ucast (cur_pc s), hd bs) # cfa_trace fuel' pc end t
             | _ \<Rightarrow> []))"

declare cfa_trace.simps [simp del]

lemma cfa_trace_exit [simp]:
  "pc < ucast (cur_pc s) \<Longrightarrow> cfa_trace fuel pc end s = []"
  "end \<le> cur_offset (cfa_memory s) \<Longrightarrow> cfa_trace fuel pc end s = []"
  by (subst cfa_trace.simps, simp)+

lemma cfa_step_reads: "cfa_step s = (Ok (), t) \<Longrightarrow> \<exists>bs. fst (ReadBytes 1 (cfa_memory s)) = Ok bs"
  by (auto simp: cfa_step_eq bnd_Ok_iff cfa_on_memory_def on_member_eq_iff row_started_def simp del: One_nat_def)

lemma loop_OkD:
  assumes "GetLocationInfo_loop fuel pc end s = (Ok (), t)"
  obtains (past) "pc < ucast (cur_pc s)" "t = row_ended (ucast (cur_pc s)) s"
  | (finish) "\<not> pc < ucast (cur_pc s)" "end \<le> cur_offset (cfa_memory s)" "t = row_ended (fde_pc_end (cfa_fde s)) s"
  | (step) fuel' s1 bs where "fuel = Suc fuel'" "fst (ReadBytes 1 (cfa_memory s)) = Ok bs"
      "\<not> pc < ucast (cur_pc s)" "\<not> end \<le> cur_offset (cfa_memory s)" "cfa_step s = (Ok (), s1)"
      "GetLocationInfo_loop fuel' pc end s1 = (Ok (), t)"
      "cfa_trace fuel pc end s = (ucast (cur_pc s), hd bs) # cfa_trace fuel' pc end s1"
proof -
  consider "pc < ucast (cur_pc s)" | "\<not> pc < ucast (cur_pc s)" "end \<le> cur_offset (cfa_memory s)"
    | "\<not> pc < ucast (cur_pc s)" "\<not> end \<le> cur_offset (cfa_memory s)"
    by blast
  then show thesis
  proof cases
    case 3
    then obtain fuel' where fuel: "fuel = Suc fuel'"
      using assms by (cases fuel) (simp_all add: loop_zero)
    then obtain s1 where s1: "cfa_step s = (Ok (), s1)" "GetLocationInfo_loop fuel' pc end s1 = (Ok (), t)"
      using assms 3 by (auto simp: loop_step bnd_Ok_iff)
    obtain bs where bs: "fst (ReadBytes 1 (cfa_memory s)) = Ok bs"
      using cfa_step_reads [OF s1(1)] by blast
    then have "cfa_trace fuel pc end s = (ucast (cur_pc s), hd bs) # cfa_trace fuel' pc end s1"
      using 3 s1(1) fuel by (subst cfa_trace.simps) (simp del: One_nat_def)
    then show thesis
      using step fuel bs 3 s1 by blast
  qed (use assms past finish in \<open>auto simp: loop_past loop_end\<close>)
qed

lemma loop_other_pc:
  assumes "GetLocationInfo_loop fuel pc end s = (Ok (), t)"
    and "\<forall>c \<in> fst ` set (cfa_trace fuel pc end s). c \<le> pc'" and "pc' < pc_end (loc_regs t)"
  shows "\<exists>t'. GetLocationInfo_loop fuel pc' end s = (Ok (), t') \<and> locs (loc_regs t') = locs (loc_regs t)"
  using assms
proof (induction fuel arbitrary: s rule: less_induct)
  case (less fuel)
  from less.prems(1) show ?case
  proof (cases rule: loop_OkD)
    case past
    then show ?thesis
      using less.prems(3) by (simp add: loop_past)
  next
    case finish
    then show ?thesis
      by (cases "pc' < ucast (cur_pc s)") (simp_all add: loop_past loop_end)
  next
    case (step fuel' s1 bs)
    then show ?thesis
      using less.IH [of fuel' s1] less.prems(2,3) by (simp add: loop_step bnd_def not_less)
  qed
qed

lemma cfa_step_pc_start:
  assumes "cfa_step s = (Ok (), t)" and "fst (ReadBytes 1 (cfa_memory s)) = Ok bs" and "hd bs \<noteq> 0x0b"
  shows "pc_start (loc_regs t) = ucast (cur_pc s)"
proof -
  let ?P = "\<lambda>u :: 'a word dwarf_cfa. pc_start (loc_regs u) = ucast (cur_pc s)"
  have stable: "cfa_stable ?P (\<lambda>_. True)"
    by (simp add: cfa_stable_def)
  obtain m' where m': "ReadBytes 1 (cfa_memory s) = (Ok bs, m')"
    using assms(2) by (cases "ReadBytes 1 (cfa_memory s)") simp
  have "cfa_dispatch (hd bs) ((row_started s)\<lparr>cfa_memory := m'\<rparr>) = (Ok (), t)"
    using assms(1) m'
    by (simp add: cfa_step_eq bnd_def on_fail_def cfa_on_memory_def on_member_def row_started_def del: One_nat_def)
  then show ?thesis
    using assms(3)
    by (intro maintainsD(1) [OF maintains_dispatch [OF stable, of "hd bs"], of _ "()" t])
      (simp_all add: row_started_def)
qed

lemma sorted_le_last: "sorted xs \<Longrightarrow> x \<in> set xs \<Longrightarrow> x \<le> last xs"
  by (induction xs) auto

lemma loop_pc_start:
  assumes "GetLocationInfo_loop fuel pc end s = (Ok (), t)"
    and "cfa_trace fuel pc end s \<noteq> []" and "snd (last (cfa_trace fuel pc end s)) \<noteq> 0x0b"
  shows "pc_start (loc_regs t) = fst (last (cfa_trace fuel pc end s))"
  using assms
proof (induction fuel arbitrary: s rule: less_induct)
  case (less fuel)
  from less.prems(1) show ?case
  proof (cases rule: loop_OkD)
    case (step fuel' s1 bs)
    show ?thesis
    proof (cases "cfa_trace fuel' pc end s1 = []")
      case True
      from step(6) obtain e where "t = row_ended e s1"
        by (cases rule: loop_OkD) (use True in auto)
      then show ?thesis
        using cfa_step_pc_start [OF step(5,2)] less.prems(3) step(7) True by simp
    next
      case False
      then show ?thesis
        using less.IH [of fuel' s1] step less.prems(3) by simp
    qed
  qed (use less.prems(2) in auto)
qed

text \<open>
  C25. The rules of a row hold for the whole interval it reports: if the program never moves its
  location backwards and does not end in \<^verbatim>\<open>DW_CFA_restore_state\<close>, then for every other pc between
  \<^verbatim>\<open>pc_start\<close> and \<^verbatim>\<open>pc_end\<close> the interpreter succeeds with the same rules. This is what allows the
  caller to keep the row and to use it for later pcs.
\<close>

theorem GetLocationInfo_row_constant:
  assumes "GetLocationInfo fuel pc start end s = (Ok (), t)"
    and "trace = cfa_trace fuel pc end (cfa_entry start s)"
    and "sorted (map fst trace)" and "trace \<noteq> [] \<longrightarrow> snd (last trace) \<noteq> 0x0b"
    and "pc_start (loc_regs t) \<le> pc'" and "pc' < pc_end (loc_regs t)"
  shows "\<exists>t'. GetLocationInfo fuel pc' start end s = (Ok (), t') \<and> locs (loc_regs t') = locs (loc_regs t)"
proof -
  have run: "GetLocationInfo_loop fuel pc end (cfa_entry start s) = (Ok (), t)"
    using assms(1) by (simp add: GetLocationInfo_eq)
  have "\<forall>c \<in> fst ` set trace. c \<le> pc'"
  proof (cases "trace = []")
    case False
    then have "pc_start (loc_regs t) = last (map fst trace)"
      using loop_pc_start [OF run] assms(2,4) by (simp add: last_map)
    moreover have "\<forall>c \<in> set (map fst trace). c \<le> last (map fst trace)"
      using sorted_le_last [OF assms(3)] by blast
    ultimately show ?thesis
      using assms(5) by fastforce
  qed simp
  then show ?thesis
    using loop_other_pc [OF run] assms(2,6) by (simp add: GetLocationInfo_eq)
qed

section \<open>Examples\<close>

text \<open>
  A function at \<open>0x1000\<close> with a given program, and a CIE with factors 1 and \<open>-8\<close> without rules of its own.
\<close>

definition example_cfa :: "u8 list \<Rightarrow> u64 dwarf_cfa" where
  "example_cfa program =
     (DwarfCfa (DwarfMemory (MemoryBuffer_Read program))
       (DwarfFde_default\<lparr>fde_pc_start := 0x1000, fde_pc_end := 0x2000\<rparr>)
       (DwarfCie_default\<lparr>code_alignment_factor := 1, data_alignment_factor := -8\<rparr>)
       \<lparr>code = DWARF_ERROR_NONE, address = 0\<rparr> 0 DwarfLocations_default)
     \<lparr>cie_loc_regs := Some DwarfLocations_default\<rparr>"

text \<open>CFA at register 7 plus 8; 4 bytes on, plus 16; 4 bytes on, register 6 is saved.\<close>

abbreviation example_program :: "u8 list" where
  "example_program \<equiv> [0x0c, 0x07, 0x08, 0x44, 0x0e, 0x10, 0x44, 0x86, 0x02]"

lemma GetLocationInfo_interval_example:
  "let t = snd (GetLocationInfo 10 0x1005 0 9 (example_cfa example_program)) in
   pc_start (loc_regs t) \<le> 0x1005 \<and> (0x1005 < pc_end (loc_regs t) \<or> pc_end (loc_regs t) = 0x2000)"
proof -
  let ?s = "example_cfa example_program"
  have "fst (GetLocationInfo 10 0x1005 0 9 ?s) = Ok ()"
    by code_simp
  then have "GetLocationInfo 10 0x1005 0 9 ?s = (Ok (), snd (GetLocationInfo 10 0x1005 0 9 ?s))"
    by (simp add: prod_eq_iff)
  from GetLocationInfo_interval [OF this] show ?thesis
    by (simp add: Let_def example_cfa_def DwarfCfa_def DwarfFde_default_def)
qed


theorem GetLocationInfo_row_constant_witness:
  "\<exists>t'. GetLocationInfo 10 0x1007 0 9 (example_cfa example_program) = (Ok (), t') \<and>
     locs (loc_regs t') = locs (loc_regs (snd (GetLocationInfo 10 0x1005 0 9 (example_cfa example_program))))"
proof -
  let ?s = "example_cfa example_program" and ?trace = "[(0x1000, 0x0c), (0x1000, 0x44), (0x1004, 0x0e), (0x1004, 0x44)]"
  have ok: "fst (GetLocationInfo 10 0x1005 0 9 ?s) = Ok ()"
    by code_simp
  have trace: "cfa_trace 10 0x1005 9 (cfa_entry 0 ?s) = ?trace"
    by code_simp
  have "pc_start (loc_regs (snd (GetLocationInfo 10 0x1005 0 9 ?s))) = 0x1004"
      "pc_end (loc_regs (snd (GetLocationInfo 10 0x1005 0 9 ?s))) = 0x1008"
    by code_simp+
  with ok show ?thesis
    by (intro GetLocationInfo_row_constant [OF _ trace [symmetric]]) (simp_all add: prod_eq_iff)
qed

text \<open>
  The program remembers its state, moves the CFA in the next row, and ends with
  \<^verbatim>\<open>DW_CFA_restore_state\<close>, which also brings back the \<^verbatim>\<open>pc_start\<close> of the first row.
\<close>

abbreviation restoring_program :: "u8 list" where
  "restoring_program \<equiv> [0x0c, 0x07, 0x08, 0x0a, 0x44, 0x0e, 0x10, 0x44, 0x0b]"


end
