(* ===== verification/Dwarf_Cfa_Machine.thy ===== *)
theory Dwarf_Cfa_Machine
  imports Dwarf_Cfa_Rows
begin

text \<open>
  The interpreter of call frame instructions against the machine of the DWARF standard: an abstract
  row machine on instructions with their arguments, an assembler, and the proof that
  \<^verbatim>\<open>GetLocationInfo\<close> computes on the assembled program the row that the machine computes. The same
  lemmas on fetching an instruction give a program on which the loop does not end.
\<close>

section \<open>Reading a block of bytes\<close>

lemma holds_block_bytes: "holds_block mem a bs \<Longrightarrow> holds_bytes mem a bs"
  by (auto simp: holds_block_def holds_bytes_def Cons_nth_drop_Suc [symmetric])

lemma ReadBytes_block:
  "holds_block (memory_of m) (cur_offset m) bs \<Longrightarrow>
     ReadBytes (length bs) m = (Ok bs, m\<lparr>cur_offset := cur_offset m + of_nat (length bs)\<rparr>)"
  by (simp add: ReadBytes_def holds_blockD)

section \<open>Operands\<close>

datatype 'w cfa_arg = AUleb nat | ASleb int | AData1 u8 | AData2 u16 | AData4 u32 | AAddr 'w | ABlock "u8 list"

fun arg_encoding :: "'w cfa_arg \<Rightarrow> u8" where
  "arg_encoding (AUleb n) = DW_EH_PE_uleb128"
| "arg_encoding (ASleb k) = DW_EH_PE_sleb128"
| "arg_encoding (AData1 w) = DW_EH_PE_udata1"
| "arg_encoding (AData2 w) = DW_EH_PE_udata2"
| "arg_encoding (AData4 w) = DW_EH_PE_udata4"
| "arg_encoding (AAddr w) = DW_EH_PE_absptr"
| "arg_encoding (ABlock bs) = DW_EH_PE_block"

fun arg_bytes :: "'a::len word cfa_arg \<Rightarrow> u8 list" where
  "arg_bytes (AUleb n) = uleb128 n"
| "arg_bytes (ASleb k) = sleb128 k"
| "arg_bytes (AData1 w) = le_bytes 1 w"
| "arg_bytes (AData2 w) = le_bytes 2 w"
| "arg_bytes (AData4 w) = le_bytes 4 w"
| "arg_bytes (AAddr w) = le_bytes (sizeof TYPE('a)) w"
| "arg_bytes (ABlock bs) = uleb128 (length bs) @ bs"

fun arg_value :: "'a::len word cfa_arg \<Rightarrow> 'a word" where
  "arg_value (AUleb n) = of_nat n"
| "arg_value (ASleb k) = of_int k"
| "arg_value (AData1 w) = ucast w"
| "arg_value (AData2 w) = ucast w"
| "arg_value (AData4 w) = ucast w"
| "arg_value (AAddr w) = w"
| "arg_value (ABlock bs) = of_nat (length bs)"

fun arg_ok :: "'w cfa_arg \<Rightarrow> bool" where
  "arg_ok (AUleb n) = (n < 2 ^ 64)"
| "arg_ok (ASleb k) = (- (2 ^ 62) \<le> k \<and> k < 2 ^ 63)"
| "arg_ok (ABlock bs) = (length bs < 2 ^ 64)"
| "arg_ok _ = True"

text \<open>The address types: 32 or 64 bits.\<close>

definition address_type :: "'a::len itself \<Rightarrow> bool" where
  "address_type _ \<longleftrightarrow> LENGTH('a) = 32 \<or> LENGTH('a) = 64"

definition cfa_advance :: "nat \<Rightarrow> 'a::len word list \<Rightarrow> 'a word dwarf_cfa \<Rightarrow> 'a word dwarf_cfa" where
  "cfa_advance n ops s =
     s\<lparr>cfa_memory := (cfa_memory s)\<lparr>cur_offset := cur_offset (cfa_memory s) + of_nat n\<rparr>,
       cfa_operands := cfa_operands s @ ops\<rparr>"

lemma cfa_advance_advance: "cfa_advance n ys (cfa_advance m xs s) = cfa_advance (m + n) (xs @ ys) s"
  by (simp add: cfa_advance_def add.assoc)

lemma ucast_of_nat: "LENGTH('a) \<le> 64 \<Longrightarrow> ucast (of_nat n :: u64) = (of_nat n :: 'a::len word)"
  using ucast_of_int [of "int n"] by simp

lemma le_word_le_bytes_ucast:
  fixes w :: "'b::len word"
  assumes "LENGTH('b) \<le> 8 * n"
  shows "le_word (le_bytes n w) = (ucast w :: u64)"
proof -
  have "unat w < 2 ^ LENGTH('b)"
    by simp
  also have "\<dots> \<le> 2 ^ (8 * n)"
    using assms by (intro power_increasing) auto
  finally show ?thesis
    by (simp add: le_word_def le_nat_le_bytes power_mult)
qed

lemma ReadUnsigned_le_bytes:
  fixes w :: "'b::len word"
  assumes "holds_block (memory_of m) (cur_offset m) (le_bytes n w)" and "LENGTH('b) \<le> 8 * n"
  shows "ReadUnsigned n m = (Ok (ucast w), m\<lparr>cur_offset := cur_offset m + of_nat n\<rparr>)"
  using ReadBytes_block [OF assms(1)] assms(2) by (simp add: ReadUnsigned_def bnd_def le_word_le_bytes_ucast)

lemma ReadEncodedValue_arg:
  fixes x :: "'a::len word cfa_arg"
  assumes holds: "holds_block (memory_of m) (cur_offset m) (arg_bytes x)" and "arg_ok x"
    and ty: "address_type TYPE('a)" and "arg_encoding x \<noteq> DW_EH_PE_block"
  shows "\<exists>v. ReadEncodedValue TYPE('a) (arg_encoding x) m =
      (Ok v, m\<lparr>cur_offset := cur_offset m + of_nat (length (arg_bytes x))\<rparr>) \<and> ucast v = arg_value x"
proof -
  have len: "LENGTH('a) \<le> 64" "LENGTH('a) \<le> 8 * sizeof TYPE('a)"
    using ty by (auto simp: address_type_def sizeof_def)
  have up: "ucast (ucast w :: u64) = (ucast w :: 'a word)" if "LENGTH('b) \<le> 64" for w :: "'b::len word"
    using that len(1) by (intro bit_word_eqI) (auto simp: bit_simps dest: bit_imp_le_length)
  note [simp] = ReadEncodedValue_def ReadEncodedData_def encoding_defs bnd_def AdjustEncodedValue_def
  show ?thesis
  proof (cases x)
    case (AUleb n)
    then show ?thesis
      using ReadEncodedValue_uleb128 [OF holds_block_bytes, of m n "TYPE('a)"] assms len(1)
      by (simp add: ucast_of_nat del: ReadEncodedValue_def)
  next
    case (ASleb k)
    then show ?thesis
      using ReadEncodedValue_sleb128 [OF holds_block_bytes, of m k "TYPE('a)"] assms len(1)
      by (simp add: ucast_of_int del: ReadEncodedValue_def)
  next
    case (AData1 w)
    then show ?thesis
      using ReadUnsigned_le_bytes [of m 1 w] holds up [of w] by (simp del: One_nat_def le_bytes.simps)
  next
    case (AData2 w)
    then show ?thesis
      using ReadUnsigned_le_bytes [of m 2 w] holds up [of w] by simp
  next
    case (AData4 w)
    then show ?thesis
      using ReadUnsigned_le_bytes [of m 4 w] holds up [of w] by simp
  next
    case (AAddr w)
    then show ?thesis
      using ReadUnsigned_le_bytes [of m "sizeof TYPE('a)" w] holds len up [of w] by simp
  next
    case (ABlock bs)
    then show ?thesis
      using assms(4) by simp
  qed
qed

lemma cfa_read_arg:
  fixes x :: "'a::len word cfa_arg"
  assumes "holds_block (memory_of (cfa_memory s)) (cur_offset (cfa_memory s)) (arg_bytes x)"
    and "arg_ok x" and "address_type TYPE('a)"
  shows "cfa_read_operands (arg_encoding x # es) s =
    cfa_read_operands es (cfa_advance (length (arg_bytes x)) [arg_value x] s)"
proof (cases "arg_encoding x = DW_EH_PE_block")
  case False
  obtain v where "ReadEncodedValue TYPE('a) (arg_encoding x) (cfa_memory s) =
      (Ok v, (cfa_memory s)\<lparr>cur_offset := cur_offset (cfa_memory s) + of_nat (length (arg_bytes x))\<rparr>)"
      "ucast v = arg_value x"
    using ReadEncodedValue_arg [OF assms False] by blast
  then show ?thesis
    using False by (simp add: bnd_def on_fail_def cfa_on_memory_def on_member_def cfa_advance_def)
next
  case True
  then obtain bs where x: "x = ABlock bs"
    by (cases x) (simp_all add: encoding_defs)
  let ?n = "length (uleb128 (length bs))"
  have "holds_bytes (memory_of (cfa_memory s)) (cur_offset (cfa_memory s)) (uleb128 (length bs))"
    using holds_block_append(1) [of _ _ "uleb128 (length bs)" bs] assms(1) x
    by (simp add: holds_block_bytes)
  then have "ReadULEB128 (cfa_memory s) =
      (Ok (of_nat (length bs)), (cfa_memory s)\<lparr>cur_offset := cur_offset (cfa_memory s) + of_nat ?n\<rparr>)"
    using assms(2) x by (intro ReadULEB128_of_nat) simp_all
  then show ?thesis
    using x assms(3)
    by (cases s) (auto simp: bnd_def on_fail_def cfa_on_memory_def on_member_def cfa_advance_def set_cur_offset_def
        address_type_def ucast_of_nat add.assoc)
qed

lemma cfa_read_args:
  fixes xs :: "'a::len word cfa_arg list"
  assumes "holds_block (memory_of (cfa_memory s)) (cur_offset (cfa_memory s)) (concat (map arg_bytes xs))"
    and "list_all arg_ok xs" and "address_type TYPE('a)"
  shows "cfa_read_operands (map arg_encoding xs) s =
    (Ok (), cfa_advance (length (concat (map arg_bytes xs))) (map arg_value xs) s)"
  using assms
proof (induction xs arbitrary: s)
  case Nil
  then show ?case
    by (simp add: cfa_advance_def)
next
  case (Cons x xs)
  let ?s = "cfa_advance (length (arg_bytes x)) [arg_value x] s"
  note holds = holds_block_append [of _ _ "arg_bytes x" "concat (map arg_bytes xs)"]
  have "cfa_read_operands (map arg_encoding xs) ?s =
      (Ok (), cfa_advance (length (concat (map arg_bytes xs))) (map arg_value xs) ?s)"
    using Cons.prems holds by (intro Cons.IH) (simp_all add: cfa_advance_def)
  then show ?case
    using Cons.prems holds(1) by (simp add: cfa_read_arg cfa_advance_advance del: cfa_read_operands.simps)
qed

section \<open>The row machine\<close>

text \<open>
  The instructions of the standard. Registers are numbers, offsets are the factored numbers of the
  encoding, expressions are their bytes.
\<close>

datatype 'w cfa_instr =
    CNop | CSetLoc 'w | CAdvance nat | CAdvance1 u8 | CAdvance2 u16 | CAdvance4 u32
  | COffset u32 nat | COffsetExtended u32 nat | COffsetExtendedSf u32 int
  | CRestore u32 | CRestoreExtended u32 | CUndefined u32 | CSameValue u32 | CRegister u32 u32
  | CRememberState | CRestoreState
  | CDefCfa u32 nat | CDefCfaSf u32 int | CDefCfaRegister u32 | CDefCfaOffset nat | CDefCfaOffsetSf int
  | CDefCfaExpression "u8 list" | CExpression u32 "u8 list" | CValExpression u32 "u8 list"
  | CValOffset u32 nat | CValOffsetSf u32 int
  | CGnuArgsSize nat | CGnuNegativeOffsetExtended u32 nat

text \<open>
  A row under construction: the location it starts at, the rules, and the remembered rules. A register
  without a rule keeps its value.
\<close>

record 'w cfa_row =
  row_pc :: 'w
  row_rules :: "u32 \<Rightarrow> DwarfLocation option"
  row_saved :: "(u32 \<Rightarrow> DwarfLocation option) list"

definition set_rule :: "u32 \<Rightarrow> DwarfLocation option \<Rightarrow> 'w cfa_row \<Rightarrow> 'w cfa_row" where
  "set_rule reg rule row = row\<lparr>row_rules := (row_rules row)(reg := rule)\<rparr>"

definition change_cfa :: "(DwarfLocation \<Rightarrow> DwarfLocation) \<Rightarrow> 'w cfa_row \<Rightarrow> 'w cfa_row option" where
  "change_cfa f row =
     (case row_rules row CFA_REG of
        None \<Rightarrow> None
      | Some loc \<Rightarrow> if loc_type loc = DWARF_LOCATION_REGISTER then Some (set_rule CFA_REG (Some (f loc)) row) else None)"

definition restore_rule :: "(u32 \<Rightarrow> DwarfLocation option) option \<Rightarrow> u32 \<Rightarrow> 'w cfa_row \<Rightarrow> 'w cfa_row option" where
  "restore_rule initial reg row = map_option (\<lambda>rules. set_rule reg (rules reg) row) initial"

definition move_pc :: "DwarfCie \<Rightarrow> nat \<Rightarrow> 'a::len word cfa_row \<Rightarrow> 'a word cfa_row" where
  "move_pc cie n row = row\<lparr>row_pc := row_pc row + of_nat n * ucast (code_alignment_factor cie)\<rparr>"

text \<open>
  The effect of an instruction, \<open>None\<close> if it is not allowed in the row. \<open>initial\<close> are the rules of the
  CIE, \<open>pos\<close> is the address behind the instruction.
\<close>

fun cfa_effect ::
  "DwarfCie \<Rightarrow> (u32 \<Rightarrow> DwarfLocation option) option \<Rightarrow> u64 \<Rightarrow> 'a::len word cfa_instr \<Rightarrow>
   'a word cfa_row \<Rightarrow> 'a word cfa_row option" where
  "cfa_effect cie initial pos i row =
     (let daf = sint (data_alignment_factor cie);
          rule = (\<lambda>reg ty v0 v1. Some (set_rule reg (Some (location ty v0 v1)) row)) in
      case i of
        CNop \<Rightarrow> Some row
      | CSetLoc w \<Rightarrow> Some (row\<lparr>row_pc := w\<rparr>)
      | CAdvance n \<Rightarrow> Some (move_pc cie n row)
      | CAdvance1 w \<Rightarrow> Some (move_pc cie (unat w) row)
      | CAdvance2 w \<Rightarrow> Some (move_pc cie (unat w) row)
      | CAdvance4 w \<Rightarrow> Some (move_pc cie (unat w) row)
      | COffset reg n \<Rightarrow> rule reg DWARF_LOCATION_OFFSET (of_int (int n * daf)) 0
      | COffsetExtended reg n \<Rightarrow> rule reg DWARF_LOCATION_OFFSET (of_int (int n * daf)) 0
      | COffsetExtendedSf reg k \<Rightarrow> rule reg DWARF_LOCATION_OFFSET (of_int (k * daf)) 0
      | CRestore reg \<Rightarrow> restore_rule initial reg row
      | CRestoreExtended reg \<Rightarrow> restore_rule initial reg row
      | CUndefined reg \<Rightarrow> rule reg DWARF_LOCATION_UNDEFINED 0 0
      | CSameValue reg \<Rightarrow> Some (set_rule reg None row)
      | CRegister reg src \<Rightarrow> rule reg DWARF_LOCATION_REGISTER (ucast src) 0
      | CRememberState \<Rightarrow> Some (row\<lparr>row_saved := row_rules row # row_saved row\<rparr>)
      | CRestoreState \<Rightarrow>
          (case row_saved row of
             [] \<Rightarrow> None
           | rules # rest \<Rightarrow> Some (row\<lparr>row_rules := rules, row_saved := rest\<rparr>))
      | CDefCfa reg n \<Rightarrow> rule CFA_REG DWARF_LOCATION_REGISTER (ucast reg) (of_nat n)
      | CDefCfaSf reg k \<Rightarrow> rule CFA_REG DWARF_LOCATION_REGISTER (ucast reg) (of_int (k * daf))
      | CDefCfaRegister reg \<Rightarrow> change_cfa (\<lambda>loc. loc\<lparr>value0 := ucast reg\<rparr>) row
      | CDefCfaOffset n \<Rightarrow> change_cfa (\<lambda>loc. loc\<lparr>value1 := of_nat n\<rparr>) row
      | CDefCfaOffsetSf k \<Rightarrow> change_cfa (\<lambda>loc. loc\<lparr>value1 := of_int (k * daf)\<rparr>) row
      | CDefCfaExpression bs \<Rightarrow> rule CFA_REG DWARF_LOCATION_VAL_EXPRESSION (of_nat (length bs)) pos
      | CExpression reg bs \<Rightarrow> rule reg DWARF_LOCATION_EXPRESSION (of_nat (length bs)) pos
      | CValExpression reg bs \<Rightarrow> rule reg DWARF_LOCATION_VAL_EXPRESSION (of_nat (length bs)) pos
      | CValOffset reg n \<Rightarrow> rule reg DWARF_LOCATION_VAL_OFFSET (of_int (int n * daf)) 0
      | CValOffsetSf reg k \<Rightarrow> rule reg DWARF_LOCATION_VAL_OFFSET (of_int (k * daf)) 0
      | CGnuArgsSize n \<Rightarrow> Some row
      | CGnuNegativeOffsetExtended reg n \<Rightarrow> rule reg DWARF_LOCATION_OFFSET (of_int (- int n)) 0)"

text \<open>Opcode and operands.\<close>

fun cfa_form :: "'a::len word cfa_instr \<Rightarrow> u8 \<times> 'a word cfa_arg list" where
  "cfa_form CNop = (0x00, [])"
| "cfa_form (CSetLoc w) = (0x01, [AAddr w])"
| "cfa_form (CAdvance1 w) = (0x02, [AData1 w])"
| "cfa_form (CAdvance2 w) = (0x03, [AData2 w])"
| "cfa_form (CAdvance4 w) = (0x04, [AData4 w])"
| "cfa_form (COffsetExtended reg n) = (0x05, [AUleb (unat reg), AUleb n])"
| "cfa_form (CRestoreExtended reg) = (0x06, [AUleb (unat reg)])"
| "cfa_form (CUndefined reg) = (0x07, [AUleb (unat reg)])"
| "cfa_form (CSameValue reg) = (0x08, [AUleb (unat reg)])"
| "cfa_form (CRegister reg src) = (0x09, [AUleb (unat reg), AUleb (unat src)])"
| "cfa_form CRememberState = (0x0a, [])"
| "cfa_form CRestoreState = (0x0b, [])"
| "cfa_form (CDefCfa reg n) = (0x0c, [AUleb (unat reg), AUleb n])"
| "cfa_form (CDefCfaRegister reg) = (0x0d, [AUleb (unat reg)])"
| "cfa_form (CDefCfaOffset n) = (0x0e, [AUleb n])"
| "cfa_form (CDefCfaExpression bs) = (0x0f, [ABlock bs])"
| "cfa_form (CExpression reg bs) = (0x10, [AUleb (unat reg), ABlock bs])"
| "cfa_form (COffsetExtendedSf reg k) = (0x11, [AUleb (unat reg), ASleb k])"
| "cfa_form (CDefCfaSf reg k) = (0x12, [AUleb (unat reg), ASleb k])"
| "cfa_form (CDefCfaOffsetSf k) = (0x13, [ASleb k])"
| "cfa_form (CValOffset reg n) = (0x14, [AUleb (unat reg), AUleb n])"
| "cfa_form (CValOffsetSf reg k) = (0x15, [AUleb (unat reg), ASleb k])"
| "cfa_form (CValExpression reg bs) = (0x16, [AUleb (unat reg), ABlock bs])"
| "cfa_form (CGnuArgsSize n) = (0x2e, [AUleb n])"
| "cfa_form (CGnuNegativeOffsetExtended reg n) = (0x2f, [AUleb (unat reg), AUleb n])"
| "cfa_form (CAdvance n) = (0x40 + of_nat n, [])"
| "cfa_form (COffset reg n) = (0x80 + ucast reg, [AUleb n])"
| "cfa_form (CRestore reg) = (0xc0 + ucast reg, [])"

definition cfa_bytes :: "'a::len word cfa_instr \<Rightarrow> u8 list" where
  "cfa_bytes i = fst (cfa_form i) # concat (map arg_bytes (snd (cfa_form i)))"

text \<open>
  What can be encoded and computed without overflow: numbers that fit into the address type, and
  factored offsets whose product fits. \<^verbatim>\<open>DW_CFA_offset_extended\<close> is only included if scaling does not
  change the offset.
\<close>

definition fits_signed :: "'a::len itself \<Rightarrow> int \<Rightarrow> bool" where
  "fits_signed _ k \<longleftrightarrow> - (2 ^ (LENGTH('a) - 1)) \<le> k \<and> k < 2 ^ (LENGTH('a) - 1)"

definition cfa_scalable :: "'a::len itself \<Rightarrow> DwarfCie \<Rightarrow> int \<Rightarrow> bool" where
  "cfa_scalable ty cie k \<longleftrightarrow> fits_signed ty k \<and> fits_signed ty (k * sint (data_alignment_factor cie))"

fun cfa_encodable :: "DwarfCie \<Rightarrow> 'a::len word cfa_instr \<Rightarrow> bool" where
  "cfa_encodable cie i =
     (list_all arg_ok (snd (cfa_form i)) \<and>
      (case i of
         CAdvance n \<Rightarrow> n < 64
       | COffset reg n \<Rightarrow> unat reg < 64 \<and> cfa_scalable TYPE('a) cie (int n)
       | CRestore reg \<Rightarrow> unat reg < 64
       | COffsetExtended reg n \<Rightarrow> n < 2 ^ LENGTH('a) \<and> (data_alignment_factor cie = 1 \<or> n = 0)
       | COffsetExtendedSf reg k \<Rightarrow> cfa_scalable TYPE('a) cie k
       | CDefCfa reg n \<Rightarrow> n < 2 ^ LENGTH('a)
       | CDefCfaOffset n \<Rightarrow> n < 2 ^ LENGTH('a)
       | CDefCfaSf reg k \<Rightarrow> cfa_scalable TYPE('a) cie k
       | CDefCfaOffsetSf k \<Rightarrow> cfa_scalable TYPE('a) cie k
       | CDefCfaExpression bs \<Rightarrow> length bs < 2 ^ LENGTH('a)
       | CExpression reg bs \<Rightarrow> length bs < 2 ^ LENGTH('a)
       | CValExpression reg bs \<Rightarrow> length bs < 2 ^ LENGTH('a)
       | CValOffset reg n \<Rightarrow> cfa_scalable TYPE('a) cie (int n)
       | CValOffsetSf reg k \<Rightarrow> cfa_scalable TYPE('a) cie k
       | CGnuNegativeOffsetExtended reg n \<Rightarrow> fits_signed TYPE('a) (int n)
       | _ \<Rightarrow> True))"

text \<open>The row for a pc: instructions are executed as long as the location is not behind the pc.\<close>

fun cfa_row_at ::
  "DwarfCie \<Rightarrow> (u32 \<Rightarrow> DwarfLocation option) option \<Rightarrow> u64 \<Rightarrow> u64 \<Rightarrow> 'a::len word cfa_instr list \<Rightarrow>
   'a word cfa_row \<Rightarrow> 'a word cfa_row option" where
  "cfa_row_at cie initial pc pos [] row = Some row"
| "cfa_row_at cie initial pc pos (i # is) row =
     (if pc < ucast (row_pc row) then Some row
      else
        let pos' = pos + of_nat (length (cfa_bytes i)) in
        case cfa_effect cie initial pos' i row of
          None \<Rightarrow> None
        | Some row' \<Rightarrow> cfa_row_at cie initial pc pos' is row')"

section \<open>Simulation\<close>

subsection \<open>Operand values\<close>

lemma address_type_len: "address_type TYPE('a::len) \<Longrightarrow> 32 \<le> LENGTH('a) \<and> LENGTH('a) \<le> 64"
  by (auto simp: address_type_def)

lemma small_operand:
  fixes w :: "'b::len word"
  assumes "address_type TYPE('a::len)" and "LENGTH('b) \<le> 32"
  shows "ucast (ucast w :: 'a word) = (ucast w :: u64)"
proof -
  have "n < 32" if "bit w n" for n
    using bit_imp_le_length [OF that] assms(2) by simp
  then show ?thesis
    using address_type_len [OF assms(1)] by (intro bit_word_eqI) (force simp: bit_simps)
qed

lemma reg_operand:
  assumes "address_type TYPE('a::len)"
  shows "ucast (of_nat (unat reg) :: 'a word) = (reg :: u32)"
    "ucast (of_nat (unat reg) :: 'a word) = (ucast reg :: u64)"
proof -
  show "ucast (of_nat (unat reg) :: 'a word) = (reg :: u32)"
    using address_type_len [OF assms] by (intro bit_word_eqI) (auto simp: bit_simps)
  show "ucast (of_nat (unat reg) :: 'a word) = (ucast reg :: u64)"
    using small_operand [OF assms, of reg] by simp
qed

lemma nat_operand:
  assumes "address_type TYPE('a::len)" and "n < 2 ^ LENGTH('a)"
  shows "ucast (of_nat n :: 'a word) = (of_nat n :: u64)"
proof -
  have "unat (of_nat n :: 'a word) = n"
    using assms(2) by (simp add: unat_of_nat take_bit_nat_eq_self)
  then show ?thesis
    by (metis of_nat_unat)
qed

lemma sint_of_int_fits:
  assumes "fits_signed TYPE('a) k"
  shows "sint (of_int k :: 'a::len word) = k"
  using assms by (simp add: fits_signed_def signed_of_int signed_take_bit_int_eq_self)

lemma scast_of_int_fits:
  "fits_signed TYPE('a) k \<Longrightarrow> scast (of_int k :: 'a::len word) = (of_int k :: u64)"
  by (metis sint_of_int_fits scast_eq)

lemma fits_signed_64:
  assumes "fits_signed TYPE('a) k" and "address_type TYPE('a::len)"
  shows "- (2 ^ 63) \<le> k \<and> k < 2 ^ 63"
  using assms by (auto simp: fits_signed_def address_type_def)

lemma scaled_of_int:
  assumes "cfa_scalable TYPE('a) (cfa_cie s) k" and "address_type TYPE('a)"
  shows "scaled (of_int k :: 'a::len word) s = (Ok (of_int (k * sint (data_alignment_factor (cfa_cie s)))), s)"
  using assms fits_signed_64 [of _ , where 'a = 'a] unfolding cfa_scalable_def scaled_def
  by (auto simp: sint_of_int_fits scast_of_int_fits simp del: of_int_mult)

lemma scaled_of_nat:
  assumes "cfa_scalable TYPE('a) (cfa_cie s) (int n)" and "address_type TYPE('a)"
  shows "scaled (of_nat n :: 'a::len word) s = (Ok (of_int (int n * sint (data_alignment_factor (cfa_cie s)))), s)"
  using scaled_of_int [OF assms] by simp

lemma advanced_pc:
  assumes "address_type TYPE('a::len)"
  shows "ucast (ucast pc + of_nat n * caf :: u64) = (pc + of_nat n * ucast caf :: 'a word)"
proof -
  have *: "ucast (of_int i :: u64) = (of_int i :: 'a word)" for i
    using ucast_of_int address_type_len [OF assms] by blast
  have "ucast pc + of_nat n * caf = (of_int (uint pc + int n * uint caf) :: u64)"
    by simp
  then show ?thesis
    by (simp only: *) simp
qed

lemma min_signed_fits:
  assumes "fits_signed TYPE('a) (int n)"
  shows "of_nat n \<noteq> (min_signed :: 'a::len word)"
proof
  assume eq: "of_nat n = (min_signed :: 'a word)"
  have n: "n < 2 ^ (LENGTH('a) - 1)"
    using assms by (simp add: fits_signed_def flip: of_nat_less_iff)
  have less: "(2 :: nat) ^ (LENGTH('a) - 1) < 2 ^ LENGTH('a)"
    by (simp add: power_strict_increasing)
  have "unat (of_nat n :: 'a word) = n"
    unfolding unat_of_nat using order_less_trans [OF n less] by (rule mod_less)
  moreover have min: "(min_signed :: 'a word) = of_nat (2 ^ (LENGTH('a) - 1))"
    by (simp add: min_signed_def push_bit_eq_mult)
  have "unat (min_signed :: 'a word) = 2 ^ (LENGTH('a) - 1)"
    unfolding min unat_of_nat using less by (rule mod_less)
  ultimately show False
    using eq n by simp
qed

lemma negated_fits:
  assumes "fits_signed TYPE('a) (int n)"
  shows "scast (- of_nat n :: 'a::len word) = (of_int (- int n) :: u64)"
proof -
  have "- int n < 2 ^ (LENGTH('a) - 1)"
    by (rule le_less_trans [of _ 0]) simp_all
  then have "fits_signed TYPE('a) (- int n)"
    using assms by (simp add: fits_signed_def)
  from scast_of_int_fits [OF this] show ?thesis
    by simp
qed

subsection \<open>One instruction\<close>

definition row_rel :: "'a::len word dwarf_cfa \<Rightarrow> 'a word cfa_row \<Rightarrow> bool" where
  "row_rel s row \<longleftrightarrow> cur_pc s = row_pc row \<and> map_of (locs (loc_regs s)) = row_rules row \<and>
     map (\<lambda>l. map_of (locs l)) (loc_reg_state s) = row_saved row"

text \<open>What an instruction of \<open>n\<close> bytes leaves alone.\<close>

definition cfa_frame :: "nat \<Rightarrow> 'a::len word dwarf_cfa \<Rightarrow> 'a word dwarf_cfa \<Rightarrow> bool" where
  "cfa_frame n s s' \<longleftrightarrow> cfa_cie s' = cfa_cie s \<and> cie_loc_regs s' = cie_loc_regs s \<and> cfa_fde s' = cfa_fde s \<and>
     cfa_memory s' = (cfa_memory s)\<lparr>cur_offset := cur_offset (cfa_memory s) + of_nat n\<rparr>"

abbreviation initial_rules :: "'a::len word dwarf_cfa \<Rightarrow> (u32 \<Rightarrow> DwarfLocation option) option" where
  "initial_rules s \<equiv> map_option (\<lambda>l. map_of (locs l)) (cie_loc_regs s)"

lemmas cfa_update_defs = set_loc_def erase_loc_def log_line_def advance_pc_def cfa_operand_def

lemma map_of_delete: "map_of (AList.delete k al) = (map_of al)(k := None)"
  by (simp add: delete_conv')

lemma set_loc_row:
  "row_rel s row \<Longrightarrow> \<exists>s'. set_loc reg loc s = (Ok (), s') \<and> row_rel s' (set_rule reg (Some loc) row) \<and> cfa_frame 0 s s'"
  by (auto simp: set_loc_def row_rel_def set_rule_def cfa_frame_def update_conv')

lemma erase_loc_row:
  "row_rel s row \<Longrightarrow> \<exists>s'. erase_loc reg s = (Ok (), s') \<and> row_rel s' (set_rule reg None row) \<and> cfa_frame 0 s s'"
  by (auto simp: erase_loc_def row_rel_def set_rule_def cfa_frame_def map_of_delete)

lemma restore_reg_row:
  assumes "row_rel s row" and "restore_rule (initial_rules s) reg row = Some row'"
  shows "\<exists>s'. restore_reg reg s = (Ok (), s') \<and> row_rel s' row' \<and> cfa_frame 0 s s'"
proof -
  obtain l where l: "cie_loc_regs s = Some l" "row' = set_rule reg (map_of (locs l) reg) row"
    using assms(2) by (auto simp: restore_rule_def)
  then show ?thesis
    using set_loc_row [OF assms(1), of reg] erase_loc_row [OF assms(1), of reg]
    by (cases "map_of (locs l) reg") (simp_all add: restore_reg_def)
qed

lemma advance_pc_row:
  fixes s :: "'a::len word dwarf_cfa"
  assumes "row_rel s row" and "address_type TYPE('a)"
  shows "\<exists>s'. advance_pc (of_nat n) s = (Ok (), s') \<and> row_rel s' (move_pc (cfa_cie s) n row) \<and> cfa_frame 0 s s'"
  using assms by (simp add: advance_pc_def row_rel_def move_pc_def cfa_frame_def advanced_pc)

lemma change_cfa_row:
  fixes s :: "'a::len word dwarf_cfa"
  assumes "row_rel s row" and "change_cfa f row = Some row'"
  shows "\<exists>loc. (\<forall>msg (k :: DwarfLocation \<Rightarrow> ('a, unit) cfa_prog). bnd (cfa_register_rule msg) k s = k loc s) \<and>
    row' = set_rule CFA_REG (Some (f loc)) row"
  using assms
  by (auto simp: change_cfa_def cfa_register_rule_def row_rel_def bnd_def split: option.splits if_splits)

text \<open>The instructions whose opcode is looked up in the tables.\<close>

fun in_table :: "'w cfa_instr \<Rightarrow> bool" where
  "in_table (CAdvance n) = False"
| "in_table (COffset reg n) = False"
| "in_table (CRestore reg) = False"
| "in_table i = True"

lemma callback_rows:
  "kCfaCallbackTable ! 0 = Some cfa_nop" "kCfaCallbackTable ! Suc 0 = Some cfa_set_loc"
  "kCfaCallbackTable ! 2 = Some cfa_advance_loc" "kCfaCallbackTable ! 3 = Some cfa_advance_loc"
  "kCfaCallbackTable ! 4 = Some cfa_advance_loc" "kCfaCallbackTable ! 5 = Some cfa_offset"
  "kCfaCallbackTable ! 6 = Some cfa_restore" "kCfaCallbackTable ! 7 = Some cfa_undefined"
  "kCfaCallbackTable ! 8 = Some cfa_same_value" "kCfaCallbackTable ! 9 = Some cfa_register"
  "kCfaCallbackTable ! 10 = Some cfa_remember_state" "kCfaCallbackTable ! 11 = Some cfa_restore_state"
  "kCfaCallbackTable ! 12 = Some cfa_def_cfa" "kCfaCallbackTable ! 13 = Some cfa_def_cfa_register"
  "kCfaCallbackTable ! 14 = Some cfa_def_cfa_offset" "kCfaCallbackTable ! 15 = Some cfa_def_cfa_expression"
  "kCfaCallbackTable ! 16 = Some cfa_expression" "kCfaCallbackTable ! 17 = Some cfa_offset_extended_sf"
  "kCfaCallbackTable ! 18 = Some cfa_def_cfa_sf" "kCfaCallbackTable ! 19 = Some cfa_def_cfa_offset_sf"
  "kCfaCallbackTable ! 20 = Some cfa_val_offset" "kCfaCallbackTable ! 21 = Some cfa_val_offset_sf"
  "kCfaCallbackTable ! 22 = Some cfa_val_expression" "kCfaCallbackTable ! 46 = Some cfa_nop"
  "kCfaCallbackTable ! 47 = Some cfa_gnu_negative_offset_extended"
  by (simp_all add: kCfaCallbackTable_def)

lemma in_table_row:
  assumes "in_table i" and "fst (cfa_form i) = op"
  shows "unat op < 64 \<and>
    take (cfa_num_operands (kTable ! unat op)) (cfa_operand_encodings (kTable ! unat op)) =
      map arg_encoding (snd (cfa_form i))"
  using assms(1) unfolding assms(2) [symmetric]
  by (cases i) (simp_all add: kTable_def kTable_low_def kTable_high_def)

lemma bnd_operand:
  "i < length (cfa_operands s) \<Longrightarrow> bnd (cfa_operand i) f s = f (cfa_operands s ! i) s"
  by (simp add: bnd_def cfa_operand_def)

lemma bnd_scaled:
  fixes s :: "'a::len word dwarf_cfa"
  assumes "address_type TYPE('a)"
  shows "cfa_scalable TYPE('a) (cfa_cie s) k \<Longrightarrow>
      bnd (scaled (of_int k)) f s = f (of_int (k * sint (data_alignment_factor (cfa_cie s)))) s"
    "cfa_scalable TYPE('a) (cfa_cie s) (int n) \<Longrightarrow>
      bnd (scaled (of_nat n)) f s = f (of_int (int n * sint (data_alignment_factor (cfa_cie s)))) s"
  using scaled_of_int [OF _ assms] scaled_of_nat [OF _ assms] by (simp_all add: bnd_def)

lemma handler_row:
  fixes s :: "'a::len word dwarf_cfa"
  assumes tab: "in_table i" and ops: "cfa_operands s = map arg_value (snd (cfa_form i))"
    and rel: "row_rel s row" and ty: "address_type TYPE('a)" and enc: "cfa_encodable (cfa_cie s) i"
    and eff: "cfa_effect (cfa_cie s) (initial_rules s) (cur_offset (cfa_memory s)) i row = Some row'"
  shows "\<exists>h s'. kCfaCallbackTable ! unat (fst (cfa_form i)) = Some h \<and> h s = (Ok (), s') \<and> row_rel s' row' \<and>
    cfa_frame 0 s s'"
proof -
  note [simp] = callback_rows bnd_operand bnd_scaled [OF ty] reg_operand [OF ty] nat_operand [OF ty]
    cfa_instr_defs set_loc_row [OF rel] erase_loc_row [OF rel] restore_reg_row [OF rel]
    advance_pc_row [OF rel ty] negated_fits min_signed_fits
  have [simp]: "row_rel s row" "cfa_frame 0 s s"
    using rel by (simp_all add: cfa_frame_def)
  have adv: ?thesis if "fst (cfa_form i) \<in> {2, 3, 4}" "ucast (cfa_operands s ! 0) = (of_nat n :: u64)"
      "0 < length (cfa_operands s)" "row' = move_pc (cfa_cie s) n row" for n
    using that advance_pc_row [OF rel ty, of n] by auto
  note up = small_operand [OF ty]
  show ?thesis
  proof (cases i)
    case (CSetLoc w)
    then show ?thesis
      using ops eff rel by (auto simp: log_line_def row_rel_def cfa_frame_def)
  next
    case (CAdvance1 w)
    then show ?thesis
      using ops eff up [of w] by (intro adv [of "unat w"]) simp_all
  next
    case (CAdvance2 w)
    then show ?thesis
      using ops eff up [of w] by (intro adv [of "unat w"]) simp_all
  next
    case (CAdvance4 w)
    then show ?thesis
      using ops eff up [of w] by (intro adv [of "unat w"]) simp_all
  next
    case (COffsetExtended reg n)
    then have "of_int (int n * sint (data_alignment_factor (cfa_cie s))) = (of_nat n :: u64)"
      using enc by auto
    then show ?thesis
      using COffsetExtended ops eff [symmetric] enc by (simp del: of_nat_unat of_int_mult)
  next
    case (CRestoreExtended reg)
    then show ?thesis
      using restore_reg_row [OF rel, of reg row'] ops eff by (simp del: of_nat_unat)
  next
    case CRememberState
    then show ?thesis
      using eff rel by (auto simp: row_rel_def cfa_frame_def)
  next
    case CRestoreState
    then show ?thesis
      using eff rel by (auto simp: row_rel_def cfa_frame_def split: list.splits)
  next
    case (CDefCfaRegister reg)
    then show ?thesis
      using ops eff by (auto dest!: change_cfa_row [OF rel] simp del: of_nat_unat of_int_mult)
  next
    case (CDefCfaOffset n)
    then show ?thesis
      using ops eff enc by (auto dest!: change_cfa_row [OF rel] simp del: of_nat_unat of_int_mult)
  next
    case (CDefCfaOffsetSf k)
    then show ?thesis
      using ops eff enc by (auto dest!: change_cfa_row [OF rel] simp del: of_nat_unat of_int_mult)
  qed (use tab ops enc eff [symmetric] in \<open>simp_all del: of_nat_unat of_int_mult\<close>)
qed

lemma cfa_step_fetch:
  assumes "holds_block (memory_of (cfa_memory s)) (cur_offset (cfa_memory s)) (b # bs)"
  shows "cfa_step s = cfa_dispatch b (cfa_advance 1 [] (row_started s))"
proof -
  have "ReadBytes 1 (cfa_memory s) = (Ok [b], (cfa_memory s)\<lparr>cur_offset := cur_offset (cfa_memory s) + 1\<rparr>)"
    using holds_block_bytes [OF assms] by (intro ReadBytes_1) (simp add: holds_bytes_Cons)
  then show ?thesis
    by (cases s) (simp add: cfa_step_eq bnd_def on_fail_def cfa_on_memory_def on_member_def row_started_def
        cfa_advance_def del: One_nat_def)
qed

lemma row_rel_fetched [simp]: "row_rel (cfa_advance n ops (row_started s)) row = row_rel s row"
  by (simp add: row_rel_def cfa_advance_def row_started_def)

lemma fetched_fields [simp]:
  "cfa_operands (cfa_advance n ops (row_started s)) = ops"
  "cfa_cie (cfa_advance n ops (row_started s)) = cfa_cie s"
  "cie_loc_regs (cfa_advance n ops (row_started s)) = cie_loc_regs s"
  "cfa_memory (cfa_advance n ops (row_started s)) =
     (cfa_memory s)\<lparr>cur_offset := cur_offset (cfa_memory s) + of_nat n\<rparr>"
  by (simp_all add: cfa_advance_def row_started_def)

lemma cfa_frame_fetched: "cfa_frame 0 (cfa_advance n ops (row_started s)) s' = cfa_frame n s s'"
  by (simp add: cfa_frame_def cfa_advance_def row_started_def)

lemma cfa_dispatch_table:
  fixes i :: "'a::len word cfa_instr" and h :: "('a, unit) cfa_prog"
  assumes "in_table i" and "fst (cfa_form i) = op" and "kCfaCallbackTable ! unat op = Some h"
  shows "cfa_dispatch op = bnd (cfa_read_operands (map arg_encoding (snd (cfa_form i)))) (\<lambda>_. h)"
proof -
  note row = in_table_row [OF assms(1,2)]
  have "unat op div 64 = 0" "unat (op AND 0x3f) = unat op"
    using row by (simp_all add: unat_cfa_low)
  then show ?thesis
    using row assms(3) by (simp add: cfa_dispatch_def unat_cfa_high)
qed

lemma cfa_step_in_table:
  fixes s :: "'a::len word dwarf_cfa"
  assumes tab: "in_table i" and rel: "row_rel s row" and ty: "address_type TYPE('a)"
    and holds: "holds_block (memory_of (cfa_memory s)) (cur_offset (cfa_memory s)) (cfa_bytes i)"
    and enc: "cfa_encodable (cfa_cie s) i"
    and eff: "cfa_effect (cfa_cie s) (initial_rules s) (cur_offset (cfa_memory s) + of_nat (length (cfa_bytes i))) i row
      = Some row'"
  shows "\<exists>s'. cfa_step s = (Ok (), s') \<and> row_rel s' row' \<and> cfa_frame (length (cfa_bytes i)) s s'"
proof -
  let ?args = "snd (cfa_form i)" and ?op = "fst (cfa_form i)"
  let ?u = "cfa_advance (length (cfa_bytes i)) (map arg_value ?args) (row_started s)"
  obtain h s' where h: "kCfaCallbackTable ! unat ?op = Some h" "h ?u = (Ok (), s')" "row_rel s' row'"
      "cfa_frame 0 ?u s'"
    using handler_row [OF tab, of ?u row row'] rel ty enc eff by (auto simp del: cfa_effect.simps cfa_encodable.simps)
  have block: "holds_block (memory_of (cfa_memory s)) (cur_offset (cfa_memory s) + 1) (concat (map arg_bytes ?args))"
    using holds_block_append(2) [of _ _ "[?op]"] holds by (simp add: cfa_bytes_def)
  have "cfa_read_operands (map arg_encoding ?args) (cfa_advance 1 [] (row_started s)) = (Ok (), ?u)"
    using cfa_read_args [of "cfa_advance 1 [] (row_started s)" ?args] block enc ty
    by (simp add: cfa_advance_advance cfa_bytes_def)
  then have "cfa_step s = h ?u"
    using cfa_step_fetch [of s ?op] holds cfa_dispatch_table [OF tab refl h(1)]
    by (simp add: cfa_bytes_def bnd_def)
  then show ?thesis
    using h by (auto simp: cfa_frame_fetched)
qed

text \<open>The three instructions with an argument in the low bits of the opcode.\<close>

lemma high_bits:
  assumes "n < 64" and "b = of_nat (64 * k + n)" and "k < 4"
  shows "unat (drop_bit 6 b :: u8) = k" "(b AND 0x3f :: u8) = of_nat n"
proof -
  have b: "unat b = 64 * k + n"
    unfolding assms(2) using assms(1,3) by (intro unat_byte) simp
  show "unat (drop_bit 6 b) = k"
    unfolding unat_cfa_high b using assms(1) by simp
  have "unat (b AND 0x3f) = unat (of_nat n :: u8)"
    unfolding unat_cfa_low b using assms(1) by (simp add: unat_byte)
  then show "b AND 0x3f = of_nat n"
    by (simp add: word_unat_eq_iff)
qed

lemma low_bits: "n < 64 \<Longrightarrow> ucast (of_nat n :: u8) = (of_nat n :: 'b::len word)"
  using of_nat_unat [of "of_nat n :: u8", where 'a = "'b word"] unat_byte [of n] by simp

lemma cfa_step_special:
  fixes s :: "'a::len word dwarf_cfa"
  assumes tab: "\<not> in_table i" and rel: "row_rel s row" and ty: "address_type TYPE('a)"
    and holds: "holds_block (memory_of (cfa_memory s)) (cur_offset (cfa_memory s)) (cfa_bytes i)"
    and enc: "cfa_encodable (cfa_cie s) i"
    and eff: "cfa_effect (cfa_cie s) (initial_rules s) pos i row = Some row'"
  shows "\<exists>s'. cfa_step s = (Ok (), s') \<and> row_rel s' row' \<and> cfa_frame (length (cfa_bytes i)) s s'"
proof -
  let ?u = "cfa_advance 1 [] (row_started s)"
  have fetch: "cfa_step s = cfa_dispatch (fst (cfa_form i)) ?u"
    using cfa_step_fetch holds by (simp add: cfa_bytes_def)
  have u: "row_rel ?u row"
    using rel by simp
  show ?thesis
  proof (cases i)
    case (CAdvance n)
    then have n: "n < 64"
      using enc by simp
    have "cfa_dispatch (0x40 + of_nat n) = (advance_pc (of_nat n) :: ('a, unit) cfa_prog)"
      using high_bits [OF n, of "0x40 + of_nat n" 1] n by (simp add: cfa_dispatch_def low_bits)
    then show ?thesis
      using advance_pc_row [OF u ty, of n] CAdvance eff fetch by (simp add: cfa_bytes_def cfa_frame_fetched)
  next
    case (COffset reg n)
    then have reg: "unat reg < 64" and n: "n < 2 ^ 64" "cfa_scalable TYPE('a) (cfa_cie s) (int n)"
      using enc by simp_all
    let ?v = "cfa_advance (length (cfa_bytes i)) [] (row_started s)"
    let ?loc = "location DWARF_LOCATION_OFFSET (of_int (int n * sint (data_alignment_factor (cfa_cie s)))) 0"
    have "holds_bytes (memory_of (cfa_memory ?u)) (cur_offset (cfa_memory ?u)) (uleb128 n)"
      using holds_block_bytes [OF holds] COffset by (simp add: cfa_bytes_def holds_bytes_Cons)
    from ReadULEB128_of_nat [OF this n(1)]
    have "bnd (on_fail (cfa_on_memory ReadULEB128) cfa_memory_error) f ?u = f (of_nat n) ?v"
      for f :: "u64 \<Rightarrow> ('a, unit) cfa_prog"
      using COffset by (cases s) (simp add: bnd_def on_fail_def cfa_on_memory_def on_member_def cfa_bytes_def
          cfa_advance_def row_started_def add.assoc)
    moreover have "bnd (scaled (ucast (of_nat n :: u64))) f ?v =
        f (of_int (int n * sint (data_alignment_factor (cfa_cie s)))) ?v" for f :: "u64 \<Rightarrow> ('a, unit) cfa_prog"
      using bnd_scaled(2) [OF ty, of ?v n f] n(2) address_type_len [OF ty] by (simp add: ucast_of_nat)
    ultimately have "cfa_dispatch (0x80 + ucast reg) ?u = set_loc reg ?loc ?v"
      using high_bits [OF reg, of "0x80 + ucast reg" 2] low_bits [OF reg, where 'b = 32] by (simp add: cfa_dispatch_def)
    then show ?thesis
      using set_loc_row [of ?v row reg ?loc] rel COffset eff fetch by (simp add: cfa_frame_fetched)
  next
    case (CRestore reg)
    then have reg: "unat reg < 64"
      using enc by simp
    have "cfa_dispatch (0xc0 + ucast reg) = (restore_reg reg :: ('a, unit) cfa_prog)"
      using high_bits [OF reg, of "0xc0 + ucast reg" 3] low_bits [OF reg, where 'b = 32] by (simp add: cfa_dispatch_def)
    then show ?thesis
      using restore_reg_row [OF u, of reg row'] CRestore eff fetch by (simp add: cfa_bytes_def cfa_frame_fetched)
  qed (use tab in simp_all)
qed

lemma cfa_step_row:
  fixes s :: "'a::len word dwarf_cfa"
  assumes "row_rel s row" and "address_type TYPE('a)"
    and "holds_block (memory_of (cfa_memory s)) (cur_offset (cfa_memory s)) (cfa_bytes i)"
    and "cfa_encodable (cfa_cie s) i"
    and "cfa_effect (cfa_cie s) (initial_rules s) (cur_offset (cfa_memory s) + of_nat (length (cfa_bytes i))) i row
      = Some row'"
  shows "\<exists>s'. cfa_step s = (Ok (), s') \<and> row_rel s' row' \<and> cfa_frame (length (cfa_bytes i)) s s'"
  using cfa_step_in_table [OF _ assms] cfa_step_special [OF _ assms] by blast

subsection \<open>Whole programs\<close>

lemma loop_row:
  fixes s :: "'a::len word dwarf_cfa"
  assumes "row_rel s row" and "address_type TYPE('a)"
    and "holds_block (memory_of (cfa_memory s)) (cur_offset (cfa_memory s)) (concat (map cfa_bytes prog))"
    and "list_all (cfa_encodable (cfa_cie s)) prog" and "length prog \<le> fuel"
    and "unat (cur_offset (cfa_memory s)) + length (concat (map cfa_bytes prog)) = unat end"
    and "cfa_row_at (cfa_cie s) (initial_rules s) pc (cur_offset (cfa_memory s)) prog row = Some row'"
  shows "\<exists>u. GetLocationInfo_loop fuel pc end s =
      (Ok (), row_ended (if pc < ucast (row_pc row') then ucast (row_pc row') else fde_pc_end (cfa_fde s)) u) \<and>
    row_rel u row'"
  using assms
proof (induction prog arbitrary: s row fuel)
  case Nil
  then have "end \<le> cur_offset (cfa_memory s)" "row' = row" "cur_pc s = row_pc row"
    by (simp_all add: word_le_nat_alt row_rel_def)
  then show ?case
    using Nil.prems(1) by (cases "pc < ucast (cur_pc s)") (auto simp: loop_past loop_end)
next
  case (Cons i prog)
  let ?off = "cur_offset (cfa_memory s)" and ?n = "length (cfa_bytes i)" and ?rest = "concat (map cfa_bytes prog)"
  have pc: "cur_pc s = row_pc row"
    using Cons.prems(1) by (simp add: row_rel_def)
  show ?case
  proof (cases "pc < ucast (row_pc row)")
    case True
    then show ?thesis
      using Cons.prems pc by (auto simp: loop_past)
  next
    case False
    obtain row1 where eff: "cfa_effect (cfa_cie s) (initial_rules s) (?off + of_nat ?n) i row = Some row1"
        "cfa_row_at (cfa_cie s) (initial_rules s) pc (?off + of_nat ?n) prog row1 = Some row'"
      using Cons.prems(7) False by (auto simp: Let_def simp del: cfa_effect.simps split: option.splits)
    have holds: "holds_block (memory_of (cfa_memory s)) ?off (cfa_bytes i)"
        "holds_block (memory_of (cfa_memory s)) (?off + of_nat ?n) ?rest"
      using holds_block_append [of _ _ "cfa_bytes i" ?rest] Cons.prems(3) by simp_all
    obtain s1 where s1: "cfa_step s = (Ok (), s1)" "row_rel s1 row1" "cfa_frame ?n s s1"
      using cfa_step_row [OF Cons.prems(1,2) holds(1) _ eff(1)] Cons.prems(4)
      by (auto simp del: cfa_encodable.simps)
    obtain fuel' where fuel: "fuel = Suc fuel'" "length prog \<le> fuel'"
      using Cons.prems(5) by (cases fuel) simp_all
    have off: "unat (?off + of_nat ?n) = unat ?off + ?n"
      using Cons.prems(6) unat_u64_less [of "end"] by (intro unat_add_of_nat) simp
    have "\<exists>u. GetLocationInfo_loop fuel' pc end s1 =
        (Ok (), row_ended (if pc < ucast (row_pc row') then ucast (row_pc row') else fde_pc_end (cfa_fde s1)) u) \<and>
      row_rel u row'"
      using s1 holds eff Cons.prems fuel off
      by (intro Cons.IH) (simp_all add: cfa_frame_def del: cfa_effect.simps cfa_encodable.simps)
    moreover have "\<not> end \<le> ?off"
      using Cons.prems(6) by (simp add: word_le_nat_alt cfa_bytes_def)
    ultimately show ?thesis
      using s1 False pc fuel(1) by (auto simp: loop_step bnd_def cfa_frame_def)
  qed
qed



section \<open>A program that is interpreted forever\<close>

lemma length_uleb128_wrap: "length (uleb128 (2 ^ 64 - 11)) = 10"
  by (simp add: uleb128.simps)

lemma cfa_step_wraps:
  fixes s :: "'a::len word dwarf_cfa"
  assumes "holds_block (memory_of (cfa_memory s)) (cur_offset (cfa_memory s)) (0x0f # uleb128 (2 ^ 64 - 11))"
  shows "\<exists>s'. cfa_step s = (Ok (), s') \<and> cur_pc s' = cur_pc s \<and> cfa_memory s' = cfa_memory s"
proof -
  let ?u = "cfa_advance 1 [] (row_started s)" and ?n = "2 ^ 64 - 11 :: nat"
  have "holds_bytes (memory_of (cfa_memory ?u)) (cur_offset (cfa_memory ?u)) (uleb128 ?n)"
    using holds_block_bytes [OF assms] by (simp add: holds_bytes_Cons)
  from ReadULEB128_of_nat [OF this]
  have "ReadULEB128 (cfa_memory ?u) = (Ok (of_nat ?n), (cfa_memory s)\<lparr>cur_offset := cur_offset (cfa_memory s) + 11\<rparr>)"
    unfolding length_uleb128_wrap by (simp add: add.assoc)
  moreover have "cfa_dispatch 0x0f ?u = bnd (cfa_read_operands [DW_EH_PE_block]) (\<lambda>_. cfa_def_cfa_expression) ?u"
    using cfa_dispatch_table [of "CDefCfaExpression [] :: 'a word cfa_instr" "0x0f"] by (simp add: callback_rows)
  ultimately show ?thesis
    using cfa_step_fetch [OF assms]
    by (simp add: bnd_def on_fail_def cfa_on_memory_def on_member_def cfa_def_cfa_expression_def cfa_operand_def
        set_cur_offset_def set_loc_def cfa_advance_def row_started_def)
qed

text \<open>
  C38. \<^verbatim>\<open>GetLocationInfo\<close> does not end on every input: an expression block whose length is \<open>2\<^sup>6\<^sup>4 - 11\<close> moves
  the cursor back to its own opcode, so that no number of iterations is enough, for any pc of the
  function.
\<close>

theorem GetLocationInfo_diverges:
  assumes "holds_block (memory_of (cfa_memory s)) start (0x0f # uleb128 (2 ^ 64 - 11))"
    and "start < end" and "fde_pc_start (cfa_fde s) \<le> pc"
  shows "fst (GetLocationInfo fuel pc start end s) = Crash OutOfFuel"
proof -
  have "fst (GetLocationInfo_loop fuel pc end u) = Crash OutOfFuel"
    if "cfa_memory u = (cfa_memory s)\<lparr>cur_offset := start\<rparr>" "ucast (cur_pc u) \<le> pc" for u :: "'a word dwarf_cfa"
    using that
  proof (induction fuel arbitrary: u)
    case 0
    then show ?case
      using assms(2) by (simp add: loop_zero not_less not_le)
  next
    case (Suc fuel)
    obtain v where "cfa_step u = (Ok (), v)" "cur_pc v = cur_pc u" "cfa_memory v = cfa_memory u"
      using cfa_step_wraps [of u] assms(1) Suc.prems(1) by auto
    then show ?case
      using Suc.IH [of v] Suc.prems assms(2) by (simp add: loop_step bnd_def not_less not_le)
  qed
  moreover have "ucast (ucast (fde_pc_start (cfa_fde s)) :: 'a word) \<le> pc"
    using ucast_ucast_u64_le assms(3) by (rule order_trans)
  ultimately show ?thesis
    by (simp add: GetLocationInfo_eq cfa_entry_def Let_def)
qed

theorem GetLocationInfo_diverges_witness:
  "fst (GetLocationInfo 1000000 0x1000 0 11
     (example_cfa [0x0f, 0xf5, 0xff, 0xff, 0xff, 0xff, 0xff, 0xff, 0xff, 0xff, 0x01])) = Crash OutOfFuel"
proof -
  have bytes: "0x0f # uleb128 (2 ^ 64 - 11) = [0x0f, 0xf5, 0xff, 0xff, 0xff, 0xff, 0xff, 0xff, 0xff, 0xff, 0x01]"
    by (simp add: uleb128.simps)
  show ?thesis
    unfolding bytes [symmetric]
    by (rule GetLocationInfo_diverges)
      (simp_all add: example_cfa_def DwarfCfa_def DwarfMemory_def DwarfFde_default_def holds_block_buffer
        length_uleb128_wrap [simplified])
qed

end
