(* ===== verification/Regs.thy ===== *)
theory Regs
  imports Memory
begin

text \<open>
  \<^verbatim>\<open>Regs.cpp\<close>, \<^verbatim>\<open>RegsArm.cpp\<close>, \<^verbatim>\<open>RegsArm64.cpp\<close>, \<^verbatim>\<open>RegsX86.cpp\<close>, \<^verbatim>\<open>RegsX86_64.cpp\<close>, \<^verbatim>\<open>RegsMips.cpp\<close>,
  \<^verbatim>\<open>RegsMips64.cpp\<close> and the headers with the register numbers, the user structures and the signal
  contexts: register sets of the six architectures, how they are filled from the kernel's
  structures, the step over a signal handler, and the adjustment of a return address.

  An enumeration of registers, or a structure whose members are words of one size, is the list of
  its names in the order of the source; the values are a list of words in the same order.
\<close>

section \<open>Enumerations and structures\<close>

fun idx :: "string list \<Rightarrow> string \<Rightarrow> nat" where
  "idx [] name = 0"
| "idx (n # ns) name = (if n = name then 0 else Suc (idx ns name))"

definition get_field :: "string list \<Rightarrow> string \<Rightarrow> 'a::len word list \<Rightarrow> 'a word" where
  "get_field names name vals = vals ! idx names name"

definition set_field :: "string list \<Rightarrow> string \<Rightarrow> 'a::len word \<Rightarrow> 'a word list \<Rightarrow> 'a word list" where
  "set_field names name v vals = vals[idx names name := v]"

datatype ArchEnum = ARCH_UNKNOWN | ARCH_ARM | ARCH_ARM64 | ARCH_X86 | ARCH_X86_64 | ARCH_MIPS | ARCH_MIPS64

definition ArmReg :: "string list" where
  "ArmReg = [
     ''R0'', ''R1'', ''R2'', ''R3'', ''R4'', ''R5'', ''R6'', ''R7'', ''R8'', ''R9'', ''R10'', ''R11'',
     ''R12'', ''R13'', ''R14'', ''R15'']"

definition Arm64Reg :: "string list" where
  "Arm64Reg = [
     ''R0'', ''R1'', ''R2'', ''R3'', ''R4'', ''R5'', ''R6'', ''R7'', ''R8'', ''R9'', ''R10'', ''R11'',
     ''R12'', ''R13'', ''R14'', ''R15'', ''R16'', ''R17'', ''R18'', ''R19'', ''R20'', ''R21'', ''R22'',
     ''R23'', ''R24'', ''R25'', ''R26'', ''R27'', ''R28'', ''R29'', ''R30'', ''R31'', ''PC'']"

definition X86Reg :: "string list" where
  "X86Reg = [
     ''EAX'', ''ECX'', ''EDX'', ''EBX'', ''ESP'', ''EBP'', ''ESI'', ''EDI'', ''EIP'', ''EFL'', ''CS'',
     ''SS'', ''DS'', ''ES'', ''FS'', ''GS'']"

definition X86_64Reg :: "string list" where
  "X86_64Reg = [
     ''RAX'', ''RDX'', ''RCX'', ''RBX'', ''RSI'', ''RDI'', ''RBP'', ''RSP'', ''R8'', ''R9'', ''R10'',
     ''R11'', ''R12'', ''R13'', ''R14'', ''R15'', ''RIP'']"

definition MipsReg :: "string list" where
  "MipsReg = [
     ''R0'', ''R1'', ''R2'', ''R3'', ''R4'', ''R5'', ''R6'', ''R7'', ''R8'', ''R9'', ''R10'', ''R11'',
     ''R12'', ''R13'', ''R14'', ''R15'', ''R16'', ''R17'', ''R18'', ''R19'', ''R20'', ''R21'', ''R22'',
     ''R23'', ''R24'', ''R25'', ''R26'', ''R27'', ''R28'', ''R29'', ''R30'', ''R31'', ''PC'']"

definition Mips64Reg :: "string list" where
  "Mips64Reg = [
     ''R0'', ''R1'', ''R2'', ''R3'', ''R4'', ''R5'', ''R6'', ''R7'', ''R8'', ''R9'', ''R10'', ''R11'',
     ''R12'', ''R13'', ''R14'', ''R15'', ''R16'', ''R17'', ''R18'', ''R19'', ''R20'', ''R21'', ''R22'',
     ''R23'', ''R24'', ''R25'', ''R26'', ''R27'', ''R28'', ''R29'', ''R30'', ''R31'', ''PC'']"

definition x86_mcontext_t :: "string list" where
  "x86_mcontext_t = [
     ''gs'', ''fs'', ''es'', ''ds'', ''edi'', ''esi'', ''ebp'', ''esp'', ''ebx'', ''edx'', ''ecx'',
     ''eax'', ''trapno'', ''err'', ''eip'', ''cs'', ''efl'', ''uesp'', ''ss'']"

definition x86_64_mcontext_t :: "string list" where
  "x86_64_mcontext_t = [
     ''r8'', ''r9'', ''r10'', ''r11'', ''r12'', ''r13'', ''r14'', ''r15'', ''rdi'', ''rsi'', ''rbp'',
     ''rbx'', ''rdx'', ''rax'', ''rcx'', ''rsp'', ''rip'', ''efl'', ''csgsfs'', ''err'', ''trapno'',
     ''oldmask'', ''cr2'']"

definition x86_user_regs :: "string list" where
  "x86_user_regs = [
     ''ebx'', ''ecx'', ''edx'', ''esi'', ''edi'', ''ebp'', ''eax'', ''xds'', ''xes'', ''xfs'', ''xgs'',
     ''orig_eax'', ''eip'', ''xcs'', ''eflags'', ''esp'', ''xss'']"

definition x86_64_user_regs :: "string list" where
  "x86_64_user_regs = [
     ''r15'', ''r14'', ''r13'', ''r12'', ''rbp'', ''rbx'', ''r11'', ''r10'', ''r9'', ''r8'', ''rax'',
     ''rcx'', ''rdx'', ''rsi'', ''rdi'', ''orig_rax'', ''rip'', ''cs'', ''eflags'', ''rsp'', ''ss'',
     ''fs_base'', ''gs_base'', ''ds'', ''es'', ''fs'', ''gs'']"

text \<open>Consecutive words in memory.\<close>

definition words_of :: "nat \<Rightarrow> u8 list \<Rightarrow> 'a::len word list" where
  "words_of n bs = map (\<lambda>i. le_word (take (sizeof TYPE('a)) (drop (i * sizeof TYPE('a)) bs))) [0..<n]"

definition bytes_of :: "'a::len word list \<Rightarrow> u8 list" where
  "bytes_of ws = concat (map (le_bytes (sizeof TYPE('a))) ws)"

definition read_words :: "memory \<Rightarrow> u64 \<Rightarrow> nat \<Rightarrow> 'a::len word list option" where
  "read_words mem addr n = map_option (words_of n) (ReadFully mem addr (n * sizeof TYPE('a)))"

text \<open>
  \<^verbatim>\<open>Read(addr, &vals[0], n * sizeof(vals[0]))\<close> into a vector: the number of bytes read, and the vector,
  of which a short read replaces a part.
\<close>

definition read_over :: "memory \<Rightarrow> u64 \<Rightarrow> nat \<Rightarrow> 'a::len word list \<Rightarrow> nat \<times> 'a word list" where
  "read_over mem addr n vals =
     (let bs = mem addr (n * sizeof TYPE('a)) in
      (length bs, words_of n (bs @ drop (length bs) (bytes_of (take n vals))) @ drop n vals))"

section \<open>Register sets\<close>

datatype Location = LOCATION_UNKNOWN | LOCATION_REGISTER nat | LOCATION_SP_OFFSET int

record regs_class =
  class_arch :: ArchEnum
  class_total :: nat
  class_return :: Location
  class_pc :: nat
  class_sp :: nat

text \<open>The constructor, and the registers that \<^verbatim>\<open>pc()\<close>, \<^verbatim>\<open>sp()\<close>, \<^verbatim>\<open>set_pc\<close> and \<^verbatim>\<open>set_sp\<close> stand for.\<close>

definition RegsArm_class :: regs_class where
  "RegsArm_class = \<lparr>class_arch = ARCH_ARM, class_total = length ArmReg,
     class_return = LOCATION_REGISTER (idx ArmReg ''R14''),
     class_pc = idx ArmReg ''R15'', class_sp = idx ArmReg ''R13''\<rparr>"

definition RegsArm64_class :: regs_class where
  "RegsArm64_class = \<lparr>class_arch = ARCH_ARM64, class_total = length Arm64Reg,
     class_return = LOCATION_REGISTER (idx Arm64Reg ''R30''),
     class_pc = idx Arm64Reg ''PC'', class_sp = idx Arm64Reg ''R31''\<rparr>"

definition RegsX86_class :: regs_class where
  "RegsX86_class = \<lparr>class_arch = ARCH_X86, class_total = length X86Reg,
     class_return = LOCATION_SP_OFFSET (-4),
     class_pc = idx X86Reg ''EIP'', class_sp = idx X86Reg ''ESP''\<rparr>"

definition RegsX86_64_class :: regs_class where
  "RegsX86_64_class = \<lparr>class_arch = ARCH_X86_64, class_total = length X86_64Reg,
     class_return = LOCATION_SP_OFFSET (-8),
     class_pc = idx X86_64Reg ''RIP'', class_sp = idx X86_64Reg ''RSP''\<rparr>"

definition RegsMips_class :: regs_class where
  "RegsMips_class = \<lparr>class_arch = ARCH_MIPS, class_total = length MipsReg,
     class_return = LOCATION_REGISTER (idx MipsReg ''R31''),
     class_pc = idx MipsReg ''PC'', class_sp = idx MipsReg ''R29''\<rparr>"

definition RegsMips64_class :: regs_class where
  "RegsMips64_class = \<lparr>class_arch = ARCH_MIPS64, class_total = length Mips64Reg,
     class_return = LOCATION_REGISTER (idx Mips64Reg ''R31''),
     class_pc = idx Mips64Reg ''PC'', class_sp = idx Mips64Reg ''R29''\<rparr>"

text \<open>An object of one of the classes: the members of \<^verbatim>\<open>Regs\<close> and \<^verbatim>\<open>RegsImpl\<close>.\<close>

record 'w cpu_regs =
  reg_class :: regs_class
  reg_vals :: "'w list"
  dex_pc :: u64

definition new_regs :: "regs_class \<Rightarrow> 'a::len word cpu_regs" where
  "new_regs cls = \<lparr>reg_class = cls, reg_vals = replicate (class_total cls) 0, dex_pc = 0\<rparr>"

definition total_regs :: "'w cpu_regs \<Rightarrow> nat" where
  "total_regs r = class_total (reg_class r)"

definition reg_pc :: "'a::len word cpu_regs \<Rightarrow> u64" where
  "reg_pc r = ucast (reg_vals r ! class_pc (reg_class r))"

definition reg_sp :: "'a::len word cpu_regs \<Rightarrow> u64" where
  "reg_sp r = ucast (reg_vals r ! class_sp (reg_class r))"

definition set_pc :: "u64 \<Rightarrow> 'a::len word cpu_regs \<Rightarrow> 'a word cpu_regs" where
  "set_pc v r = r\<lparr>reg_vals := (reg_vals r)[class_pc (reg_class r) := ucast v]\<rparr>"

definition set_sp :: "u64 \<Rightarrow> 'a::len word cpu_regs \<Rightarrow> 'a word cpu_regs" where
  "set_sp v r = r\<lparr>reg_vals := (reg_vals r)[class_sp (reg_class r) := ucast v]\<rparr>"

definition set_dex_pc :: "u64 \<Rightarrow> 'w cpu_regs \<Rightarrow> 'w cpu_regs" where
  "set_dex_pc v r = r\<lparr>dex_pc := v\<rparr>"

definition Is32Bit :: "'a::len word cpu_regs \<Rightarrow> bool" where
  "Is32Bit r \<longleftrightarrow> sizeof TYPE('a) = 4"

definition RegsImpl_IterateRegisters :: "'a::len word cpu_regs \<Rightarrow> (string \<times> u64) list" where
  "RegsImpl_IterateRegisters r = map (\<lambda>i. (dec i, ucast (reg_vals r ! i))) [0..<length (reg_vals r)]"

definition RegsArm_IterateRegisters :: "u32 cpu_regs \<Rightarrow> (string \<times> u64) list" where
  "RegsArm_IterateRegisters r =
     map (\<lambda>(name, reg). (name, ucast (get_field ArmReg reg (reg_vals r))))
       [
        (''r0'', ''R0''), (''r1'', ''R1''), (''r2'', ''R2''), (''r3'', ''R3''), (''r4'', ''R4''),
        (''r5'', ''R5''), (''r6'', ''R6''), (''r7'', ''R7''), (''r8'', ''R8''), (''r9'', ''R9''),
        (''r10'', ''R10''), (''r11'', ''R11''), (''ip'', ''R12''), (''sp'', ''R13''), (''lr'', ''R14''),
        (''pc'', ''R15'')]"

definition RegsArm64_IterateRegisters :: "u64 cpu_regs \<Rightarrow> (string \<times> u64) list" where
  "RegsArm64_IterateRegisters r =
     map (\<lambda>(name, reg). (name, ucast (get_field Arm64Reg reg (reg_vals r))))
       [
        (''x0'', ''R0''), (''x1'', ''R1''), (''x2'', ''R2''), (''x3'', ''R3''), (''x4'', ''R4''),
        (''x5'', ''R5''), (''x6'', ''R6''), (''x7'', ''R7''), (''x8'', ''R8''), (''x9'', ''R9''),
        (''x10'', ''R10''), (''x11'', ''R11''), (''x12'', ''R12''), (''x13'', ''R13''), (''x14'', ''R14''),
        (''x15'', ''R15''), (''x16'', ''R16''), (''x17'', ''R17''), (''x18'', ''R18''), (''x19'', ''R19''),
        (''x20'', ''R20''), (''x21'', ''R21''), (''x22'', ''R22''), (''x23'', ''R23''), (''x24'', ''R24''),
        (''x25'', ''R25''), (''x26'', ''R26''), (''x27'', ''R27''), (''x28'', ''R28''), (''x29'', ''R29''),
        (''sp'', ''R31''), (''lr'', ''R30''), (''pc'', ''PC'')]"

definition RegsX86_IterateRegisters :: "u32 cpu_regs \<Rightarrow> (string \<times> u64) list" where
  "RegsX86_IterateRegisters r =
     map (\<lambda>(name, reg). (name, ucast (get_field X86Reg reg (reg_vals r))))
       [
        (''eax'', ''EAX''), (''ebx'', ''EBX''), (''ecx'', ''ECX''), (''edx'', ''EDX''), (''ebp'', ''EBP''),
        (''edi'', ''EDI''), (''esi'', ''ESI''), (''esp'', ''ESP''), (''eip'', ''EIP'')]"

definition RegsX86_64_IterateRegisters :: "u64 cpu_regs \<Rightarrow> (string \<times> u64) list" where
  "RegsX86_64_IterateRegisters r =
     map (\<lambda>(name, reg). (name, ucast (get_field X86_64Reg reg (reg_vals r))))
       [
        (''rax'', ''RAX''), (''rbx'', ''RBX''), (''rcx'', ''RCX''), (''rdx'', ''RDX''), (''r8'', ''R8''),
        (''r9'', ''R9''), (''r10'', ''R10''), (''r11'', ''R11''), (''r12'', ''R12''), (''r13'', ''R13''),
        (''r14'', ''R14''), (''r15'', ''R15''), (''rdi'', ''RDI''), (''rsi'', ''RSI''), (''rbp'', ''RBP''),
        (''rsp'', ''RSP''), (''rip'', ''RIP'')]"

definition RegsMips_IterateRegisters :: "u32 cpu_regs \<Rightarrow> (string \<times> u64) list" where
  "RegsMips_IterateRegisters r =
     map (\<lambda>(name, reg). (name, ucast (get_field MipsReg reg (reg_vals r))))
       [
        (''r0'', ''R0''), (''r1'', ''R1''), (''r2'', ''R2''), (''r3'', ''R3''), (''r4'', ''R4''),
        (''r5'', ''R5''), (''r6'', ''R6''), (''r7'', ''R7''), (''r8'', ''R8''), (''r9'', ''R9''),
        (''r10'', ''R10''), (''r11'', ''R11''), (''r12'', ''R12''), (''r13'', ''R13''), (''r14'', ''R14''),
        (''r15'', ''R15''), (''r16'', ''R16''), (''r17'', ''R17''), (''r18'', ''R18''), (''r19'', ''R19''),
        (''r20'', ''R20''), (''r21'', ''R21''), (''r22'', ''R22''), (''r23'', ''R23''), (''r24'', ''R24''),
        (''r25'', ''R25''), (''r26'', ''R26''), (''r27'', ''R27''), (''r28'', ''R28''), (''sp'', ''R29''),
        (''r30'', ''R30''), (''ra'', ''R31''), (''pc'', ''PC'')]"

definition RegsMips64_IterateRegisters :: "u64 cpu_regs \<Rightarrow> (string \<times> u64) list" where
  "RegsMips64_IterateRegisters r =
     map (\<lambda>(name, reg). (name, ucast (get_field Mips64Reg reg (reg_vals r))))
       [
        (''r0'', ''R0''), (''r1'', ''R1''), (''r2'', ''R2''), (''r3'', ''R3''), (''r4'', ''R4''),
        (''r5'', ''R5''), (''r6'', ''R6''), (''r7'', ''R7''), (''r8'', ''R8''), (''r9'', ''R9''),
        (''r10'', ''R10''), (''r11'', ''R11''), (''r12'', ''R12''), (''r13'', ''R13''), (''r14'', ''R14''),
        (''r15'', ''R15''), (''r16'', ''R16''), (''r17'', ''R17''), (''r18'', ''R18''), (''r19'', ''R19''),
        (''r20'', ''R20''), (''r21'', ''R21''), (''r22'', ''R22''), (''r23'', ''R23''), (''r24'', ''R24''),
        (''r25'', ''R25''), (''r26'', ''R26''), (''r27'', ''R27''), (''r28'', ''R28''), (''sp'', ''R29''),
        (''r30'', ''R30''), (''ra'', ''R31''), (''pc'', ''PC'')]"

section \<open>Return addresses\<close>

text \<open>What the functions use of an \<^verbatim>\<open>Elf\<close> object: \<^verbatim>\<open>valid()\<close>, \<^verbatim>\<open>GetLoadBias()\<close> and \<^verbatim>\<open>memory()\<close>.\<close>

record elf_view =
  elf_valid :: bool
  elf_load_bias :: u64
  elf_memory :: memory

definition RegsArm_GetPcAdjustment :: "u64 \<Rightarrow> elf_view \<Rightarrow> u64" where
  "RegsArm_GetPcAdjustment rel_pc elf =
     (if \<not> elf_valid elf then 2
      else
        let load_bias = elf_load_bias elf in
        if rel_pc < load_bias then (if rel_pc < 2 then 0 else 2)
        else
          let adjusted_rel_pc = rel_pc - load_bias in
          if adjusted_rel_pc < 5 then (if adjusted_rel_pc < 2 then 0 else 2)
          else if adjusted_rel_pc AND 1 \<noteq> 0 then
            (case read_word (elf_memory elf) (adjusted_rel_pc - 5) of
               None \<Rightarrow> 2
             | Some value \<Rightarrow> if (value :: u32) AND 0xe000f000 \<noteq> 0xe000f000 then 2 else 4)
          else 4)"

definition RegsArm64_GetPcAdjustment :: "u64 \<Rightarrow> u64" where
  "RegsArm64_GetPcAdjustment rel_pc = (if rel_pc < 4 then 0 else 4)"

definition RegsX86_GetPcAdjustment :: "u64 \<Rightarrow> u64" where
  "RegsX86_GetPcAdjustment rel_pc = (if rel_pc = 0 then 0 else 1)"

definition RegsX86_64_GetPcAdjustment :: "u64 \<Rightarrow> u64" where
  "RegsX86_64_GetPcAdjustment rel_pc = (if rel_pc = 0 then 0 else 1)"

definition RegsMips_GetPcAdjustment :: "u64 \<Rightarrow> u64" where
  "RegsMips_GetPcAdjustment rel_pc = (if rel_pc < 8 then 0 else 8)"

definition RegsMips64_GetPcAdjustment :: "u64 \<Rightarrow> u64" where
  "RegsMips64_GetPcAdjustment rel_pc = (if rel_pc < 8 then 0 else 8)"

definition GetPcAdjustment :: "ArchEnum \<Rightarrow> u64 \<Rightarrow> elf_view \<Rightarrow> u64" where
  "GetPcAdjustment arch rel_pc elf =
     (case arch of
        ARCH_ARM \<Rightarrow> RegsArm_GetPcAdjustment rel_pc elf
      | ARCH_ARM64 \<Rightarrow> RegsArm64_GetPcAdjustment rel_pc
      | ARCH_X86 \<Rightarrow> RegsX86_GetPcAdjustment rel_pc
      | ARCH_X86_64 \<Rightarrow> RegsX86_64_GetPcAdjustment rel_pc
      | ARCH_MIPS \<Rightarrow> RegsMips_GetPcAdjustment rel_pc
      | ARCH_MIPS64 \<Rightarrow> RegsMips64_GetPcAdjustment rel_pc
      | ARCH_UNKNOWN \<Rightarrow> 0)"

text \<open>The result and the registers after the call.\<close>

definition RegsArm_SetPcFromReturnAddress :: "u32 cpu_regs \<Rightarrow> bool \<times> u32 cpu_regs" where
  "RegsArm_SetPcFromReturnAddress r =
     (let lr = get_field ArmReg ''R14'' (reg_vals r) in
      if get_field ArmReg ''R15'' (reg_vals r) = lr then (False, r)
      else (True, r\<lparr>reg_vals := set_field ArmReg ''R15'' lr (reg_vals r)\<rparr>))"

definition RegsArm64_SetPcFromReturnAddress :: "u64 cpu_regs \<Rightarrow> bool \<times> u64 cpu_regs" where
  "RegsArm64_SetPcFromReturnAddress r =
     (let lr = get_field Arm64Reg ''R30'' (reg_vals r) in
      if get_field Arm64Reg ''PC'' (reg_vals r) = lr then (False, r)
      else (True, r\<lparr>reg_vals := set_field Arm64Reg ''PC'' lr (reg_vals r)\<rparr>))"

definition RegsX86_SetPcFromReturnAddress :: "memory \<Rightarrow> u32 cpu_regs \<Rightarrow> bool \<times> u32 cpu_regs" where
  "RegsX86_SetPcFromReturnAddress process_memory r =
     (case read_word process_memory (ucast (get_field X86Reg ''ESP'' (reg_vals r))) of
        None \<Rightarrow> (False, r)
      | Some new_pc \<Rightarrow>
          if new_pc = get_field X86Reg ''EIP'' (reg_vals r) then (False, r)
          else (True, r\<lparr>reg_vals := set_field X86Reg ''EIP'' new_pc (reg_vals r)\<rparr>))"

definition RegsX86_64_SetPcFromReturnAddress :: "memory \<Rightarrow> u64 cpu_regs \<Rightarrow> bool \<times> u64 cpu_regs" where
  "RegsX86_64_SetPcFromReturnAddress process_memory r =
     (case read_word process_memory (get_field X86_64Reg ''RSP'' (reg_vals r)) of
        None \<Rightarrow> (False, r)
      | Some new_pc \<Rightarrow>
          if new_pc = get_field X86_64Reg ''RIP'' (reg_vals r) then (False, r)
          else (True, r\<lparr>reg_vals := set_field X86_64Reg ''RIP'' new_pc (reg_vals r)\<rparr>))"

definition RegsMips_SetPcFromReturnAddress :: "u32 cpu_regs \<Rightarrow> bool \<times> u32 cpu_regs" where
  "RegsMips_SetPcFromReturnAddress r =
     (let ra = get_field MipsReg ''R31'' (reg_vals r) in
      if get_field MipsReg ''PC'' (reg_vals r) = ra then (False, r)
      else (True, r\<lparr>reg_vals := set_field MipsReg ''PC'' ra (reg_vals r)\<rparr>))"

definition RegsMips64_SetPcFromReturnAddress :: "u64 cpu_regs \<Rightarrow> bool \<times> u64 cpu_regs" where
  "RegsMips64_SetPcFromReturnAddress r =
     (let ra = get_field Mips64Reg ''R31'' (reg_vals r) in
      if get_field Mips64Reg ''PC'' (reg_vals r) = ra then (False, r)
      else (True, r\<lparr>reg_vals := set_field Mips64Reg ''PC'' ra (reg_vals r)\<rparr>))"

section \<open>Registers from the kernel's structures\<close>

definition arm_user_regs_len :: nat where "arm_user_regs_len = 18"
definition arm64_user_regs_len :: nat where "arm64_user_regs_len = 34"
definition mips_user_regs_len :: nat where "mips_user_regs_len = 45"
definition mips64_user_regs_len :: nat where "mips64_user_regs_len = 45"

definition RegsArm_Read :: "u32 list \<Rightarrow> u32 cpu_regs" where
  "RegsArm_Read user = (new_regs RegsArm_class)\<lparr>reg_vals := take (length ArmReg) user\<rparr>"

text \<open>The members \<^verbatim>\<open>sp\<close> and \<^verbatim>\<open>pc\<close> follow the array of 31 registers.\<close>

definition RegsArm64_Read :: "u64 list \<Rightarrow> u64 cpu_regs" where
  "RegsArm64_Read user =
     (new_regs RegsArm64_class)\<lparr>reg_vals :=
        set_field Arm64Reg ''R31'' (user ! 31) (set_field Arm64Reg ''PC'' (user ! 32) (take 32 user @ [0]))\<rparr>"

definition RegsX86_Read :: "u32 list \<Rightarrow> u32 cpu_regs" where
  "RegsX86_Read user =
     (let user_reg = (\<lambda>name. get_field x86_user_regs name user) in
      (new_regs RegsX86_class)\<lparr>reg_vals :=
        fold (\<lambda>(reg, name). set_field X86Reg reg (user_reg name))
          [(''EAX'', ''eax''), (''EBX'', ''ebx''), (''ECX'', ''ecx''), (''EDX'', ''edx''), (''EBP'', ''ebp''),
           (''EDI'', ''edi''), (''ESI'', ''esi''), (''ESP'', ''esp''), (''EIP'', ''eip'')]
          (reg_vals (new_regs RegsX86_class))\<rparr>)"

definition RegsX86_64_Read :: "u64 list \<Rightarrow> u64 cpu_regs" where
  "RegsX86_64_Read user =
     (let user_reg = (\<lambda>name. get_field x86_64_user_regs name user) in
      (new_regs RegsX86_64_class)\<lparr>reg_vals :=
        fold (\<lambda>(reg, name). set_field X86_64Reg reg (user_reg name))
          [(''RAX'', ''rax''), (''RBX'', ''rbx''), (''RCX'', ''rcx''), (''RDX'', ''rdx''), (''R8'', ''r8''),
           (''R9'', ''r9''), (''R10'', ''r10''), (''R11'', ''r11''), (''R12'', ''r12''), (''R13'', ''r13''),
           (''R14'', ''r14''), (''R15'', ''r15''), (''RDI'', ''rdi''), (''RSI'', ''rsi''), (''RBP'', ''rbp''),
           (''RSP'', ''rsp''), (''RIP'', ''rip'')]
          (reg_vals (new_regs RegsX86_64_class))\<rparr>)"

definition RegsMips_Read :: "u32 list \<Rightarrow> u32 cpu_regs" where
  "RegsMips_Read user =
     (new_regs RegsMips_class)\<lparr>reg_vals := set_field MipsReg ''PC'' (user ! 40) (take 32 (drop 6 user) @ [0])\<rparr>"

definition RegsMips64_Read :: "u64 list \<Rightarrow> u64 cpu_regs" where
  "RegsMips64_Read user =
     (new_regs RegsMips64_class)\<lparr>reg_vals := set_field Mips64Reg ''PC'' (user ! 34) (take 32 (drop 0 user) @ [0])\<rparr>"

datatype any_regs = Regs32 "u32 cpu_regs" | Regs64 "u64 cpu_regs"

text \<open>\<^verbatim>\<open>ptrace\<close> is the contents of the buffer up to \<^verbatim>\<open>iov_len\<close> after a successful request.\<close>

definition RemoteGet :: "u8 list option \<Rightarrow> any_regs option" where
  "RemoteGet ptrace =
     (case ptrace of
        None \<Rightarrow> None
      | Some buffer \<Rightarrow>
          let iov_len = length buffer in
          if iov_len = 4 * length x86_user_regs then
            Some (Regs32 (RegsX86_Read (words_of (length x86_user_regs) buffer)))
          else if iov_len = 8 * length x86_64_user_regs then
            Some (Regs64 (RegsX86_64_Read (words_of (length x86_64_user_regs) buffer)))
          else if iov_len = 4 * arm_user_regs_len then
            Some (Regs32 (RegsArm_Read (words_of arm_user_regs_len buffer)))
          else if iov_len = 8 * arm64_user_regs_len then
            Some (Regs64 (RegsArm64_Read (words_of arm64_user_regs_len buffer)))
          else if iov_len = 4 * mips_user_regs_len then
            Some (Regs32 (RegsMips_Read (words_of mips_user_regs_len buffer)))
          else if iov_len = 8 * mips64_user_regs_len then
            Some (Regs64 (RegsMips64_Read (words_of mips64_user_regs_len buffer)))
          else None)"

section \<open>Signal contexts\<close>

text \<open>
  A \<^verbatim>\<open>ucontext\<close> structure as its bytes. The offsets are those of the members \<^verbatim>\<open>uc_mcontext\<close>, with the
  padding that the alignment of the members asks for.
\<close>

definition align_up :: "nat \<Rightarrow> nat \<Rightarrow> nat" where
  "align_up a n = (n + a - 1) div a * a"

definition arm_uc_mcontext :: nat where "arm_uc_mcontext = 4 + 4 + 3 * 4"
definition arm_mcontext_regs :: nat where "arm_mcontext_regs = 3 * 4"
definition arm64_uc_mcontext :: nat where "arm64_uc_mcontext = align_up 16 (8 + 8 + 3 * 8 + 8 + (128 - 8))"
definition arm64_mcontext_regs :: nat where "arm64_mcontext_regs = 8"
definition x86_uc_mcontext :: nat where "x86_uc_mcontext = 4 + 4 + 3 * 4"
definition x86_64_uc_mcontext :: nat where "x86_64_uc_mcontext = 8 + 8 + (8 + 4 + 4 + 8)"
definition mips_uc_mcontext :: nat where "mips_uc_mcontext = align_up 8 (4 + 4 + 3 * 4)"
definition mips_mcontext_pc :: nat where "mips_mcontext_pc = 4 + 4"
definition mips64_uc_mcontext :: nat where "mips64_uc_mcontext = 8 + 8 + align_up 8 (8 + 8 + 4)"
definition mips64_mcontext_pc :: nat where "mips64_mcontext_pc = 32 * 8 + 32 * 8 + 8 * 8"

lemmas ucontext_offsets =
  arm_uc_mcontext_def arm_mcontext_regs_def arm64_uc_mcontext_def arm64_mcontext_regs_def
  x86_uc_mcontext_def x86_64_uc_mcontext_def mips_uc_mcontext_def mips_mcontext_pc_def
  mips64_uc_mcontext_def mips64_mcontext_pc_def align_up_def

definition RegsArm_CreateFromUcontext :: "u8 list \<Rightarrow> u32 cpu_regs" where
  "RegsArm_CreateFromUcontext uc =
     (new_regs RegsArm_class)\<lparr>reg_vals := words_of (length ArmReg) (drop (arm_uc_mcontext + arm_mcontext_regs) uc)\<rparr>"

definition RegsArm64_CreateFromUcontext :: "u8 list \<Rightarrow> u64 cpu_regs" where
  "RegsArm64_CreateFromUcontext uc =
     (new_regs RegsArm64_class)\<lparr>reg_vals :=
        words_of (length Arm64Reg) (drop (arm64_uc_mcontext + arm64_mcontext_regs) uc)\<rparr>"

text \<open>\<open>mc\<close> is the member \<^verbatim>\<open>uc_mcontext\<close>.\<close>

definition RegsX86_SetFromUcontext :: "u32 list \<Rightarrow> u32 cpu_regs \<Rightarrow> u32 cpu_regs" where
  "RegsX86_SetFromUcontext mc r =
     r\<lparr>reg_vals :=
       fold (\<lambda>(reg, name). set_field X86Reg reg (get_field x86_mcontext_t name mc))
         [(''EDI'', ''edi''), (''ESI'', ''esi''), (''EBP'', ''ebp''), (''ESP'', ''esp''), (''EBX'', ''ebx''),
          (''EDX'', ''edx''), (''ECX'', ''ecx''), (''EAX'', ''eax''), (''EIP'', ''eip'')]
         (reg_vals r)\<rparr>"

definition RegsX86_CreateFromUcontext :: "u8 list \<Rightarrow> u32 cpu_regs" where
  "RegsX86_CreateFromUcontext uc =
     RegsX86_SetFromUcontext (words_of (length x86_mcontext_t) (drop x86_uc_mcontext uc)) (new_regs RegsX86_class)"

text \<open>\<^verbatim>\<open>memcpy\<close> of eight words from the member \<^verbatim>\<open>r8\<close> on, then the other registers.\<close>

definition RegsX86_64_SetFromUcontext :: "u64 list \<Rightarrow> u64 cpu_regs \<Rightarrow> u64 cpu_regs" where
  "RegsX86_64_SetFromUcontext mc r =
     (let r8 = idx X86_64Reg ''R8'';
          vals = take r8 (reg_vals r) @ take 8 (drop (idx x86_64_mcontext_t ''r8'') mc) @ drop (r8 + 8) (reg_vals r) in
      r\<lparr>reg_vals :=
        fold (\<lambda>(reg, name). set_field X86_64Reg reg (get_field x86_64_mcontext_t name mc))
          [(''RDI'', ''rdi''), (''RSI'', ''rsi''), (''RBP'', ''rbp''), (''RBX'', ''rbx''), (''RDX'', ''rdx''),
           (''RAX'', ''rax''), (''RCX'', ''rcx''), (''RSP'', ''rsp''), (''RIP'', ''rip'')]
          vals\<rparr>)"

definition RegsX86_64_CreateFromUcontext :: "u8 list \<Rightarrow> u64 cpu_regs" where
  "RegsX86_64_CreateFromUcontext uc =
     RegsX86_64_SetFromUcontext (words_of (length x86_64_mcontext_t) (drop x86_64_uc_mcontext uc))
       (new_regs RegsX86_64_class)"

text \<open>\<^verbatim>\<open>sc_pc\<close> is followed by the 32 elements of \<^verbatim>\<open>sc_regs\<close>, all of 64 bits.\<close>

definition RegsMips_CreateFromUcontext :: "u8 list \<Rightarrow> u32 cpu_regs" where
  "RegsMips_CreateFromUcontext uc =
     (let sc = words_of 33 (drop (mips_uc_mcontext + mips_mcontext_pc) uc) :: u64 list in
      (new_regs RegsMips_class)\<lparr>reg_vals :=
        set_field MipsReg ''PC'' (ucast (sc ! 0)) (map ucast (take 32 (drop 1 sc)) @ [0])\<rparr>)"

definition RegsMips64_CreateFromUcontext :: "u8 list \<Rightarrow> u64 cpu_regs" where
  "RegsMips64_CreateFromUcontext uc =
     (new_regs RegsMips64_class)\<lparr>reg_vals :=
        set_field Mips64Reg ''PC'' (words_of 1 (drop (mips64_uc_mcontext + mips64_mcontext_pc) uc) ! 0)
          (words_of 32 (drop mips64_uc_mcontext uc) @ [0])\<rparr>"

definition CreateFromUcontext :: "ArchEnum \<Rightarrow> u8 list \<Rightarrow> any_regs option" where
  "CreateFromUcontext arch uc =
     (case arch of
        ARCH_X86 \<Rightarrow> Some (Regs32 (RegsX86_CreateFromUcontext uc))
      | ARCH_X86_64 \<Rightarrow> Some (Regs64 (RegsX86_64_CreateFromUcontext uc))
      | ARCH_ARM \<Rightarrow> Some (Regs32 (RegsArm_CreateFromUcontext uc))
      | ARCH_ARM64 \<Rightarrow> Some (Regs64 (RegsArm64_CreateFromUcontext uc))
      | ARCH_MIPS \<Rightarrow> Some (Regs32 (RegsMips_CreateFromUcontext uc))
      | ARCH_MIPS64 \<Rightarrow> Some (Regs64 (RegsMips64_CreateFromUcontext uc))
      | ARCH_UNKNOWN \<Rightarrow> None)"

section \<open>Stepping over a signal handler\<close>

text \<open>
  The result, and the registers after the call: \<^verbatim>\<open>ReadFully\<close> into the register vector also changes it if
  it fails after some bytes.
\<close>

definition read_over_regs :: "memory \<Rightarrow> u64 \<Rightarrow> nat \<Rightarrow> 'a::len word cpu_regs \<Rightarrow> bool \<times> 'a word cpu_regs" where
  "read_over_regs mem addr n r =
     (case read_over mem addr n (reg_vals r) of
        (len, vals) \<Rightarrow> (len = n * sizeof TYPE('a), r\<lparr>reg_vals := vals\<rparr>))"

definition RegsArm_StepIfSignalHandler :: "u64 \<Rightarrow> memory \<Rightarrow> memory \<Rightarrow> u32 cpu_regs \<Rightarrow> bool \<times> u32 cpu_regs" where
  "RegsArm_StepIfSignalHandler rel_pc elf process r =
     (let sp = ucast (get_field ArmReg ''R13'' (reg_vals r)) :: u64;
          restore = (\<lambda>offset.
            if offset = 0 then (False, r) else read_over_regs process offset (length ArmReg) r) in
      case read_word elf rel_pc of
        None \<Rightarrow> (False, r)
      | Some (data :: u32) \<Rightarrow>
          if data = 0xe3a07077 \<or> data = 0xef900077 \<or> data = 0xdf002777 then
            (case read_word process sp of
               None \<Rightarrow> (False, r)
             | Some (data :: u32) \<Rightarrow>
                 if data = 0x5ac3c35a then restore (sp + 0x14 + 0xc) else restore (sp + 0xc))
          else if data = 0xe3a070ad \<or> data = 0xef9000ad \<or> data = 0xdf0027ad then
            (case read_word process sp of
               None \<Rightarrow> (False, r)
             | Some (data :: u32) \<Rightarrow>
                 if ucast data = sp + 8 then restore (sp + 8 + 0x80 + 0x14 + 0xc)
                 else restore (sp + 0x80 + 0x14 + 0xc))
          else restore 0)"

definition RegsArm64_StepIfSignalHandler :: "u64 \<Rightarrow> memory \<Rightarrow> memory \<Rightarrow> u64 cpu_regs \<Rightarrow> bool \<times> u64 cpu_regs" where
  "RegsArm64_StepIfSignalHandler rel_pc elf process r =
     (case read_word elf rel_pc of
        None \<Rightarrow> (False, r)
      | Some (data :: u64) \<Rightarrow>
          if data \<noteq> 0xd4000001d2801168 then (False, r)
          else read_over_regs process (get_field Arm64Reg ''R31'' (reg_vals r) + 0x80 + 0xb0 + 0x08)
                 (length Arm64Reg) r)"

text \<open>The address computations on x86 are done with 32 bits.\<close>

definition RegsX86_StepIfSignalHandler :: "u64 \<Rightarrow> memory \<Rightarrow> memory \<Rightarrow> u32 cpu_regs \<Rightarrow> bool \<times> u32 cpu_regs" where
  "RegsX86_StepIfSignalHandler rel_pc elf process r =
     (let sp = get_field X86Reg ''ESP'' (reg_vals r) in
      case read_word elf rel_pc of
        None \<Rightarrow> (False, r)
      | Some (data :: u64) \<Rightarrow>
          if data = 0x80cd00000077b858 then
            (case read_words process (ucast (sp + 4)) (length x86_mcontext_t) of
               None \<Rightarrow> (False, r)
             | Some context \<Rightarrow>
                 (True, r\<lparr>reg_vals :=
                    fold (\<lambda>(reg, name). set_field X86Reg reg (get_field x86_mcontext_t name context))
                      [(''EBP'', ''ebp''), (''ESP'', ''esp''), (''EBX'', ''ebx''), (''EDX'', ''edx''),
                       (''ECX'', ''ecx''), (''EAX'', ''eax''), (''EIP'', ''eip'')]
                      (reg_vals r)\<rparr>))
          else if data AND 0x00ffffffffffffff = 0x0080cd000000adb8 then
            (case read_word process (ucast (sp + 8)) of
               None \<Rightarrow> (False, r)
             | Some (ptr :: u32) \<Rightarrow>
                 (case read_words process (ucast (ptr + 0x14)) (length x86_mcontext_t) of
                    None \<Rightarrow> (False, r)
                  | Some mc \<Rightarrow> (True, RegsX86_SetFromUcontext mc r)))
          else (False, r))"

definition RegsX86_64_StepIfSignalHandler :: "u64 \<Rightarrow> memory \<Rightarrow> memory \<Rightarrow> u64 cpu_regs \<Rightarrow> bool \<times> u64 cpu_regs" where
  "RegsX86_64_StepIfSignalHandler rel_pc elf process r =
     (case read_word elf rel_pc of
        None \<Rightarrow> (False, r)
      | Some (data :: u64) \<Rightarrow>
          if data \<noteq> 0x0f0000000fc0c748 then (False, r)
          else
            case read_word elf (rel_pc + 8) of
              None \<Rightarrow> (False, r)
            | Some (data2 :: u16) \<Rightarrow>
                if data2 \<noteq> 0x0f05 then (False, r)
                else
                  case read_words process (get_field X86_64Reg ''RSP'' (reg_vals r) + 0x28)
                         (length x86_64_mcontext_t) of
                    None \<Rightarrow> (False, r)
                  | Some mc \<Rightarrow> (True, RegsX86_64_SetFromUcontext mc r))"

definition RegsMips_StepIfSignalHandler :: "u64 \<Rightarrow> memory \<Rightarrow> memory \<Rightarrow> u32 cpu_regs \<Rightarrow> bool \<times> u32 cpu_regs" where
  "RegsMips_StepIfSignalHandler rel_pc elf process r =
     (let restore = (\<lambda>offset.
            case read_words process (ucast (get_field MipsReg ''R29'' (reg_vals r)) + offset) (length MipsReg) of
              None \<Rightarrow> (False, r)
            | Some (values :: u64 list) \<Rightarrow>
                (True, r\<lparr>reg_vals :=
                   (let vals = set_field MipsReg ''PC'' (ucast (values ! 0)) (reg_vals r) in
                    map ucast (take 32 (drop 1 values)) @ drop 32 vals)\<rparr>)) in
      case read_word elf rel_pc of
        None \<Rightarrow> (False, r)
      | Some (data :: u64) \<Rightarrow>
          if data = 0x0000000c24021061 then restore (24 + 128 + 24 + 8)
          else if data = 0x0000000c24021017 then restore (24 + 8)
          else (False, r))"

text \<open>
  This one uses \<^verbatim>\<open>Read\<close> and only rejects a read of no bytes. \<open>uninit\<close> is the contents of the local
  variable \<^verbatim>\<open>data\<close> before the read.
\<close>

definition RegsMips64_StepIfSignalHandler ::
  "u64 \<Rightarrow> u64 \<Rightarrow> memory \<Rightarrow> memory \<Rightarrow> u64 cpu_regs \<Rightarrow> bool \<times> u64 cpu_regs" where
  "RegsMips64_StepIfSignalHandler uninit rel_pc elf process r =
     (case read_over elf rel_pc 1 [uninit] of
        (len, data) \<Rightarrow>
          if len = 0 then (False, r)
          else if data ! 0 \<noteq> 0x0000000c2402145b then (False, r)
          else
            let sp = get_field Mips64Reg ''R29'' (reg_vals r) in
            case read_over process (sp + 24 + 128 + 40) (length Mips64Reg - 1) (reg_vals r) of
              (len, vals) \<Rightarrow>
                if len = 0 then (False, r\<lparr>reg_vals := vals\<rparr>)
                else
                  case read_over process (sp + 24 + 128 + 40 + 576) 1 [get_field Mips64Reg ''PC'' vals] of
                    (len, pc) \<Rightarrow> (len \<noteq> 0, r\<lparr>reg_vals := set_field Mips64Reg ''PC'' (pc ! 0) vals\<rparr>))"

section \<open>Virtual calls\<close>

fun Arch :: "any_regs \<Rightarrow> ArchEnum" where
  "Arch (Regs32 r) = class_arch (reg_class r)"
| "Arch (Regs64 r) = class_arch (reg_class r)"

fun any_pc :: "any_regs \<Rightarrow> u64" where
  "any_pc (Regs32 r) = reg_pc r"
| "any_pc (Regs64 r) = reg_pc r"

fun any_sp :: "any_regs \<Rightarrow> u64" where
  "any_sp (Regs32 r) = reg_sp r"
| "any_sp (Regs64 r) = reg_sp r"

fun any_dex_pc :: "any_regs \<Rightarrow> u64" where
  "any_dex_pc (Regs32 r) = dex_pc r"
| "any_dex_pc (Regs64 r) = dex_pc r"

fun StepIfSignalHandler :: "u64 \<Rightarrow> u64 \<Rightarrow> memory \<Rightarrow> memory \<Rightarrow> any_regs \<Rightarrow> bool \<times> any_regs" where
  "StepIfSignalHandler uninit rel_pc elf process (Regs32 r) =
     apsnd Regs32
       (case class_arch (reg_class r) of
          ARCH_ARM \<Rightarrow> RegsArm_StepIfSignalHandler rel_pc elf process r
        | ARCH_X86 \<Rightarrow> RegsX86_StepIfSignalHandler rel_pc elf process r
        | ARCH_MIPS \<Rightarrow> RegsMips_StepIfSignalHandler rel_pc elf process r
        | _ \<Rightarrow> (False, r))"
| "StepIfSignalHandler uninit rel_pc elf process (Regs64 r) =
     apsnd Regs64
       (case class_arch (reg_class r) of
          ARCH_ARM64 \<Rightarrow> RegsArm64_StepIfSignalHandler rel_pc elf process r
        | ARCH_X86_64 \<Rightarrow> RegsX86_64_StepIfSignalHandler rel_pc elf process r
        | ARCH_MIPS64 \<Rightarrow> RegsMips64_StepIfSignalHandler uninit rel_pc elf process r
        | _ \<Rightarrow> (False, r))"

fun SetPcFromReturnAddress :: "memory \<Rightarrow> any_regs \<Rightarrow> bool \<times> any_regs" where
  "SetPcFromReturnAddress process (Regs32 r) =
     apsnd Regs32
       (case class_arch (reg_class r) of
          ARCH_ARM \<Rightarrow> RegsArm_SetPcFromReturnAddress r
        | ARCH_X86 \<Rightarrow> RegsX86_SetPcFromReturnAddress process r
        | ARCH_MIPS \<Rightarrow> RegsMips_SetPcFromReturnAddress r
        | _ \<Rightarrow> (False, r))"
| "SetPcFromReturnAddress process (Regs64 r) =
     apsnd Regs64
       (case class_arch (reg_class r) of
          ARCH_ARM64 \<Rightarrow> RegsArm64_SetPcFromReturnAddress r
        | ARCH_X86_64 \<Rightarrow> RegsX86_64_SetPcFromReturnAddress process r
        | ARCH_MIPS64 \<Rightarrow> RegsMips64_SetPcFromReturnAddress r
        | _ \<Rightarrow> (False, r))"

fun IterateRegisters :: "any_regs \<Rightarrow> (string \<times> u64) list" where
  "IterateRegisters (Regs32 r) =
     (case class_arch (reg_class r) of
        ARCH_ARM \<Rightarrow> RegsArm_IterateRegisters r
      | ARCH_X86 \<Rightarrow> RegsX86_IterateRegisters r
      | ARCH_MIPS \<Rightarrow> RegsMips_IterateRegisters r
      | _ \<Rightarrow> RegsImpl_IterateRegisters r)"
| "IterateRegisters (Regs64 r) =
     (case class_arch (reg_class r) of
        ARCH_ARM64 \<Rightarrow> RegsArm64_IterateRegisters r
      | ARCH_X86_64 \<Rightarrow> RegsX86_64_IterateRegisters r
      | ARCH_MIPS64 \<Rightarrow> RegsMips64_IterateRegisters r
      | _ \<Rightarrow> RegsImpl_IterateRegisters r)"

text \<open>The objects that the code creates.\<close>

fun regs_wf :: "any_regs \<Rightarrow> bool" where
  "regs_wf (Regs32 r) \<longleftrightarrow>
     reg_class r \<in> {RegsArm_class, RegsX86_class, RegsMips_class} \<and> length (reg_vals r) = total_regs r"
| "regs_wf (Regs64 r) \<longleftrightarrow>
     reg_class r \<in> {RegsArm64_class, RegsX86_64_class, RegsMips64_class} \<and> length (reg_vals r) = total_regs r"

end
