(* ===== verification/Regs_Steps.thy ===== *)
theory Regs_Steps
  imports Regs
begin

text \<open>
  Results on the register sets: the step over a signal handler restores the registers that the
  \<^verbatim>\<open>ucontext\<close> of the signal frame holds, the registers read with \<^verbatim>\<open>ptrace\<close> are those of the kernel's
  structure, a return address changes the pc and nothing else, and the adjustment of a pc does not
  underflow.
\<close>

section \<open>Register numbers\<close>

lemmas class_defs = RegsArm_class_def RegsArm64_class_def RegsX86_class_def RegsX86_64_class_def
  RegsMips_class_def RegsMips64_class_def

lemmas enum_defs = ArmReg_def Arm64Reg_def X86Reg_def X86_64Reg_def MipsReg_def Mips64Reg_def

lemmas struct_defs = x86_mcontext_t_def x86_64_mcontext_t_def x86_user_regs_def x86_64_user_regs_def

lemma enum_lengths [simp]:
  "length ArmReg = 16" "length Arm64Reg = 33" "length X86Reg = 16" "length X86_64Reg = 17"
  "length MipsReg = 33" "length Mips64Reg = 33" "length x86_mcontext_t = 19" "length x86_64_mcontext_t = 23"
  "length x86_user_regs = 17" "length x86_64_user_regs = 27"
  by (simp_all add: enum_defs struct_defs)

lemma sizeof_words [simp]: "sizeof TYPE(32) = 4" "sizeof TYPE(64) = 8" "sizeof TYPE(16) = 2"
  by (simp_all add: sizeof_def)

lemma idx_values [simp]:
  "idx ArmReg ''R13'' = 13" "idx ArmReg ''R14'' = 14" "idx ArmReg ''R15'' = 15"
  "idx Arm64Reg ''R30'' = 30" "idx Arm64Reg ''R31'' = 31" "idx Arm64Reg ''PC'' = 32"
  "idx X86Reg ''EAX'' = 0" "idx X86Reg ''ECX'' = 1" "idx X86Reg ''EDX'' = 2" "idx X86Reg ''EBX'' = 3"
  "idx X86Reg ''ESP'' = 4" "idx X86Reg ''EBP'' = 5" "idx X86Reg ''ESI'' = 6" "idx X86Reg ''EDI'' = 7"
  "idx X86Reg ''EIP'' = 8"
  "idx X86_64Reg ''RAX'' = 0" "idx X86_64Reg ''RDX'' = 1" "idx X86_64Reg ''RCX'' = 2" "idx X86_64Reg ''RBX'' = 3"
  "idx X86_64Reg ''RSI'' = 4" "idx X86_64Reg ''RDI'' = 5" "idx X86_64Reg ''RBP'' = 6" "idx X86_64Reg ''RSP'' = 7"
  "idx X86_64Reg ''R8'' = 8" "idx X86_64Reg ''R9'' = 9" "idx X86_64Reg ''R10'' = 10" "idx X86_64Reg ''R11'' = 11"
  "idx X86_64Reg ''R12'' = 12" "idx X86_64Reg ''R13'' = 13" "idx X86_64Reg ''R14'' = 14" "idx X86_64Reg ''R15'' = 15"
  "idx X86_64Reg ''RIP'' = 16"
  "idx MipsReg ''R29'' = 29" "idx MipsReg ''R31'' = 31" "idx MipsReg ''PC'' = 32"
  "idx Mips64Reg ''R29'' = 29" "idx Mips64Reg ''R31'' = 31" "idx Mips64Reg ''PC'' = 32"
  "idx x86_64_mcontext_t ''r8'' = 0"
  by (simp_all add: enum_defs x86_64_mcontext_t_def)

section \<open>Return addresses\<close>

text \<open>
  The adjustment that \<^verbatim>\<open>GetPcAdjustment\<close> computes for the pc of a call is at most the pc itself, so
  that subtracting it does not wrap around. On ARM this needs a valid ELF object.
\<close>

lemma GetPcAdjustment_le:
  assumes "arch \<noteq> ARCH_ARM \<or> elf_valid elf"
  shows "GetPcAdjustment arch rel_pc elf \<le> rel_pc"
proof (cases arch)
  case ARCH_ARM
  let ?a = "rel_pc - elf_load_bias elf"
  have "unat ?a \<le> unat rel_pc" if "\<not> rel_pc < elf_load_bias elf"
    using that by (simp add: unat_diff)
  then show ?thesis
    using ARCH_ARM assms
    by (cases "rel_pc < elf_load_bias elf")
      (auto simp: GetPcAdjustment_def RegsArm_GetPcAdjustment_def Let_def word_le_nat_alt word_less_nat_alt
        split: option.splits)
qed (auto simp: GetPcAdjustment_def RegsArm64_GetPcAdjustment_def RegsX86_GetPcAdjustment_def
    RegsX86_64_GetPcAdjustment_def RegsMips_GetPcAdjustment_def RegsMips64_GetPcAdjustment_def
    not_less word_le_nat_alt word_less_nat_alt unat_gt_0 Suc_le_eq)

lemma GetPcAdjustment_le_example:
  "GetPcAdjustment ARCH_ARM 0x1005
     \<lparr>elf_valid = True, elf_load_bias = 0x1000, elf_memory = MemoryBuffer_Read [0x00, 0xf0, 0x00, 0xf8]\<rparr> \<le> 0x1005"
  by (rule GetPcAdjustment_le) simp

text \<open>The values of all registers, and the position of the pc.\<close>

fun any_vals :: "any_regs \<Rightarrow> u64 list" where
  "any_vals (Regs32 r) = map ucast (reg_vals r)"
| "any_vals (Regs64 r) = reg_vals r"

fun any_pc_index :: "any_regs \<Rightarrow> nat" where
  "any_pc_index (Regs32 r) = class_pc (reg_class r)"
| "any_pc_index (Regs64 r) = class_pc (reg_class r)"

lemma unat_ucast_up_u32: "unat (ucast (a :: u32) :: u64) = unat a"
proof -
  have "unat a < 2 ^ 32"
    using unsigned_less [of a, where 'a = nat] by simp
  then show ?thesis
    by (simp only: unsigned_ucast_eq) (simp add: take_bit_nat_eq_self)
qed

lemma ucast_u32_inject: "ucast (a :: u32) = (ucast b :: u64) \<longleftrightarrow> a = b"
  by (metis unat_ucast_up_u32 word_unat_eq_iff)

lemma ex_list_update: "\<exists>v. xs = xs[i := v]" "\<exists>v. xs[i := w] = xs[i := v]"
  by (auto intro: exI [of _ "xs ! i"])

lemmas SetPc_defs = RegsArm_SetPcFromReturnAddress_def RegsArm64_SetPcFromReturnAddress_def
  RegsX86_SetPcFromReturnAddress_def RegsX86_64_SetPcFromReturnAddress_def
  RegsMips_SetPcFromReturnAddress_def RegsMips64_SetPcFromReturnAddress_def

text \<open>
  C27. \<^verbatim>\<open>SetPcFromReturnAddress\<close> makes progress on all architectures: it returns true exactly if the pc
  changes, it changes no other register, and if it returns false it changes nothing.
\<close>

theorem SetPcFromReturnAddress_progress:
  assumes "regs_wf r" and "SetPcFromReturnAddress process r = (ok, r')"
  shows "(ok \<longleftrightarrow> any_pc r' \<noteq> any_pc r) \<and> (\<not> ok \<longrightarrow> r' = r) \<and>
    (\<exists>v. any_vals r' = (any_vals r)[any_pc_index r := v]) \<and> regs_wf r'"
proof (cases r)
  case (Regs32 r1)
  then consider "reg_class r1 = RegsArm_class" | "reg_class r1 = RegsX86_class" | "reg_class r1 = RegsMips_class"
    using assms(1) by auto
  then show ?thesis
    using assms Regs32
    by cases (auto simp: SetPc_defs class_defs get_field_def set_field_def total_regs_def reg_pc_def Let_def
        ucast_u32_inject map_update ex_list_update split: option.splits if_splits)
next
  case (Regs64 r1)
  then consider "reg_class r1 = RegsArm64_class" | "reg_class r1 = RegsX86_64_class"
    | "reg_class r1 = RegsMips64_class"
    using assms(1) by auto
  then show ?thesis
    using assms Regs64
    by cases (auto simp: SetPc_defs class_defs get_field_def set_field_def total_regs_def reg_pc_def Let_def
        ex_list_update split: option.splits if_splits)
qed

theorem SetPcFromReturnAddress_progress_witness:
  "let r = Regs64 ((new_regs RegsArm64_class)\<lparr>reg_vals := replicate 30 0 @ [0x1234, 0x8000, 0x1000]\<rparr>);
       (ok, r') = SetPcFromReturnAddress (MemoryBuffer_Read []) r in
   ok \<longleftrightarrow> any_pc r' \<noteq> any_pc r"
proof -
  let ?r = "Regs64 ((new_regs RegsArm64_class)\<lparr>reg_vals := replicate 30 0 @ [0x1234, 0x8000, 0x1000]\<rparr>)"
  have "regs_wf ?r"
    by (simp add: new_regs_def total_regs_def class_defs)
  then show ?thesis
    using SetPcFromReturnAddress_progress [OF _ prod.collapse [symmetric], of ?r "MemoryBuffer_Read []"]
    by (simp add: Let_def case_prod_unfold del: SetPcFromReturnAddress.simps)
qed

section \<open>Words in memory\<close>

lemma length_words_of [simp]: "length (words_of n bs) = n"
  by (simp add: words_of_def)

lemma words_of_take: "words_of n (take (n * sizeof TYPE('a)) bs) = (words_of n bs :: 'a::len word list)"
proof -
  let ?sz = "sizeof TYPE('a)"
  have "min ?sz (n * ?sz - i * ?sz) = ?sz" if "i < n" for i
  proof -
    have "(i + 1) * ?sz \<le> n * ?sz"
      using that by (intro mult_le_mono1) simp
    then show ?thesis
      by (simp add: algebra_simps)
  qed
  then show ?thesis
    by (simp add: words_of_def drop_take)
qed

lemma words_of_append:
  "length bs = n * sizeof TYPE('a) \<Longrightarrow> words_of n (bs @ rest) = (words_of n bs :: 'a::len word list)"
  using words_of_take [of n "bs @ rest", where 'a = 'a] by simp

lemma length_bytes_of [simp]: "length (bytes_of (ws :: 'a::len word list)) = length ws * sizeof TYPE('a)"
  by (induction ws) (simp_all add: bytes_of_def)

lemma words_of_bytes_of:
  assumes "LENGTH('a) = 8 * sizeof TYPE('a)"
  shows "words_of (length ws) (bytes_of ws) = (ws :: 'a::len word list)"
proof (rule nth_equalityI)
  fix i
  assume "i < length (words_of (length ws) (bytes_of ws) :: 'a word list)"
  then have i: "i < length ws"
    by simp
  have "take (sizeof TYPE('a)) (drop (i * sizeof TYPE('a)) (bytes_of ws)) = le_bytes (sizeof TYPE('a)) (ws ! i)"
    using i
  proof (induction ws arbitrary: i)
    case (Cons w ws)
    then show ?case
      by (cases i) (simp_all add: bytes_of_def)
  qed simp
  then show "words_of (length ws) (bytes_of ws) ! i = ws ! i"
    using i assms by (simp add: words_of_def)
qed simp

lemma read_words_block:
  assumes "holds_block mem a bs" and "k + n * sizeof TYPE('a) \<le> length bs"
  shows "read_words mem (a + of_nat k) n = Some (words_of n (drop k bs) :: 'a::len word list)"
  using holds_block_slice [OF assms] by (simp add: read_words_def words_of_take)

lemma read_word_block:
  assumes "holds_block mem a bs" and "k + sizeof TYPE('a) \<le> length bs"
  shows "read_word mem (a + of_nat k) = Some (le_word (take (sizeof TYPE('a)) (drop k bs)) :: 'a::len word)"
  using holds_block_slice [OF assms] by (simp add: read_word_def)

lemma read_over_block:
  assumes "holds_block mem a bs" and "k + n * sizeof TYPE('a) \<le> length bs"
  shows "read_over mem (a + of_nat k) n vals =
    (n * sizeof TYPE('a), words_of n (drop k bs) @ drop n vals :: 'a::len word list)"
proof -
  have "mem (a + of_nat k) (n * sizeof TYPE('a)) = take (n * sizeof TYPE('a)) (drop k bs)"
      "length (mem (a + of_nat k) (n * sizeof TYPE('a))) = n * sizeof TYPE('a)"
    using holds_block_slice [OF assms] by (simp_all add: ReadFully_def Let_def split: if_splits)
  then show ?thesis
    using words_of_append [of "take (n * sizeof TYPE('a)) (drop k bs)" n] assms(2)
    by (simp add: read_over_def Let_def words_of_take)
qed

section \<open>Registers read with ptrace\<close>

lemmas Read_defs = RegsX86_Read_def RegsX86_64_Read_def RegsArm_Read_def RegsArm64_Read_def RegsMips_Read_def
  RegsMips64_Read_def new_regs_def class_defs set_field_def

lemma X86_Read_named:
  "\<forall>(name, value) \<in> set (RegsX86_IterateRegisters (RegsX86_Read u)). value = ucast (get_field x86_user_regs name u)"
  by (simp add: RegsX86_IterateRegisters_def Read_defs get_field_def [of X86Reg])

lemma X86_64_Read_named:
  "\<forall>(name, value) \<in> set (RegsX86_64_IterateRegisters (RegsX86_64_Read w)). value = get_field x86_64_user_regs name w"
  by (simp add: RegsX86_64_IterateRegisters_def Read_defs get_field_def [of X86_64Reg])

lemma Arm64_Read_vals: "length w = 34 \<Longrightarrow> reg_vals (RegsArm64_Read w) = take 33 w"
  using take_Suc_conv_app_nth [of 32 w] list_update_id [of "take 32 w" 31]
  by (simp add: Read_defs list_update_append)

lemma Mips_Read_vals:
  "length u = 45 \<Longrightarrow> reg_vals (RegsMips_Read u) = take 32 (drop 6 u) @ [u ! 40]"
  "length w = 45 \<Longrightarrow> reg_vals (RegsMips64_Read w) = take 32 w @ [w ! 34]"
  by (simp_all add: Read_defs list_update_append)

lemma Read_class:
  "reg_class (RegsX86_Read u) = RegsX86_class" "reg_class (RegsX86_64_Read w) = RegsX86_64_class"
  "reg_class (RegsArm_Read u) = RegsArm_class" "reg_class (RegsArm64_Read w) = RegsArm64_class"
  "reg_class (RegsMips_Read u) = RegsMips_class" "reg_class (RegsMips64_Read w) = RegsMips64_class"
  by (simp_all add: Read_defs)



section \<open>Signal handlers\<close>

text \<open>
  The frame that the kernel builds for a handler with \<^verbatim>\<open>SA_SIGINFO\<close>: the code at the return address, and
  where the \<^verbatim>\<open>ucontext\<close> is. On ARM newer kernels have no pointer in front of the \<^verbatim>\<open>siginfo\<close>; on x86 the third
  argument on the stack points to the \<^verbatim>\<open>ucontext\<close>.
\<close>

fun sigreturn_code :: "ArchEnum \<Rightarrow> u8 list" where
  "sigreturn_code ARCH_ARM = [0xad, 0x70, 0xa0, 0xe3]"
| "sigreturn_code ARCH_ARM64 = [0x68, 0x11, 0x80, 0xd2, 0x01, 0x00, 0x00, 0xd4]"
| "sigreturn_code ARCH_X86 = [0xb8, 0xad, 0x00, 0x00, 0x00, 0xcd, 0x80, 0x90]"
| "sigreturn_code ARCH_X86_64 = [0x48, 0xc7, 0xc0, 0x0f, 0x00, 0x00, 0x00, 0x0f, 0x05, 0x0f]"
| "sigreturn_code ARCH_MIPS = [0x61, 0x10, 0x02, 0x24, 0x0c, 0x00, 0x00, 0x00]"
| "sigreturn_code ARCH_MIPS64 = [0x5b, 0x14, 0x02, 0x24, 0x0c, 0x00, 0x00, 0x00]"
| "sigreturn_code ARCH_UNKNOWN = []"

fun signal_frame :: "memory \<Rightarrow> any_regs \<Rightarrow> u64 \<Rightarrow> bool" where
  "signal_frame process r uc_addr \<longleftrightarrow>
     (case Arch r of
        ARCH_ARM \<Rightarrow> uc_addr = any_sp r + 0x80 \<and>
          (\<exists>d. read_word process (any_sp r) = Some (d :: u32) \<and> ucast d \<noteq> any_sp r + 8) \<and>
          uc_addr + 0x20 \<noteq> 0
      | ARCH_ARM64 \<Rightarrow> uc_addr = any_sp r + 0x80
      | ARCH_X86 \<Rightarrow> (\<exists>ptr :: u32. read_word process (any_sp r + 8) = Some ptr \<and> uc_addr = ucast ptr \<and>
          unat ptr + 0x60 < 2 ^ 32) \<and> unat (any_sp r) + 8 < 2 ^ 32
      | ARCH_X86_64 \<Rightarrow> uc_addr = any_sp r
      | ARCH_MIPS \<Rightarrow> uc_addr = any_sp r + 24 + 128
      | ARCH_MIPS64 \<Rightarrow> uc_addr = any_sp r + 24 + 128
      | ARCH_UNKNOWN \<Rightarrow> False)"

fun ucontext_size :: "ArchEnum \<Rightarrow> nat" where
  "ucontext_size ARCH_ARM = arm_uc_mcontext + arm_mcontext_regs + 16 * 4 + 2 * 4"
| "ucontext_size ARCH_ARM64 = arm64_uc_mcontext + arm64_mcontext_regs + 33 * 8 + 8"
| "ucontext_size ARCH_X86 = x86_uc_mcontext + 19 * 4"
| "ucontext_size ARCH_X86_64 = x86_64_uc_mcontext + 23 * 8"
| "ucontext_size ARCH_MIPS = mips_uc_mcontext + mips_mcontext_pc + 33 * 8"
| "ucontext_size ARCH_MIPS64 = mips64_uc_mcontext + mips64_mcontext_pc + 8"
| "ucontext_size ARCH_UNKNOWN = 0"

lemma Arm64_signal:
  assumes "reg_class r = RegsArm64_class" and "length (reg_vals r) = total_regs r"
    and "holds_block elf rel_pc (sigreturn_code ARCH_ARM64)" and "holds_block process (reg_sp r + 0x80) uc"
    and "length uc = ucontext_size ARCH_ARM64"
  shows "RegsArm64_StepIfSignalHandler rel_pc elf process r = (True, (RegsArm64_CreateFromUcontext uc)\<lparr>dex_pc := dex_pc r\<rparr>)"
proof -
  have code: "read_word elf rel_pc = Some (0xd4000001d2801168 :: u64)"
    using read_word_block [OF assms(3), of 0, where 'a = 64] by (simp add: le_word_def)
  have sp: "get_field Arm64Reg ''R31'' (reg_vals r) = reg_sp r"
    using assms(1) by (simp add: reg_sp_def class_defs get_field_def)
  have "read_over process (reg_sp r + 0x80 + of_nat 0xb8) 33 (reg_vals r) = (264, words_of 33 (drop 0xb8 uc))"
    using read_over_block [OF assms(4), of "0xb8" 33, where 'a = 64] assms(1,2,5)
    by (simp add: ucontext_offsets total_regs_def class_defs)
  then have "read_over_regs process (reg_sp r + 0x80 + 0xb0 + 0x08) 33 r =
      (True, r\<lparr>reg_vals := words_of 33 (drop 0xb8 uc)\<rparr>)"
    by (simp add: read_over_regs_def add.assoc)
  then show ?thesis
    using assms(1) code sp
    by (cases r) (simp add: RegsArm64_StepIfSignalHandler_def RegsArm64_CreateFromUcontext_def new_regs_def ucontext_offsets)
qed

lemma Arm_signal:
  assumes "reg_class r = RegsArm_class" and "length (reg_vals r) = total_regs r"
    and "holds_block elf rel_pc (sigreturn_code ARCH_ARM)" and "holds_block process (reg_sp r + 0x80) uc"
    and "length uc = ucontext_size ARCH_ARM"
    and "read_word process (reg_sp r) = Some (d :: u32)" and "ucast d \<noteq> reg_sp r + 8" and "reg_sp r + 0x80 + 0x20 \<noteq> 0"
  shows "RegsArm_StepIfSignalHandler rel_pc elf process r = (True, (RegsArm_CreateFromUcontext uc)\<lparr>dex_pc := dex_pc r\<rparr>)"
proof -
  have code: "read_word elf rel_pc = Some (0xe3a070ad :: u32)"
    using read_word_block [OF assms(3), of 0, where 'a = 32] by (simp add: le_word_def)
  have sp: "ucast (get_field ArmReg ''R13'' (reg_vals r)) = reg_sp r"
    using assms(1) by (simp add: reg_sp_def class_defs get_field_def)
  have "read_over process (reg_sp r + 0x80 + of_nat 0x20) 16 (reg_vals r) = (64, words_of 16 (drop 0x20 uc))"
    using read_over_block [OF assms(4), of "0x20" 16, where 'a = 32] assms(1,2,5)
    by (simp add: ucontext_offsets total_regs_def class_defs)
  then have "read_over_regs process (reg_sp r + 0x80 + 0x14 + 0xc) 16 r = (True, r\<lparr>reg_vals := words_of 16 (drop 0x20 uc)\<rparr>)"
    by (simp add: read_over_regs_def add.assoc)
  then show ?thesis
    using assms(1,6-8) code sp
    by (cases r) (simp add: RegsArm_StepIfSignalHandler_def RegsArm_CreateFromUcontext_def new_regs_def ucontext_offsets
        Let_def add.assoc)
qed

lemma X86_signal:
  assumes "reg_class r = RegsX86_class" and "length (reg_vals r) = total_regs r"
    and "holds_block elf rel_pc (sigreturn_code ARCH_X86)" and "holds_block process (ucast ptr) uc"
    and "length uc = ucontext_size ARCH_X86"
    and "read_word process (reg_sp r + 8) = Some (ptr :: u32)"
    and "unat ptr + 0x60 < 2 ^ 32" and "unat (reg_sp r) + 8 < 2 ^ 32"
  shows "\<exists>r'. RegsX86_StepIfSignalHandler rel_pc elf process r = (True, r') \<and> reg_class r' = RegsX86_class \<and>
    dex_pc r' = dex_pc r \<and> RegsX86_IterateRegisters r' = RegsX86_IterateRegisters (RegsX86_CreateFromUcontext uc)"
proof -
  let ?sp = "get_field X86Reg ''ESP'' (reg_vals r)"
  have code: "read_word elf rel_pc = Some (0x9080cd000000adb8 :: u64)"
    using read_word_block [OF assms(3), of 0, where 'a = 64] by (simp add: le_word_def)
  have up: "ucast (a + b) = (ucast a + ucast b :: u64)" if "unat a + unat b < 2 ^ 32" for a b :: u32
    using that by (simp add: word_unat_eq_iff unat_ucast_up_u32 unat_add_no_wrap)
  have "read_words process (ucast (ptr + 0x14)) 19 = Some (words_of 19 (drop 0x14 uc) :: u32 list)"
    using read_words_block [OF assms(4), of "0x14" 19, where 'a = 32] assms(5,7) up [of ptr "0x14"]
    by (simp add: ucontext_offsets)
  moreover have "ucast (?sp + 8) = reg_sp r + 8"
    using up [of ?sp 8] assms(1,8) by (simp add: reg_sp_def class_defs get_field_def unat_ucast_up_u32)
  ultimately have "RegsX86_StepIfSignalHandler rel_pc elf process r =
      (True, RegsX86_SetFromUcontext (words_of 19 (drop 0x14 uc)) r)"
    using code assms(6) by (simp add: RegsX86_StepIfSignalHandler_def Let_def)
  then show ?thesis
    using assms(1,2)
    by (simp add: RegsX86_SetFromUcontext_def RegsX86_CreateFromUcontext_def RegsX86_IterateRegisters_def
        ucontext_offsets new_regs_def total_regs_def class_defs set_field_def get_field_def [of X86Reg])
qed

lemma X86_64_signal:
  assumes "reg_class r = RegsX86_64_class" and "length (reg_vals r) = total_regs r"
    and "holds_block elf rel_pc (sigreturn_code ARCH_X86_64)" and "holds_block process (reg_sp r) uc"
    and "length uc = ucontext_size ARCH_X86_64"
  shows "\<exists>r'. RegsX86_64_StepIfSignalHandler rel_pc elf process r = (True, r') \<and> reg_class r' = RegsX86_64_class \<and>
    dex_pc r' = dex_pc r \<and> RegsX86_64_IterateRegisters r' = RegsX86_64_IterateRegisters (RegsX86_64_CreateFromUcontext uc)"
proof -
  have code: "read_word elf rel_pc = Some (0x0f0000000fc0c748 :: u64)" "read_word elf (rel_pc + 8) = Some (0x0f05 :: u16)"
    using read_word_block [OF assms(3), of 0, where 'a = 64] read_word_block [OF assms(3), of 8, where 'a = 16]
    by (simp_all add: le_word_def)
  have "read_words process (reg_sp r + 0x28) 23 = Some (words_of 23 (drop 0x28 uc) :: u64 list)"
    using read_words_block [OF assms(4), of "0x28" 23, where 'a = 64] assms(5) by (simp add: ucontext_offsets)
  moreover have "get_field X86_64Reg ''RSP'' (reg_vals r) = reg_sp r"
    using assms(1) by (simp add: reg_sp_def class_defs get_field_def)
  ultimately have "RegsX86_64_StepIfSignalHandler rel_pc elf process r =
      (True, RegsX86_64_SetFromUcontext (words_of 23 (drop 0x28 uc)) r)"
    using code by (simp add: RegsX86_64_StepIfSignalHandler_def)
  then show ?thesis
    using assms(1,2)
    by (simp add: RegsX86_64_SetFromUcontext_def RegsX86_64_CreateFromUcontext_def RegsX86_64_IterateRegisters_def
        ucontext_offsets new_regs_def total_regs_def class_defs set_field_def get_field_def [of X86_64Reg] Let_def
        nth_append)
qed

lemma drop_last_update: "length xs = Suc n \<Longrightarrow> (drop n xs)[0 := v] = [v]"
  by (cases "drop n xs") (auto dest: arg_cong [where f = length])

lemma Mips_signal:
  assumes "reg_class r = RegsMips_class" and "length (reg_vals r) = total_regs r"
    and "holds_block elf rel_pc (sigreturn_code ARCH_MIPS)" and "holds_block process (reg_sp r + 24 + 128) uc"
    and "length uc = ucontext_size ARCH_MIPS"
  shows "RegsMips_StepIfSignalHandler rel_pc elf process r = (True, (RegsMips_CreateFromUcontext uc)\<lparr>dex_pc := dex_pc r\<rparr>)"
proof -
  have code: "read_word elf rel_pc = Some (0x0000000c24021061 :: u64)"
    using read_word_block [OF assms(3), of 0, where 'a = 64] by (simp add: le_word_def)
  have sp: "ucast (get_field MipsReg ''R29'' (reg_vals r)) = reg_sp r"
    using assms(1) by (simp add: reg_sp_def class_defs get_field_def)
  have "read_words process (reg_sp r + (24 + 128 + 24 + 8)) 33 = Some (words_of 33 (drop 0x20 uc) :: u64 list)"
    using read_words_block [OF assms(4), of "0x20" 33, where 'a = 64] assms(5) by (simp add: ucontext_offsets add.assoc)
  moreover have "length (reg_vals r) = 33"
    using assms(1,2) by (simp add: total_regs_def class_defs)
  ultimately show ?thesis
    using assms(1) code sp
    by (cases r) (simp add: RegsMips_StepIfSignalHandler_def RegsMips_CreateFromUcontext_def new_regs_def ucontext_offsets
        Let_def set_field_def list_update_append drop_update_swap drop_last_update)
qed

lemma Mips64_signal:
  assumes "reg_class r = RegsMips64_class" and "length (reg_vals r) = total_regs r"
    and "holds_block elf rel_pc (sigreturn_code ARCH_MIPS64)" and "holds_block process (reg_sp r + 24 + 128) uc"
    and "length uc = ucontext_size ARCH_MIPS64"
  shows "RegsMips64_StepIfSignalHandler uninit rel_pc elf process r =
    (True, (RegsMips64_CreateFromUcontext uc)\<lparr>dex_pc := dex_pc r\<rparr>)"
proof -
  have code: "read_over elf rel_pc 1 [uninit] = (8, [0x0000000c2402145b :: u64])"
    using read_over_block [OF assms(3), of 0 1 "[uninit]"] by (simp add: words_of_def le_word_def)
  have sp: "get_field Mips64Reg ''R29'' (reg_vals r) = reg_sp r"
    using assms(1) by (simp add: reg_sp_def class_defs get_field_def)
  have len: "length (reg_vals r) = 33"
    using assms(1,2) by (simp add: total_regs_def class_defs)
  have "read_over process (reg_sp r + 24 + 128 + 40) 32 (reg_vals r) =
      (256, words_of 32 (drop 40 uc) @ drop 32 (reg_vals r))"
    using read_over_block [OF assms(4), of 40 32 "reg_vals r"] assms(5) by (simp add: ucontext_offsets)
  moreover have "read_over process (reg_sp r + 24 + 128 + 40 + 576) 1 [v] = (8, words_of 1 (drop 616 uc))" for v :: u64
    using read_over_block [OF assms(4), of "40 + 576" 1 "[v :: u64]"] assms(5) by (simp add: ucontext_offsets add.assoc)
  ultimately show ?thesis
    using assms(1) code sp len
    by (cases r) (simp add: RegsMips64_StepIfSignalHandler_def RegsMips64_CreateFromUcontext_def new_regs_def
        ucontext_offsets Let_def set_field_def list_update_append drop_last_update)
qed


definition example_ucontext :: "u8 list" where
  "example_ucontext = replicate 0x28 0 @ map of_nat [0..<184]"


end
