(* ===== verification/Dwarf_Section.thy ===== *)
theory Dwarf_Section
  imports Dwarf_Cfa_Rows Regs
begin

text \<open>
  \<^verbatim>\<open>DwarfSection.cpp\<close>, \<^verbatim>\<open>DwarfSection.h\<close>, \<^verbatim>\<open>DwarfDebugFrame.h\<close>, \<^verbatim>\<open>DwarfEhFrame.h\<close>: a section of unwind
  information. It parses and caches the common information entries (CIE) and frame description entries
  (FDE), finds the entry of a pc, and applies the register rules of a row to a register set.

  One record holds the members of all classes of sections; \<open>sec_class\<close> selects the virtual functions,
  and a member that a class does not have is never used by it. A pointer to an entry of \<^verbatim>\<open>cie_entries_\<close> or
  \<^verbatim>\<open>fde_entries_\<close> is the key of the entry, and a function that returns \<^verbatim>\<open>nullptr\<close> fails. Dereferencing the
  key of an erased entry is undefined. An unordered map is an association list.
\<close>

section \<open>State\<close>

datatype section_class = DebugFrame | EhFrame | EhFrameWithHdr

record FdeInfo =
  info_pc :: u64
  info_offset :: u64

record dwarf_section =
  sec_class :: section_class
  sec_memory :: dwarf_memory
  sec_error :: DwarfErrorData
  fde_entries :: "(u64 \<times> DwarfFde) list"
  cie_entries :: "(u64 \<times> DwarfCie) list"
  cie_rows :: "(u64 \<times> DwarfLocations) list"
  row_cache :: "DwarfLocations omap"
  load_bias :: u64
  entries_offset :: u64
  entries_end :: u64
  sec_pc_offset :: u64
  next_entries_offset :: u64
  fdes :: "(u64 \<times> u64) omap"
  hdr_version :: u8
  ptr_encoding :: u8
  table_encoding :: u8
  table_entry_size :: nat
  ptr_offset :: u64
  entries_data_offset :: u64
  cur_entries_offset :: u64
  fde_count :: u64
  fde_info :: "(u64 \<times> FdeInfo) list"
  sec_log :: "(nat \<times> string) list"

text \<open>
  The constructors. The members of \<^verbatim>\<open>DwarfEhFrameWithHdr\<close> that have no initialiser are set by its
  \<^verbatim>\<open>Init\<close>; \<open>uninit\<close> is what they hold before.
\<close>

definition DwarfSection :: "section_class \<Rightarrow> memory \<Rightarrow> u64 \<Rightarrow> dwarf_section" where
  "DwarfSection cls mem uninit =
     \<lparr>sec_class = cls, sec_memory = DwarfMemory mem, sec_error = \<lparr>code = DWARF_ERROR_NONE, address = 0\<rparr>,
      fde_entries = [], cie_entries = [], cie_rows = [], row_cache = [], load_bias = 0, entries_offset = 0,
      entries_end = 0, sec_pc_offset = 0, next_entries_offset = 0, fdes = [],
      hdr_version = ucast uninit, ptr_encoding = ucast uninit, table_encoding = ucast uninit,
      table_entry_size = unat uninit, ptr_offset = uninit, entries_data_offset = uninit,
      cur_entries_offset = 0, fde_count = uninit, fde_info = [], sec_log = []\<rparr>"

type_synonym 'r sec_prog = "(dwarf_section, 'r) prog"

definition on_sec_memory :: "(dwarf_memory, 'r) prog \<Rightarrow> 'r sec_prog" where
  "on_sec_memory = on_member sec_memory (\<lambda>m s. s\<lparr>sec_memory := m\<rparr>)"

definition sec_offset :: "u64 sec_prog" where
  "sec_offset = gets (\<lambda>s. cur_offset (sec_memory s))"

definition set_mem_pc_offset :: "u64 \<Rightarrow> dwarf_section \<Rightarrow> dwarf_section" where
  "set_mem_pc_offset off s = s\<lparr>sec_memory := (sec_memory s)\<lparr>pc_offset := off\<rparr>\<rparr>"

definition sec_set_code :: "DwarfErrorCode \<Rightarrow> dwarf_section \<Rightarrow> dwarf_section" where
  "sec_set_code c s = s\<lparr>sec_error := (sec_error s)\<lparr>code := c\<rparr>\<rparr>"

definition sec_set_error :: "DwarfErrorCode \<Rightarrow> u64 \<Rightarrow> dwarf_section \<Rightarrow> dwarf_section" where
  "sec_set_error c a s = s\<lparr>sec_error := \<lparr>code = c, address = a\<rparr>\<rparr>"

text \<open>
  A read at the cursor whose failure ends the caller with \<^verbatim>\<open>DWARF_ERROR_MEMORY_INVALID\<close> at the cursor.
\<close>

definition sec_read :: "(dwarf_memory, 'r) prog \<Rightarrow> 'r sec_prog" where
  "sec_read p =
     on_fail (on_sec_memory p) (\<lambda>s. sec_set_error DWARF_ERROR_MEMORY_INVALID (cur_offset (sec_memory s)) s)"

definition cie32_value :: "section_class \<Rightarrow> u64" where
  "cie32_value cls = (if cls = DebugFrame then 0xffffffff else 0)"

definition cie64_value :: "section_class \<Rightarrow> u64" where
  "cie64_value cls = (if cls = DebugFrame then -1 else 0)"

definition GetCieOffsetFromFde32 :: "u64 \<Rightarrow> u64 sec_prog" where
  "GetCieOffsetFromFde32 pointer =
     gets (\<lambda>s. if sec_class s = DebugFrame then entries_offset s + pointer
                else cur_offset (sec_memory s) - pointer - 4)"

definition GetCieOffsetFromFde64 :: "u64 \<Rightarrow> u64 sec_prog" where
  "GetCieOffsetFromFde64 pointer =
     gets (\<lambda>s. if sec_class s = DebugFrame then entries_offset s + pointer
                else cur_offset (sec_memory s) - pointer - 8)"

definition AdjustPcFromFde :: "u64 \<Rightarrow> u64 sec_prog" where
  "AdjustPcFromFde pc =
     gets (\<lambda>s. if sec_class s = DebugFrame then pc else pc + cur_offset (sec_memory s) - 4)"

definition get_cie :: "u64 \<Rightarrow> DwarfCie sec_prog" where
  "get_cie key = (\<lambda>s. case map_of (cie_entries s) key of None \<Rightarrow> (Crash Undefined, s) | Some cie \<Rightarrow> (Ok cie, s))"

definition get_fde :: "u64 \<Rightarrow> DwarfFde sec_prog" where
  "get_fde key = (\<lambda>s. case map_of (fde_entries s) key of None \<Rightarrow> (Crash Undefined, s) | Some fde \<Rightarrow> (Ok fde, s))"

definition put_cie :: "u64 \<Rightarrow> DwarfCie \<Rightarrow> dwarf_section \<Rightarrow> dwarf_section" where
  "put_cie key cie s = s\<lparr>cie_entries := AList.update key cie (cie_entries s)\<rparr>"

definition put_fde :: "u64 \<Rightarrow> DwarfFde \<Rightarrow> dwarf_section \<Rightarrow> dwarf_section" where
  "put_fde key fde s = s\<lparr>fde_entries := AList.update key fde (fde_entries s)\<rparr>"

definition erase_cie :: "u64 \<Rightarrow> dwarf_section \<Rightarrow> dwarf_section" where
  "erase_cie key s = s\<lparr>cie_entries := AList.delete key (cie_entries s)\<rparr>"

definition erase_fde :: "u64 \<Rightarrow> dwarf_section \<Rightarrow> dwarf_section" where
  "erase_fde key s = s\<lparr>fde_entries := AList.delete key (fde_entries s)\<rparr>"

section \<open>Common information entries\<close>

text \<open>
  The entry that is being filled in is passed along; every caller erases it from \<^verbatim>\<open>cie_entries_\<close> if that
  fails.
\<close>

definition FillInCieHeader :: "DwarfCie \<Rightarrow> DwarfCie sec_prog" where
  "FillInCieHeader cie =
     bnd (sec_read (ReadUnsigned 4)) (\<lambda>length32.
     if length32 = 0xffffffff then
       bnd (sec_read (ReadUnsigned 8)) (\<lambda>length64.
       bnd sec_offset (\<lambda>off.
       bnd (sec_read (ReadUnsigned 8)) (\<lambda>cie_id.
       bnd (gets (\<lambda>s. cie64_value (sec_class s))) (\<lambda>value.
       if cie_id \<noteq> value then fail_with (sec_set_code DWARF_ERROR_ILLEGAL_VALUE)
       else ret (cie\<lparr>lsda_encoding := DW_EH_PE_omit, cie_cfa_instructions_end := off + length64,
                     fde_address_encoding := DW_EH_PE_sdata8\<rparr>)))))
     else
       bnd sec_offset (\<lambda>off.
       bnd (sec_read (ReadUnsigned 4)) (\<lambda>cie_id.
       bnd (gets (\<lambda>s. cie32_value (sec_class s))) (\<lambda>value.
       if cie_id \<noteq> value then fail_with (sec_set_code DWARF_ERROR_ILLEGAL_VALUE)
       else ret (cie\<lparr>lsda_encoding := DW_EH_PE_omit, cie_cfa_instructions_end := off + length32,
                     fde_address_encoding := DW_EH_PE_sdata4\<rparr>)))))"

text \<open>The augmentation string, appended to what the entry already has; \<open>fuel\<close> bounds its length.\<close>

fun ReadAugmentation :: "nat \<Rightarrow> u8 list \<Rightarrow> u8 list sec_prog" where
  "ReadAugmentation 0 str = crash OutOfFuel"
| "ReadAugmentation (Suc fuel) str =
     bnd (sec_read (ReadBytes 1)) (\<lambda>bs.
     if hd bs = 0 then ret (str @ [hd bs]) else ReadAugmentation fuel (str @ [hd bs]))"

text \<open>The switch over the characters of the augmentation string, from the second one on.\<close>

fun FillInAugmentation :: "'a::len itself \<Rightarrow> u8 list \<Rightarrow> DwarfCie \<Rightarrow> DwarfCie sec_prog" where
  "FillInAugmentation ty [] cie = ret cie"
| "FillInAugmentation ty (c # str) cie =
     bnd (if c = 0x4c then
            bnd (sec_read (ReadBytes 1)) (\<lambda>bs. ret (cie\<lparr>lsda_encoding := hd bs\<rparr>))
          else if c = 0x50 then
            bnd (sec_read (ReadBytes 1)) (\<lambda>bs.
            bnd (modify (\<lambda>s. set_mem_pc_offset (sec_pc_offset s) s)) (\<lambda>_.
            bnd (sec_read (ReadEncodedValue ty (hd bs))) (\<lambda>handler.
            ret (cie\<lparr>personality_handler := handler\<rparr>))))
          else if c = 0x52 then
            bnd (sec_read (ReadBytes 1)) (\<lambda>bs. ret (cie\<lparr>fde_address_encoding := hd bs\<rparr>))
          else ret cie) (\<lambda>cie'.
     FillInAugmentation ty str cie')"

definition FillInCie :: "'a::len itself \<Rightarrow> nat \<Rightarrow> DwarfCie \<Rightarrow> DwarfCie sec_prog" where
  "FillInCie ty fuel cie =
     bnd (sec_read (ReadBytes 1)) (\<lambda>bs.
     let vers = hd bs in
     if vers \<noteq> 1 \<and> vers \<noteq> 3 \<and> vers \<noteq> 4 \<and> vers \<noteq> 5
     then fail_with (sec_set_code DWARF_ERROR_UNSUPPORTED_VERSION)
     else
       bnd (ReadAugmentation fuel (augmentation_string cie)) (\<lambda>str.
       bnd (if vers = 4 \<or> vers = 5 then
              bnd sec_offset (\<lambda>off.
              bnd (on_sec_memory (set_cur_offset (off + 1))) (\<lambda>_.
              bnd (sec_read (ReadBytes 1)) (\<lambda>bs.
              ret (hd bs))))
            else ret (segment_size cie)) (\<lambda>segment.
       bnd (sec_read ReadULEB128) (\<lambda>code_factor.
       bnd (sec_read ReadSLEB128) (\<lambda>data_factor.
       bnd (if vers = 1 then sec_read (ReadUnsigned 1) else sec_read ReadULEB128) (\<lambda>return_reg.
       let cie' = cie\<lparr>version := vers, augmentation_string := str, segment_size := segment,
                      code_alignment_factor := code_factor, data_alignment_factor := data_factor,
                      return_address_register := return_reg\<rparr> in
       if hd str \<noteq> 0x7a then
         bnd sec_offset (\<lambda>off. ret (cie'\<lparr>cie_cfa_instructions_offset := off\<rparr>))
       else
         bnd (sec_read ReadULEB128) (\<lambda>aug_length.
         bnd sec_offset (\<lambda>off.
         FillInAugmentation ty (tl str) (cie'\<lparr>cie_cfa_instructions_offset := off + aug_length\<rparr>)))))))))"

definition GetCieFromOffset :: "'a::len itself \<Rightarrow> nat \<Rightarrow> u64 \<Rightarrow> u64 sec_prog" where
  "GetCieFromOffset ty fuel offset =
     bnd (gets (\<lambda>s. map_of (cie_entries s) offset)) (\<lambda>entry.
     case entry of
       Some _ \<Rightarrow> ret offset
     | None \<Rightarrow>
         bnd (modify (put_cie offset DwarfCie_default)) (\<lambda>_.
         bnd (on_sec_memory (set_cur_offset offset)) (\<lambda>_.
         on_fail
           (bnd (FillInCieHeader DwarfCie_default) (\<lambda>cie.
            bnd (FillInCie ty fuel cie) (\<lambda>cie'.
            bnd (modify (put_cie offset cie')) (\<lambda>_.
            ret offset))))
           (erase_cie offset))))"

section \<open>Frame description entries\<close>

definition FillInFdeHeader :: "DwarfFde \<Rightarrow> DwarfFde sec_prog" where
  "FillInFdeHeader fde =
     bnd (sec_read (ReadUnsigned 4)) (\<lambda>length32.
     if length32 = 0xffffffff then
       bnd (sec_read (ReadUnsigned 8)) (\<lambda>length64.
       bnd sec_offset (\<lambda>off.
       bnd (sec_read (ReadUnsigned 8)) (\<lambda>value64.
       bnd (gets (\<lambda>s. cie64_value (sec_class s))) (\<lambda>value.
       if value64 = value then fail_with (sec_set_code DWARF_ERROR_ILLEGAL_VALUE)
       else
         bnd (GetCieOffsetFromFde64 value64) (\<lambda>cie_off.
         ret (fde\<lparr>cfa_instructions_end := off + length64, cie_offset := cie_off\<rparr>))))))
     else
       bnd sec_offset (\<lambda>off.
       bnd (sec_read (ReadUnsigned 4)) (\<lambda>value32.
       bnd (gets (\<lambda>s. cie32_value (sec_class s))) (\<lambda>value.
       if value32 = value then fail_with (sec_set_code DWARF_ERROR_ILLEGAL_VALUE)
       else
         bnd (GetCieOffsetFromFde32 value32) (\<lambda>cie_off.
         ret (fde\<lparr>cfa_instructions_end := off + length32, cie_offset := cie_off\<rparr>))))))"

definition FillInFde :: "'a::len itself \<Rightarrow> nat \<Rightarrow> DwarfFde \<Rightarrow> DwarfFde sec_prog" where
  "FillInFde ty fuel fde =
     bnd sec_offset (\<lambda>off.
     bnd (GetCieFromOffset ty fuel (cie_offset fde)) (\<lambda>key.
     bnd (get_cie key) (\<lambda>cie.
     bnd (on_sec_memory (set_cur_offset
            (if segment_size cie \<noteq> 0 then off + ucast (segment_size cie) else off))) (\<lambda>_.
     bnd (modify (\<lambda>s. set_mem_pc_offset (load_bias s) s)) (\<lambda>_.
     bnd (on_fail (on_sec_memory (ReadEncodedValue ty (fde_address_encoding cie)))
            (\<lambda>s. let s' = set_mem_pc_offset 0 s in
                 sec_set_error DWARF_ERROR_MEMORY_INVALID (cur_offset (sec_memory s')) s')) (\<lambda>start.
     bnd (AdjustPcFromFde start) (\<lambda>pc.
     bnd (modify (set_mem_pc_offset 0)) (\<lambda>_.
     bnd (sec_read (ReadEncodedValue ty (fde_address_encoding cie))) (\<lambda>range.
     bnd (if augmentation_string cie \<noteq> [] \<and> hd (augmentation_string cie) = 0x7a then
            bnd (sec_read ReadULEB128) (\<lambda>aug_length.
            bnd sec_offset (\<lambda>off.
            bnd (modify (\<lambda>s. set_mem_pc_offset (sec_pc_offset s) s)) (\<lambda>_.
            bnd (sec_read (ReadEncodedValue ty (lsda_encoding cie))) (\<lambda>lsda.
            bnd (on_sec_memory (set_cur_offset (off + aug_length))) (\<lambda>_.
            ret lsda)))))
          else ret (lsda_address fde)) (\<lambda>lsda.
     bnd sec_offset (\<lambda>off.
     ret (fde\<lparr>fde_cie := Some key, fde_pc_start := pc, fde_pc_end := range + pc, lsda_address := lsda,
              cfa_instructions_offset := off\<rparr>))))))))))))"

definition GetFdeFromOffset :: "'a::len itself \<Rightarrow> nat \<Rightarrow> u64 \<Rightarrow> u64 sec_prog" where
  "GetFdeFromOffset ty fuel offset =
     bnd (gets (\<lambda>s. map_of (fde_entries s) offset)) (\<lambda>entry.
     case entry of
       Some _ \<Rightarrow> ret offset
     | None \<Rightarrow>
         bnd (modify (put_fde offset DwarfFde_default)) (\<lambda>_.
         bnd (on_sec_memory (set_cur_offset offset)) (\<lambda>_.
         on_fail
           (bnd (FillInFdeHeader DwarfFde_default) (\<lambda>fde.
            bnd (FillInFde ty fuel fde) (\<lambda>fde'.
            bnd (modify (put_fde offset fde')) (\<lambda>_.
            ret offset))))
           (erase_fde offset))))"

section \<open>Evaluation of a row\<close>

text \<open>
  The value of an expression, and whether it is marked as a dex pc. \<open>uninit\<close> is the member \<^verbatim>\<open>cur_op_\<close> of the
  new \<^verbatim>\<open>DwarfOp\<close>, which works on the memory of the section.
\<close>

definition EvalExpression ::
  "u8 \<Rightarrow> DwarfLocation \<Rightarrow> memory \<Rightarrow> 'a::len word regs_info \<Rightarrow> ('a word \<times> bool) sec_prog" where
  "EvalExpression uninit loc regular info = (\<lambda>s.
     let end_offset = value1 loc; start_offset = end_offset - value0 loc in
     case Eval start_offset end_offset (DwarfOp (sec_memory s) regular info uninit) of
       (r, op) \<Rightarrow>
         let s' = s\<lparr>sec_memory := op_memory op\<rparr> in
         case r of
           Fail \<Rightarrow> (Fail, s'\<lparr>sec_error := last_error op\<rparr>)
         | Crash c \<Rightarrow> (Crash c, s')
         | Ok _ \<Rightarrow>
             if stack op = [] then (Fail, sec_set_code DWARF_ERROR_ILLEGAL_STATE s')
             else if is_register op then (Fail, sec_set_code DWARF_ERROR_NOT_IMPLEMENTED s')
             else (Ok (hd (stack op), dex_pc_set op), s'))"

text \<open>What \<^verbatim>\<open>EvalRegister\<close> changes: the section, the registers, their dex pc, and a member of \<^verbatim>\<open>EvalInfo\<close>.\<close>

record 'w eval_state =
  ev_section :: dwarf_section
  ev_info :: "'w regs_info"
  ev_dex_pc :: u64
  return_address_undefined :: bool

type_synonym ('a, 'r) eval_prog = "('a word eval_state, 'r) prog"

definition on_section :: "'r sec_prog \<Rightarrow> ('a::len, 'r) eval_prog" where
  "on_section = on_member ev_section (\<lambda>s e. e\<lparr>ev_section := s\<rparr>)"

definition ev_error :: "(dwarf_section \<Rightarrow> dwarf_section) \<Rightarrow> 'a::len word eval_state \<Rightarrow> 'a word eval_state" where
  "ev_error f e = e\<lparr>ev_section := f (ev_section e)\<rparr>"

definition assign_reg :: "u32 \<Rightarrow> 'a::len word \<Rightarrow> ('a, unit) eval_prog" where
  "assign_reg reg v = modify (\<lambda>e. e\<lparr>ev_info := RegsInfo_Assign reg v (ev_info e)\<rparr>)"

text \<open>\<^verbatim>\<open>ReadFully\<close> into the register: a short read changes some of its bytes and fails.\<close>

definition read_reg :: "memory \<Rightarrow> u64 \<Rightarrow> u32 \<Rightarrow> ('a::len, unit) eval_prog" where
  "read_reg mem addr reg =
     bnd (gets (\<lambda>e. regs (ev_info e) ! unat reg)) (\<lambda>old.
     let bs = mem addr (sizeof TYPE('a)) in
     bnd (assign_reg reg (overlay bs old)) (\<lambda>_.
     if length bs = sizeof TYPE('a) then ret ()
     else fail_with (ev_error (sec_set_error DWARF_ERROR_MEMORY_INVALID addr))))"

definition EvalRegister ::
  "u8 \<Rightarrow> DwarfCie \<Rightarrow> memory \<Rightarrow> 'a::len word \<Rightarrow> DwarfLocation \<Rightarrow> u32 \<Rightarrow> ('a, unit) eval_prog" where
  "EvalRegister uninit cie regular cfa loc reg =
     (case loc_type loc of
        DWARF_LOCATION_OFFSET \<Rightarrow> read_reg regular (ucast cfa + value0 loc) reg
      | DWARF_LOCATION_VAL_OFFSET \<Rightarrow> assign_reg reg (ucast (ucast cfa + value0 loc))
      | DWARF_LOCATION_REGISTER \<Rightarrow>
          let cur_reg = ucast (value0 loc) :: u32 in
          bnd (gets (\<lambda>e. ucast (RegsInfo_Total (ev_info e)) :: u32)) (\<lambda>count.
          if cur_reg \<ge> count then fail_with (ev_error (sec_set_code DWARF_ERROR_ILLEGAL_VALUE))
          else
            bnd (\<lambda>e. (RegsInfo_Get (ev_info e) cur_reg, e)) (\<lambda>v.
            assign_reg reg (ucast (ucast v + value1 loc))))
      | DWARF_LOCATION_EXPRESSION \<Rightarrow>
          bnd (gets ev_info) (\<lambda>info.
          bnd (on_section (EvalExpression uninit loc regular info)) (\<lambda>(value, _).
          read_reg regular (ucast value) reg))
      | DWARF_LOCATION_VAL_EXPRESSION \<Rightarrow>
          bnd (gets ev_info) (\<lambda>info.
          bnd (on_section (EvalExpression uninit loc regular info)) (\<lambda>(value, is_dex_pc).
          bnd (assign_reg reg value) (\<lambda>_.
          modify (\<lambda>e. if is_dex_pc then e\<lparr>ev_dex_pc := ucast value\<rparr> else e))))
      | DWARF_LOCATION_UNDEFINED \<Rightarrow>
          modify (\<lambda>e. if ucast reg = return_address_register cie
                      then e\<lparr>return_address_undefined := True\<rparr> else e)
      | DWARF_LOCATION_INVALID \<Rightarrow> ret ())"

text \<open>The loop over the rules of the row.\<close>

fun EvalRegisters ::
  "u8 \<Rightarrow> DwarfCie \<Rightarrow> memory \<Rightarrow> 'a::len word \<Rightarrow> nat \<Rightarrow> (u32 \<times> DwarfLocation) list \<Rightarrow> ('a, unit) eval_prog" where
  "EvalRegisters uninit cie regular cfa nregs [] = ret ()"
| "EvalRegisters uninit cie regular cfa nregs ((reg, loc) # rest) =
     bnd (if reg = CFA_REG \<or> unat reg \<ge> nregs then ret ()
          else
            bnd (on_member ev_info (\<lambda>i e. e\<lparr>ev_info := i\<rparr>) (RegsInfo_Save reg)) (\<lambda>_.
            EvalRegister uninit cie regular cfa loc reg)) (\<lambda>_.
     EvalRegisters uninit cie regular cfa nregs rest)"

text \<open>The value of the canonical frame address.\<close>

definition EvalCfa :: "u8 \<Rightarrow> memory \<Rightarrow> DwarfLocation \<Rightarrow> nat \<Rightarrow> 'a::len word regs_info \<Rightarrow> 'a word sec_prog" where
  "EvalCfa uninit regular loc nregs info =
     (case loc_type loc of
        DWARF_LOCATION_REGISTER \<Rightarrow>
          if unat (value0 loc) \<ge> nregs then fail_with (sec_set_code DWARF_ERROR_ILLEGAL_VALUE)
          else ret (regs info ! unat (value0 loc) + ucast (value1 loc))
      | DWARF_LOCATION_VAL_EXPRESSION \<Rightarrow>
          bnd (EvalExpression uninit loc regular info) (\<lambda>(value, _). ret value)
      | _ \<Rightarrow> fail_with (sec_set_code DWARF_ERROR_ILLEGAL_VALUE))"

text \<open>
  \<^verbatim>\<open>Eval\<close> changes the section and the registers; the result is \<^verbatim>\<open>*finished\<close>. \<open>uninit\<close> stands for the two
  uninitialised objects: the member \<^verbatim>\<open>cur_op_\<close> of \<^verbatim>\<open>DwarfOp\<close> and the array \<^verbatim>\<open>saved_regs\<close> of \<^verbatim>\<open>RegsInfo\<close>.
\<close>

definition DwarfSection_Eval ::
  "u8 \<times> 'a::len word list \<Rightarrow> DwarfCie \<Rightarrow> memory \<Rightarrow> DwarfLocations \<Rightarrow>
     (dwarf_section \<times> 'a word cpu_regs, bool) prog" where
  "DwarfSection_Eval uninit cie regular lregs = (\<lambda>(s, r).
     if unat (return_address_register cie) \<ge> total_regs r
     then (Fail, (sec_set_code DWARF_ERROR_ILLEGAL_VALUE s, r))
     else
       case map_of (locs lregs) CFA_REG of
         None \<Rightarrow> (Fail, (sec_set_code DWARF_ERROR_CFA_NOT_DEFINED s, r))
       | Some loc \<Rightarrow>
           let r0 = set_dex_pc 0 r; info = RegsInfo (reg_vals r0) (snd uninit) in
           case EvalCfa (fst uninit) regular loc (total_regs r) info s of
             (Fail, s') \<Rightarrow> (Fail, (s', r0))
           | (Crash c, s') \<Rightarrow> (Crash c, (s', r0))
           | (Ok cfa, s') \<Rightarrow>
               case EvalRegisters (fst uninit) cie regular cfa (total_regs r) (locs lregs)
                      \<lparr>ev_section = s', ev_info = info, ev_dex_pc = 0, return_address_undefined = False\<rparr> of
                 (res, e) \<Rightarrow>
                   let r1 = set_dex_pc (ev_dex_pc e) (r0\<lparr>reg_vals := regs (ev_info e)\<rparr>) in
                   case res of
                     Fail \<Rightarrow> (Fail, (ev_section e, r1))
                   | Crash c \<Rightarrow> (Crash c, (ev_section e, r1))
                   | Ok _ \<Rightarrow>
                       let r2 = set_pc (if return_address_undefined e then 0
                                        else ucast (reg_vals r1 ! unat (return_address_register cie))) r1 in
                       (Ok (reg_pc r2 = 0), (ev_section e, set_sp (ucast cfa) r2)))"

section \<open>Rows\<close>

text \<open>
  \<^verbatim>\<open>GetLocationInfo\<close> sets the error and \<^verbatim>\<open>cur_pc_\<close> before it reads them, so that their initial values do not
  matter here. The rows of a CIE are cached by the offset of the CIE.
\<close>

definition run_cfa :: "'a::len itself \<Rightarrow> nat \<Rightarrow> u64 \<Rightarrow> DwarfFde \<Rightarrow> DwarfCie \<Rightarrow> DwarfLocations option \<Rightarrow>
    u64 \<Rightarrow> u64 \<Rightarrow> DwarfLocations \<Rightarrow> DwarfLocations sec_prog" where
  "run_cfa ty fuel pc fde cie rows start_offset end_offset lregs = (\<lambda>s.
     case GetLocationInfo fuel pc start_offset end_offset
            (set_cie_loc_regs rows
              (DwarfCfa (sec_memory s) fde cie \<lparr>code = DWARF_ERROR_NONE, address = 0\<rparr> (0 :: 'a word) lregs)) of
       (r, cfa) \<Rightarrow>
         let s' = s\<lparr>sec_memory := cfa_memory cfa\<rparr> in
         case r of
           Ok _ \<Rightarrow> (Ok (loc_regs cfa), s')
         | Fail \<Rightarrow> (Fail, s'\<lparr>sec_error := cfa_error cfa\<rparr>)
         | Crash c \<Rightarrow> (Crash c, s'))"

definition fde_get_cie :: "DwarfFde \<Rightarrow> DwarfCie sec_prog" where
  "fde_get_cie fde = (case fde_cie fde of None \<Rightarrow> crash Undefined | Some key \<Rightarrow> get_cie key)"

definition GetCfaLocationInfo ::
  "'a::len itself \<Rightarrow> nat \<Rightarrow> u64 \<Rightarrow> DwarfFde \<Rightarrow> DwarfLocations \<Rightarrow> DwarfLocations sec_prog" where
  "GetCfaLocationInfo ty fuel pc fde lregs =
     bnd (fde_get_cie fde) (\<lambda>cie.
     bnd (gets (\<lambda>s. map_of (cie_rows s) (cie_offset fde))) (\<lambda>reg_entry.
     bnd (case reg_entry of
            Some rows \<Rightarrow> ret (rows, lregs)
          | None \<Rightarrow>
              bnd (run_cfa ty fuel pc fde cie None (cie_cfa_instructions_offset cie)
                     (cie_cfa_instructions_end cie) lregs) (\<lambda>rows.
              bnd (modify (\<lambda>s. s\<lparr>cie_rows := AList.update (cie_offset fde) rows (cie_rows s)\<rparr>)) (\<lambda>_.
              ret (rows, rows)))) (\<lambda>(rows, lregs').
     run_cfa ty fuel pc fde cie (Some rows) (cfa_instructions_offset fde) (cfa_instructions_end fde) lregs')))"

text \<open>\<^verbatim>\<open>DwarfCfa::Log\<close> does not initialise the error it reports.\<close>

definition log_cfa :: "'a::len itself \<Rightarrow> nat \<Rightarrow> DwarfErrorData \<Rightarrow> nat \<Rightarrow> u64 \<Rightarrow> DwarfFde \<Rightarrow> DwarfCie \<Rightarrow> u64 \<Rightarrow> u64 \<Rightarrow>
    unit sec_prog" where
  "log_cfa ty fuel uninit indent pc fde cie start_offset end_offset = (\<lambda>s.
     case Log fuel indent pc start_offset end_offset
            (DwarfCfa (sec_memory s) fde cie uninit (0 :: 'a word) DwarfLocations_default) of
       (r, cfa) \<Rightarrow>
         let s' = s\<lparr>sec_memory := cfa_memory cfa, sec_log := sec_log s @ cfa_log cfa\<rparr> in
         case r of
           Fail \<Rightarrow> (Fail, s'\<lparr>sec_error := cfa_error cfa\<rparr>)
         | _ \<Rightarrow> (r, s'))"

definition DwarfSection_Log :: "'a::len itself \<Rightarrow> nat \<Rightarrow> DwarfErrorData \<Rightarrow> nat \<Rightarrow> u64 \<Rightarrow> DwarfFde \<Rightarrow> unit sec_prog" where
  "DwarfSection_Log ty fuel uninit indent pc fde =
     bnd (fde_get_cie fde) (\<lambda>cie.
     bnd (log_cfa ty fuel uninit indent pc fde cie (cie_cfa_instructions_offset cie) (cie_cfa_instructions_end cie)) (\<lambda>_.
     log_cfa ty fuel uninit indent pc fde cie (cfa_instructions_offset fde) (cfa_instructions_end fde)))"

end
