(* ===== verification/Dwarf_Section_NoHdr.thy ===== *)
theory Dwarf_Section_NoHdr
  imports Dwarf_Section
begin

text \<open>
  \<^verbatim>\<open>DwarfSectionImplNoHdr\<close> of \<^verbatim>\<open>DwarfSection.cpp\<close>: a section without a search table. The entries are read
  one after the other, and \<^verbatim>\<open>InsertFde\<close> builds an index of the FDEs by pc on the way. The results are
  what an insertion changes in the index, that a lookup returns an FDE that covers the pc, that the scan
  of a section ends, and what reading a CIE twice does.
\<close>

section \<open>The section\<close>

definition NoHdr_Init :: "u64 \<Rightarrow> u64 \<Rightarrow> u64 \<Rightarrow> unit sec_prog" where
  "NoHdr_Init offset sz bias =
     bnd (modify (\<lambda>s. s\<lparr>load_bias := bias, entries_offset := offset, next_entries_offset := offset,
                        entries_end := offset + sz\<rparr>)) (\<lambda>_.
     bnd (modify (\<lambda>s. s\<lparr>sec_memory := (sec_memory s)\<lparr>func_offset := -1, text_offset := -1, cur_offset := offset,
                                                     data_offset := offset\<rparr>\<rparr>)) (\<lambda>_.
     modify (\<lambda>s. s\<lparr>sec_pc_offset := offset\<rparr>)))"

text \<open>
  The loop of \<^verbatim>\<open>InsertFde\<close> over the elements from \<^verbatim>\<open>it\<close> on. Insertions do not disturb the iteration,
  because the inserted keys are below that of \<^verbatim>\<open>it\<close>. An element is \<^verbatim>\<open>(end, (start, fde))\<close>.
\<close>

fun InsertFde_loop ::
  "u64 \<Rightarrow> (u64 \<times> u64) omap \<Rightarrow> u64 \<Rightarrow> u64 \<Rightarrow> bool \<Rightarrow> (u64 \<times> u64) omap \<Rightarrow> (u64 \<times> u64) omap" where
  "InsertFde_loop key [] start stop add_element m =
     (if start < stop then omap_assign stop (start, key) m else m)"
| "InsertFde_loop key ((it_end, (it_start, _)) # it) start stop add_element m =
     (if start < stop then
        if add_element \<and> stop < it_start then
          if it_end = stop then m else omap_assign stop (start, key) m
        else
          let m' = (if add_element \<and> start \<noteq> it_start then omap_assign it_start (start, key) m else m) in
          if start < it_end then
            if stop < it_start then
              if it_end \<noteq> stop then omap_assign stop (start, key) m' else m'
            else InsertFde_loop key it it_end stop True m'
          else InsertFde_loop key it it_end stop False m'
      else m)"

definition InsertFde_map :: "u64 \<Rightarrow> u64 \<Rightarrow> u64 \<Rightarrow> (u64 \<times> u64) omap \<Rightarrow> (u64 \<times> u64) omap" where
  "InsertFde_map key start stop m =
     InsertFde_loop key (dropWhile (\<lambda>(it_end, _). it_end \<le> start) m) start stop False m"

definition InsertFde :: "u64 \<Rightarrow> DwarfFde \<Rightarrow> dwarf_section \<Rightarrow> dwarf_section" where
  "InsertFde key fde s = s\<lparr>fdes := InsertFde_map key (fde_pc_start fde) (fde_pc_end fde) (fdes s)\<rparr>"

text \<open>
  The head of an entry: \<open>Inl\<close> the encoding of addresses if it is a CIE, \<open>Inr\<close> the offset of its CIE if it
  is an FDE.
\<close>

definition ReadEntryHead :: "(u8 + u64) sec_prog" where
  "ReadEntryHead =
     bnd (sec_read (ReadUnsigned 4)) (\<lambda>value32.
     if value32 = 0xffffffff then
       bnd (sec_read (ReadUnsigned 8)) (\<lambda>value64.
       bnd sec_offset (\<lambda>off.
       bnd (modify (\<lambda>s. s\<lparr>next_entries_offset := off + value64\<rparr>)) (\<lambda>_.
       bnd (sec_read (ReadUnsigned 8)) (\<lambda>value64.
       bnd (gets (\<lambda>s. cie64_value (sec_class s))) (\<lambda>value.
       if value64 = value then ret (Inl DW_EH_PE_sdata8)
       else bnd (GetCieOffsetFromFde64 value64) (\<lambda>cie_off. ret (Inr cie_off)))))))
     else
       bnd sec_offset (\<lambda>off.
       bnd (modify (\<lambda>s. s\<lparr>next_entries_offset := off + value32\<rparr>)) (\<lambda>_.
       bnd (sec_read (ReadUnsigned 4)) (\<lambda>value32.
       bnd (gets (\<lambda>s. cie32_value (sec_class s))) (\<lambda>value.
       if value32 = value then ret (Inl DW_EH_PE_sdata4)
       else bnd (GetCieOffsetFromFde32 value32) (\<lambda>cie_off. ret (Inr cie_off)))))))"

text \<open>\<^verbatim>\<open>&cie_entries_[offset]\<close> and \<^verbatim>\<open>&fde_entries_[offset]\<close> find an entry or make one.\<close>

definition NextCie :: "'a::len itself \<Rightarrow> nat \<Rightarrow> u64 \<Rightarrow> u8 \<Rightarrow> unit sec_prog" where
  "NextCie ty fuel start_offset encoding =
     bnd (gets (\<lambda>s. case map_of (cie_entries s) start_offset of None \<Rightarrow> DwarfCie_default | Some cie \<Rightarrow> cie)) (\<lambda>old.
     bnd (gets next_entries_offset) (\<lambda>next_offset.
     let cie = old\<lparr>lsda_encoding := DW_EH_PE_omit, cie_cfa_instructions_end := next_offset,
                   fde_address_encoding := encoding\<rparr> in
     bnd (modify (put_cie start_offset cie)) (\<lambda>_.
     on_fail
       (bnd (FillInCie ty fuel cie) (\<lambda>cie'. modify (put_cie start_offset cie')))
       (erase_cie start_offset))))"

definition NextFde :: "'a::len itself \<Rightarrow> nat \<Rightarrow> u64 \<Rightarrow> u64 \<Rightarrow> unit sec_prog" where
  "NextFde ty fuel start_offset cie_off =
     bnd (gets (\<lambda>s. case map_of (fde_entries s) start_offset of None \<Rightarrow> DwarfFde_default | Some fde \<Rightarrow> fde)) (\<lambda>old.
     bnd (gets next_entries_offset) (\<lambda>next_offset.
     let fde = old\<lparr>cfa_instructions_end := next_offset, cie_offset := cie_off\<rparr> in
     bnd (modify (put_fde start_offset fde)) (\<lambda>_.
     on_fail
       (bnd (FillInFde ty fuel fde) (\<lambda>fde'. modify (put_fde start_offset fde')))
       (erase_fde start_offset))))"

text \<open>\<^verbatim>\<open>*fde_entry\<close> is the result: the new FDE, or nothing after a CIE.\<close>

definition GetNextCieOrFde :: "'a::len itself \<Rightarrow> nat \<Rightarrow> u64 option sec_prog" where
  "GetNextCieOrFde ty fuel =
     bnd (gets next_entries_offset) (\<lambda>start_offset.
     bnd (on_sec_memory (set_cur_offset start_offset)) (\<lambda>_.
     bnd ReadEntryHead (\<lambda>entry.
     case entry of
       Inl encoding \<Rightarrow> bnd (NextCie ty fuel start_offset encoding) (\<lambda>_. ret None)
     | Inr cie_off \<Rightarrow> bnd (NextFde ty fuel start_offset cie_off) (\<lambda>_. ret (Some start_offset)))))"

text \<open>
  The first loop of \<^verbatim>\<open>GetFdes\<close>, over the entries that were read before: whether it reached the end, and
  the FDEs.
\<close>

fun GetFdes_cached :: "nat \<Rightarrow> u64 \<Rightarrow> u64 list \<Rightarrow> (bool \<times> u64 list) sec_prog" where
  "GetFdes_cached fuel entry_offset acc = (\<lambda>s.
     if entry_offset < next_entries_offset s then
       case fuel of
         0 \<Rightarrow> (Crash OutOfFuel, s)
       | Suc fuel' \<Rightarrow>
           case map_of (cie_entries s) entry_offset of
             Some cie \<Rightarrow> GetFdes_cached fuel' (cie_cfa_instructions_end cie) acc s
           | None \<Rightarrow>
               case map_of (fde_entries s) entry_offset of
                 None \<Rightarrow> (Ok (False, acc), s)
               | Some fde \<Rightarrow> GetFdes_cached fuel' (cfa_instructions_end fde) (acc @ [entry_offset]) s
     else (Ok (True, acc), s))"

text \<open>Reads the next entry and adds it to the index; the result is the key and the FDE, if it is one.\<close>

definition index_next :: "'a::len itself \<Rightarrow> nat \<Rightarrow> (u64 \<times> DwarfFde) option sec_prog" where
  "index_next ty fuel =
     bnd (GetNextCieOrFde ty fuel) (\<lambda>entry.
     case entry of
       None \<Rightarrow> ret None
     | Some key \<Rightarrow>
         bnd (get_fde key) (\<lambda>fde.
         bnd (modify (InsertFde key fde)) (\<lambda>_.
         ret (Some (key, fde)))))"

definition more_entries :: "dwarf_section \<Rightarrow> bool" where
  "more_entries s \<longleftrightarrow> next_entries_offset s < entries_end s"

definition overran :: "dwarf_section \<Rightarrow> bool" where
  "overran s \<longleftrightarrow> next_entries_offset s < cur_offset (sec_memory s)"

text \<open>\<open>n\<close> bounds the number of entries, \<open>fuel\<close> the length of an augmentation string.\<close>

fun GetFdes_scan :: "'a::len itself \<Rightarrow> nat \<Rightarrow> nat \<Rightarrow> u64 list \<Rightarrow> u64 list sec_prog" where
  "GetFdes_scan ty fuel n acc = (\<lambda>s.
     if \<not> more_entries s then (Ok acc, s)
     else
       case n of
         0 \<Rightarrow> (Crash OutOfFuel, s)
       | Suc n' \<Rightarrow>
           case index_next ty fuel s of
             (Crash c, t) \<Rightarrow> (Crash c, t)
           | (Fail, t) \<Rightarrow> (Ok acc, t)
           | (Ok entry, t) \<Rightarrow>
               let acc' = (case entry of None \<Rightarrow> acc | Some (key, _) \<Rightarrow> acc @ [key]) in
               if overran t then (Ok acc', t) else GetFdes_scan ty fuel n' acc' t)"

definition NoHdr_GetFdes :: "'a::len itself \<Rightarrow> nat \<Rightarrow> u64 list sec_prog" where
  "NoHdr_GetFdes ty fuel =
     bnd (gets entries_offset) (\<lambda>off.
     bnd (GetFdes_cached fuel off []) (\<lambda>(complete, acc).
     if complete then GetFdes_scan ty fuel fuel acc else ret acc))"

fun GetFdeFromPc_scan :: "'a::len itself \<Rightarrow> nat \<Rightarrow> nat \<Rightarrow> u64 \<Rightarrow> u64 sec_prog" where
  "GetFdeFromPc_scan ty fuel n pc = (\<lambda>s.
     if \<not> more_entries s then (Fail, s)
     else
       case n of
         0 \<Rightarrow> (Crash OutOfFuel, s)
       | Suc n' \<Rightarrow>
           case index_next ty fuel s of
             (Crash c, t) \<Rightarrow> (Crash c, t)
           | (Fail, t) \<Rightarrow> (Fail, t)
           | (Ok entry, t) \<Rightarrow>
               case entry of
                 Some (key, fde) \<Rightarrow>
                   if pc \<ge> fde_pc_start fde \<and> pc < fde_pc_end fde then (Ok key, t)
                   else if overran t then (Fail, t) else GetFdeFromPc_scan ty fuel n' pc t
               | None \<Rightarrow> if overran t then (Fail, t) else GetFdeFromPc_scan ty fuel n' pc t)"

declare GetFdes_cached.simps [simp del] GetFdes_scan.simps [simp del] GetFdeFromPc_scan.simps [simp del]

text \<open>The search in the index.\<close>

definition index_lookup :: "(u64 \<times> u64) omap \<Rightarrow> u64 \<Rightarrow> u64 option" where
  "index_lookup m pc =
     (case upper_bound m pc of
        None \<Rightarrow> None
      | Some (_, (first, key)) \<Rightarrow> if pc \<ge> first then Some key else None)"

definition NoHdr_GetFdeFromPc :: "'a::len itself \<Rightarrow> nat \<Rightarrow> u64 \<Rightarrow> u64 sec_prog" where
  "NoHdr_GetFdeFromPc ty fuel pc =
     bnd (gets (\<lambda>s. index_lookup (fdes s) pc)) (\<lambda>it.
     case it of Some key \<Rightarrow> ret key | None \<Rightarrow> GetFdeFromPc_scan ty fuel fuel pc)"

section \<open>The index\<close>

text \<open>The ranges of the index do not overlap.\<close>

definition index_inv :: "(u64 \<times> u64) omap \<Rightarrow> bool" where
  "index_inv m \<longleftrightarrow> omap_inv m \<and> (\<forall>e s k. (e, (s, k)) \<in> set m \<longrightarrow> s < e) \<and>
     (\<forall>e s k e' s' k'. (e, (s, k)) \<in> set m \<longrightarrow> (e', (s', k')) \<in> set m \<longrightarrow> e < e' \<longrightarrow> e \<le> s')"

lemma index_invD:
  "index_inv m \<Longrightarrow> omap_inv m"
  "index_inv m \<Longrightarrow> (e, (s, k)) \<in> set m \<Longrightarrow> s < e"
  "index_inv m \<Longrightarrow> (e, (s, k)) \<in> set m \<Longrightarrow> (e', (s', k')) \<in> set m \<Longrightarrow> e < e' \<Longrightarrow> e \<le> s'"
  unfolding index_inv_def by blast+

lemma index_lookup_iff:
  assumes "index_inv m"
  shows "index_lookup m pc = Some k \<longleftrightarrow> (\<exists>e s. (e, (s, k)) \<in> set m \<and> s \<le> pc \<and> pc < e)"
proof
  assume "index_lookup m pc = Some k"
  then show "\<exists>e s. (e, (s, k)) \<in> set m \<and> s \<le> pc \<and> pc < e"
    unfolding index_lookup_def by (fastforce dest: upper_bound_SomeD split: option.splits if_splits)
next
  assume "\<exists>e s. (e, (s, k)) \<in> set m \<and> s \<le> pc \<and> pc < e"
  then obtain e s where mem: "(e, (s, k)) \<in> set m" "s \<le> pc" "pc < e"
    by blast
  have "upper_bound m pc = Some (e, (s, k))"
  proof (rule upper_bound_SomeI)
    show "e \<le> j" if "j \<in> fst ` set m" "pc < j" for j
    proof (rule ccontr)
      assume "\<not> e \<le> j"
      with that obtain s' k' where "(j, (s', k')) \<in> set m" "j < e"
        by auto
      with mem have "j \<le> s"
        using index_invD(3) [OF assms] by blast
      with mem that show False
        by simp
    qed
  qed (use mem index_invD(1) [OF assms] in simp_all)
  with mem show "index_lookup m pc = Some k"
    by (simp add: index_lookup_def)
qed

definition extended :: "u64 \<Rightarrow> u64 \<Rightarrow> u64 \<Rightarrow> (u64 \<times> u64) omap \<Rightarrow> (u64 \<times> u64) omap \<Rightarrow> bool" where
  "extended key start stop m m' \<longleftrightarrow> index_inv m' \<and>
     (\<forall>pc. index_lookup m' pc =
       (case index_lookup m pc of
          Some k \<Rightarrow> Some k
        | None \<Rightarrow> if start \<le> pc \<and> pc < stop then Some key else None))"

lemma index_add:
  assumes inv: "index_inv m" and range: "start < stop"
    and free: "\<And>e s k. (e, (s, k)) \<in> set m \<Longrightarrow> e \<le> start \<or> stop \<le> s"
  shows "extended key start stop m (omap_assign stop (start, key) m)"
    and "set (omap_assign stop (start, key) m) = insert (stop, (start, key)) (set m)"
proof -
  let ?m = "omap_assign stop (start, key) m"
  note nonempty = index_invD(2) [OF inv]
  have "map_of m stop = None"
  proof (rule ccontr)
    assume "map_of m stop \<noteq> None"
    then obtain s k where "(stop, (s, k)) \<in> set m"
      by (auto dest: map_of_SomeD)
    with free [OF this] nonempty [OF this] range show False
      by (auto dest: leD)
  qed
  then show set: "set ?m = insert (stop, (start, key)) (set m)"
    using index_invD(1) [OF inv] by (rule set_omap_assign_new)
  have "stop < e \<Longrightarrow> stop \<le> s" "e < stop \<Longrightarrow> e \<le> start" if "(e, (s, k)) \<in> set m" for e s k
    using free [OF that] nonempty [OF that] range by auto
  then have inv': "index_inv ?m"
    using range nonempty index_invD(3) [OF inv] omap_inv_assign [OF index_invD(1) [OF inv]]
    unfolding index_inv_def set by blast
  have "index_lookup ?m pc = Some k \<longleftrightarrow>
      (case index_lookup m pc of
         Some k \<Rightarrow> Some k
       | None \<Rightarrow> if start \<le> pc \<and> pc < stop then Some key else None) = Some k" for pc k
  proof (cases "index_lookup m pc")
    case None
    then have "\<not> (\<exists>e s. (e, (s, k)) \<in> set m \<and> s \<le> pc \<and> pc < e)"
      using index_lookup_iff [OF inv, of pc k] by simp
    then show ?thesis
      using None by (auto simp: index_lookup_iff [OF inv'] set)
  next
    case (Some j)
    then obtain e s where mem: "(e, (s, j)) \<in> set m" "s \<le> pc" "pc < e"
      using index_lookup_iff [OF inv] by blast
    then have "index_lookup ?m pc = Some j"
      by (auto simp: index_lookup_iff [OF inv'] set)
    with Some show ?thesis
      by simp
  qed
  then show "extended key start stop m ?m"
    unfolding extended_def using inv' by (metis not_None_eq)
qed

lemma extended_trans:
  assumes "extended key start mid m m1" and "extended key next stop m1 m2"
    and "\<And>pc. index_lookup m1 pc = None \<Longrightarrow> start \<le> pc \<and> pc < stop \<longleftrightarrow> next \<le> pc \<and> pc < stop" and "mid \<le> stop"
  shows "extended key start stop m m2"
  unfolding extended_def
proof (intro conjI allI)
  show "index_inv m2"
    using assms(2) by (simp add: extended_def)
  fix pc
  show "index_lookup m2 pc = (case index_lookup m pc of Some k \<Rightarrow> Some k
      | None \<Rightarrow> if start \<le> pc \<and> pc < stop then Some key else None)"
    using assms(1,2,4) assms(3) [of pc]
    by (auto simp: extended_def split: option.splits if_splits)
qed

lemma extended_refl: "index_inv m \<Longrightarrow> stop \<le> start \<Longrightarrow> extended key start stop m m"
  by (auto simp: extended_def split: option.splits)

text \<open>One round of the loop: the gap in front of the element \<open>(e, (s, k))\<close> is filled.\<close>

definition fill_gap :: "u64 \<Rightarrow> u64 \<Rightarrow> u64 \<Rightarrow> (u64 \<times> u64) omap \<Rightarrow> (u64 \<times> u64) omap" where
  "fill_gap key start s m = (if start \<noteq> s then omap_assign s (start, key) m else m)"

lemma fill_gap_extends:
  assumes inv: "index_inv m" and mem: "(e, (s, k)) \<in> set m" "start \<le> s"
    and free: "\<forall>e' s' k'. (e', (s', k')) \<in> set m \<longrightarrow> e' \<le> start \<or> s \<le> s'"
  shows "index_inv (fill_gap key start s m)"
    and "set (fill_gap key start s m) \<subseteq> insert (s, (start, key)) (set m)" and "set m \<subseteq> set (fill_gap key start s m)"
    and "extended key e stop (fill_gap key start s m) m2 \<Longrightarrow> s \<le> stop \<Longrightarrow> extended key start stop m m2"
proof -
  let ?m = "fill_gap key start s m"
  have ext: "extended key start s m ?m"
    and set: "set ?m \<subseteq> insert (s, (start, key)) (set m)" "set m \<subseteq> set ?m"
    using index_add [OF inv, of start s] free mem(2) inv
    by (auto simp: fill_gap_def extended_refl)
  then show inv1: "index_inv ?m" "set ?m \<subseteq> insert (s, (start, key)) (set m)" "set m \<subseteq> set ?m"
    by (simp_all add: extended_def)
  have se: "s < e"
    using index_invD(2) [OF inv mem(1)] .
  have "start \<le> pc \<and> pc < stop \<longleftrightarrow> e \<le> pc \<and> pc < stop" if "index_lookup ?m pc = None" for pc
  proof -
    have "\<not> (s \<le> pc \<and> pc < e)"
      using that mem(1) set(2) index_lookup_iff [OF inv1(1), of pc k] by auto
    moreover have "\<not> (start \<le> pc \<and> pc < s)"
      using ext that by (auto simp: extended_def split: option.splits if_splits)
    ultimately show ?thesis
      using mem(2) se by auto
  qed
  then show "extended key e stop ?m m2 \<Longrightarrow> s \<le> stop \<Longrightarrow> extended key start stop m m2"
    by (intro extended_trans [OF ext]) auto
qed

text \<open>From the second element on the loop fills every gap up to \<open>stop\<close>.\<close>

lemma InsertFde_loop_extends:
  assumes "index_inv m" and "set it \<subseteq> set m" and "omap_inv it"
    and "\<And>x. x \<in> set m \<Longrightarrow> fst x \<le> start \<or> x \<in> set it"
    and "\<And>e s k. (e, (s, k)) \<in> set it \<Longrightarrow> start \<le> s"
  shows "extended key start stop m (InsertFde_loop key it start stop True m)"
  using assms
proof (induction it arbitrary: start m)
  case Nil
  then show ?case
    by (cases "start < stop") (auto intro!: index_add extended_refl simp: not_less)
next
  case (Cons x it)
  obtain e s k where x: "x = (e, (s, k))"
    by (cases x) auto
  note inv = Cons.prems(1)
  have mem: "(e, (s, k)) \<in> set m" "start \<le> s" and se: "s < e"
    using Cons.prems(2,5) x index_invD(2) [OF inv] by auto
  have above: "e < e'" "e \<le> s'" if "(e', (s', k')) \<in> set it" for e' s' k'
  proof -
    show "e < e'"
      using Cons.prems(3) that by (force simp: x omap_inv_Cons)
    with that show "e \<le> s'"
      using index_invD(3) [OF inv mem(1)] Cons.prems(2) by auto
  qed
  have "e' \<le> start \<or> s \<le> s'" if "(e', (s', k')) \<in> set m" for e' s' k'
    using Cons.prems(4) [OF that] above [of e' s' k'] se by (auto simp: x)
  then have free: "\<forall>e' s' k'. (e', (s', k')) \<in> set m \<longrightarrow> e' \<le> start \<or> s \<le> s'"
    by blast
  consider "stop \<le> start" | "start < stop" "stop < s" | "start < stop" "s \<le> stop"
    by fastforce
  then show ?case
  proof cases
    case 2
    have "e' \<le> start \<or> stop \<le> s'" if "(e', (s', k')) \<in> set m" for e' s' k'
      using free that 2 by fastforce
    moreover have "e \<noteq> stop"
      using 2 se by auto
    ultimately show ?thesis
      using 2 by (simp add: x index_add(1) [OF inv])
  next
    case 3
    let ?m = "fill_gap key start s m"
    note gap = fill_gap_extends [OF inv mem free, where key = key]
    have "extended key e stop ?m (InsertFde_loop key it e stop True ?m)"
    proof (rule Cons.IH [OF gap(1)])
      show "fst y \<le> e \<or> y \<in> set it" if "y \<in> set ?m" for y
        using subsetD [OF gap(2) that] Cons.prems(4) [of y] order_trans [OF mem(2) less_imp_le [OF se]] se
        by (auto simp: x intro: order_trans)
    qed (use Cons.prems(2,3) gap(3) above x in \<open>auto simp: omap_inv_Cons\<close>)
    then have "extended key start stop m (InsertFde_loop key it e stop True ?m)"
      using 3 by (intro gap(4))
    moreover have "start < e"
      using mem(2) se by simp
    ultimately show ?thesis
      using 3 by (simp add: x fill_gap_def leD)
  qed (simp add: x inv extended_refl leD)
qed

lemma dropWhile_omap:
  assumes "omap_inv m"
  shows "omap_inv (dropWhile (\<lambda>(e, _). e \<le> start) m)"
    and "x \<in> set m \<Longrightarrow> fst x \<le> start \<or> x \<in> set (dropWhile (\<lambda>(e, _). e \<le> start) m)"
    and "upper_bound m start = (case dropWhile (\<lambda>(e, _). e \<le> start) m of [] \<Rightarrow> None | x # _ \<Rightarrow> Some x)"
proof -
  show "omap_inv (dropWhile (\<lambda>(e, _). e \<le> start) m)"
    using assms unfolding omap_inv_def
    by (simp add: sorted_wrt_map sorted_wrt_dropWhile)
  show "x \<in> set m \<Longrightarrow> fst x \<le> start \<or> x \<in> set (dropWhile (\<lambda>(e, _). e \<le> start) m)"
    by (induction m) auto
  show "upper_bound m start = (case dropWhile (\<lambda>(e, _). e \<le> start) m of [] \<Rightarrow> None | x # _ \<Rightarrow> Some x)"
    by (induction m start rule: upper_bound.induct) (auto simp: not_le)
qed

text \<open>
  The pcs in front of the first range that ends behind \<open>start\<close> and begins not behind \<open>stop\<close>: the loop does
  not look at them.
\<close>

definition skipped :: "(u64 \<times> u64) omap \<Rightarrow> u64 \<Rightarrow> u64 \<Rightarrow> u64 \<Rightarrow> bool" where
  "skipped m start stop pc \<longleftrightarrow>
     (case upper_bound m start of None \<Rightarrow> False | Some (_, (first, _)) \<Rightarrow> first \<le> stop \<and> pc < first)"

lemma InsertFde_map_correct:
  assumes "index_inv m"
  shows "index_inv (InsertFde_map key start stop m)"
    and "index_lookup (InsertFde_map key start stop m) pc =
      (case index_lookup m pc of
         Some k \<Rightarrow> Some k
       | None \<Rightarrow> if start \<le> pc \<and> pc < stop \<and> \<not> skipped m start stop pc then Some key else None)"
proof -
  let ?it = "dropWhile (\<lambda>(e, _). e \<le> start) m"
  note it = dropWhile_omap [OF index_invD(1) [OF assms], where start = start]
  have "index_inv (InsertFde_map key start stop m) \<and> index_lookup (InsertFde_map key start stop m) pc =
      (case index_lookup m pc of
         Some k \<Rightarrow> Some k
       | None \<Rightarrow> if start \<le> pc \<and> pc < stop \<and> \<not> skipped m start stop pc then Some key else None)"
  proof (cases ?it)
    case Nil
    have "e \<le> start" if "(e, (s, k)) \<in> set m" for e s k
      using it(2) [OF that] Nil by simp
    then have "extended key start stop m (InsertFde_map key start stop m)"
      unfolding InsertFde_map_def Nil
      by (cases "start < stop") (auto intro!: index_add(1) [OF assms] extended_refl [OF assms] simp: not_less)
    then show ?thesis
      using it(3) Nil by (auto simp: extended_def skipped_def split: option.splits)
  next
    case (Cons x rest)
    obtain e s k where x: "x = (e, (s, k))"
      by (cases x) auto
    have first: "upper_bound m start = Some (e, (s, k))" "start < e" "(e, (s, k)) \<in> set m" "set rest \<subseteq> set m"
      using it(3) Cons hd_dropWhile [of "\<lambda>(e, _). e \<le> start" m] set_dropWhileD [of _ "\<lambda>(e, _). e \<le> start" m]
      by (auto simp: x not_le)
    have rest: "omap_inv rest"
      using it(1) Cons by (simp add: x omap_inv_Cons)
    have below: "fst y \<le> e \<or> y \<in> set rest" if "y \<in> set m" for y
      using it(2) [OF that] first(2) by (auto simp: Cons x)
    have above: "e \<le> s'" if "(e', (s', k')) \<in> set rest" for e' s' k'
    proof (rule index_invD(3) [OF assms first(3)])
      show "(e', (s', k')) \<in> set m"
        using first(4) that by blast
      show "e < e'"
        using it(1) Cons that by (force simp: x omap_inv_Cons)
    qed
    consider "stop \<le> start" | "start < stop" "stop < s" | "start < stop" "s \<le> stop"
      by fastforce
    then show ?thesis
    proof cases
      case 1
      then show ?thesis
        using assms Cons by (auto simp: InsertFde_map_def x leD split: option.splits)
    next
      case 2
      have "e' \<le> start \<or> stop \<le> s'" if "(e', (s', k')) \<in> set m" for e' s' k'
        using it(2) [OF that] above [of e' s' k'] Cons 2 index_invD(2) [OF assms first(3)] by (auto simp: x)
      then have "extended key start stop m (omap_assign stop (start, key) m)"
        using 2 by (intro index_add(1) [OF assms])
      moreover have "e \<noteq> stop"
        using 2 index_invD(2) [OF assms first(3)] by auto
      ultimately show ?thesis
        using 2 Cons first(1,2)
        by (auto simp: InsertFde_map_def x extended_def skipped_def leD split: option.splits)
    next
      case 3
      have ext: "extended key e stop m (InsertFde_loop key rest e stop True m)"
        using rest above below first(4) by (intro InsertFde_loop_extends [OF assms])
      have "pc < s \<or> e \<le> pc" if "index_lookup m pc = None"
        using index_lookup_iff [OF assms, of pc k] first(3) that by fastforce
      then show ?thesis
        using 3 Cons first(1,2) ext index_invD(2) [OF assms first(3)]
        by (auto simp: InsertFde_map_def x extended_def skipped_def not_le split: option.splits)
    qed
  qed
  then show "index_inv (InsertFde_map key start stop m)"
    and "index_lookup (InsertFde_map key start stop m) pc =
      (case index_lookup m pc of
         Some k \<Rightarrow> Some k
       | None \<Rightarrow> if start \<le> pc \<and> pc < stop \<and> \<not> skipped m start stop pc then Some key else None)"
    by simp_all
qed

text \<open>
  C10. \<^verbatim>\<open>InsertFde\<close> keeps the ranges of the index disjoint and never changes the answer for a pc that the
  index already covers. The other pcs of the new FDE are added, except those below the first range that the
  FDE overlaps or touches: these stay without an answer.
\<close>

theorem InsertFde_index:
  assumes "index_inv (fdes s)"
  shows "index_inv (fdes (InsertFde key fde s)) \<and>
    index_lookup (fdes (InsertFde key fde s)) pc =
      (case index_lookup (fdes s) pc of
         Some k \<Rightarrow> Some k
       | None \<Rightarrow>
           if fde_pc_start fde \<le> pc \<and> pc < fde_pc_end fde \<and> \<not> skipped (fdes s) (fde_pc_start fde) (fde_pc_end fde) pc
           then Some key else None)"
  using InsertFde_map_correct [OF assms] by (simp add: InsertFde_def)

text \<open>The example in the comment of \<^verbatim>\<open>InsertFde\<close>: of the two new ranges only the upper one appears.\<close>

definition index_example :: dwarf_section where
  "index_example = (DwarfSection DebugFrame (MemoryBuffer_Read []) 0)\<lparr>fdes := [(0x400, (0x200, 1))]\<rparr>"

theorem InsertFde_index_witness:
  "index_lookup (fdes (InsertFde 2 (DwarfFde_default\<lparr>fde_pc_start := 0x100, fde_pc_end := 0x500\<rparr>) index_example)) 0x450 = Some 2 \<and>
   index_lookup (fdes (InsertFde 2 (DwarfFde_default\<lparr>fde_pc_start := 0x100, fde_pc_end := 0x500\<rparr>) index_example)) 0x150 = None"
proof -
  have "index_inv (fdes index_example)"
    by (simp add: index_example_def DwarfSection_def index_inv_def omap_inv_Cons)
  from InsertFde_index [OF this, of 2 "DwarfFde_default\<lparr>fde_pc_start := 0x100, fde_pc_end := 0x500\<rparr>" "0x450"]
    InsertFde_index [OF this, of 2 "DwarfFde_default\<lparr>fde_pc_start := 0x100, fde_pc_end := 0x500\<rparr>" "0x150"]
  show ?thesis
    by (simp add: index_example_def DwarfSection_def skipped_def index_lookup_def)
qed

section \<open>What a user of the index relies on\<close>

text \<open>
  An index of ranges: insertion keeps the answers it has and only adds answers from the inserted range.
  \<open>sound F m\<close> says that every answer is the key of an entry of \<open>F\<close> that covers the pc.
\<close>

locale range_index =
  fixes inv :: "'m \<Rightarrow> bool" and lookup :: "'m \<Rightarrow> u64 \<Rightarrow> u64 option"
    and insert_range :: "u64 \<Rightarrow> u64 \<Rightarrow> u64 \<Rightarrow> 'm \<Rightarrow> 'm"
  assumes inv_insert: "inv m \<Longrightarrow> inv (insert_range key start stop m)"
    and lookup_old: "inv m \<Longrightarrow> lookup m pc = Some k \<Longrightarrow> lookup (insert_range key start stop m) pc = Some k"
    and lookup_new: "inv m \<Longrightarrow> lookup (insert_range key start stop m) pc = Some k \<Longrightarrow>
      lookup m pc = Some k \<or> k = key \<and> start \<le> pc \<and> pc < stop"
begin

definition sound :: "(u64 \<rightharpoonup> DwarfFde) \<Rightarrow> 'm \<Rightarrow> bool" where
  "sound F m \<longleftrightarrow> inv m \<and> (\<forall>pc k. lookup m pc = Some k \<longrightarrow>
     (\<exists>fde. F k = Some fde \<and> fde_pc_start fde \<le> pc \<and> pc < fde_pc_end fde))"

lemma soundD:
  "sound F m \<Longrightarrow> lookup m pc = Some k \<Longrightarrow> \<exists>fde. F k = Some fde \<and> fde_pc_start fde \<le> pc \<and> pc < fde_pc_end fde"
  by (simp add: sound_def)

lemma sound_insert:
  "sound F m \<Longrightarrow> F key = Some fde \<Longrightarrow> sound F (insert_range key (fde_pc_start fde) (fde_pc_end fde) m)"
  unfolding sound_def using inv_insert lookup_new by fastforce

lemma sound_mono:
  "sound F m \<Longrightarrow> (\<And>k fde. F k = Some fde \<Longrightarrow> G k = Some fde) \<Longrightarrow> sound G m"
  unfolding sound_def by fast

end

interpretation fde_index: range_index index_inv index_lookup InsertFde_map
proof
  fix m key start stop pc k assume inv: "index_inv m"
  show "index_inv (InsertFde_map key start stop m)"
    by (rule InsertFde_map_correct(1) [OF inv])
  show "index_lookup m pc = Some k \<Longrightarrow> index_lookup (InsertFde_map key start stop m) pc = Some k"
    by (simp add: InsertFde_map_correct(2) [OF inv])
  show "index_lookup (InsertFde_map key start stop m) pc = Some k \<Longrightarrow>
      index_lookup m pc = Some k \<or> k = key \<and> start \<le> pc \<and> pc < stop"
    by (auto simp: InsertFde_map_correct(2) [OF inv] split: option.splits if_splits)
qed

section \<open>What parsing leaves alone\<close>

text \<open>Everything but the cursor, the error and the CIEs.\<close>

definition sec_frame :: "dwarf_section \<Rightarrow> dwarf_section" where
  "sec_frame s = s\<lparr>sec_memory := DwarfMemory (memory_of (sec_memory s)),
     sec_error := \<lparr>code = DWARF_ERROR_NONE, address = 0\<rparr>, cie_entries := []\<rparr>"

lemma sec_frame_updates [simp]:
  "memory_of m = memory_of (sec_memory s) \<Longrightarrow> sec_frame (s\<lparr>sec_memory := m\<rparr>) = sec_frame s"
  "sec_frame (s\<lparr>sec_error := e\<rparr>) = sec_frame s" "sec_frame (s\<lparr>cie_entries := c\<rparr>) = sec_frame s"
  "sec_frame (sec_set_code k s) = sec_frame s" "sec_frame (sec_set_error k a s) = sec_frame s"
  "sec_frame (set_mem_pc_offset off s) = sec_frame s" "sec_frame (put_cie key cie s) = sec_frame s"
  "sec_frame (erase_cie key s) = sec_frame s"
  by (simp_all add: sec_frame_def sec_set_code_def sec_set_error_def set_mem_pc_offset_def put_cie_def erase_cie_def)

lemma sec_frameD:
  assumes "sec_frame t = sec_frame s"
  shows "memory_of (sec_memory t) = memory_of (sec_memory s)" "fde_entries t = fde_entries s" "fdes t = fdes s"
    "next_entries_offset t = next_entries_offset s" "entries_end t = entries_end s"
    "sec_class t = sec_class s" "entries_offset t = entries_offset s"
  using arg_cong [OF assms, of "\<lambda>s. memory_of (sec_memory s)"] arg_cong [OF assms, of fde_entries]
    arg_cong [OF assms, of fdes] arg_cong [OF assms, of next_entries_offset] arg_cong [OF assms, of entries_end]
    arg_cong [OF assms, of sec_class] arg_cong [OF assms, of entries_offset]
  by (simp_all add: sec_frame_def DwarfMemory_def)

lemma keeps_memory_of [keep]: "moves_cursor p \<Longrightarrow> keeps memory_of p"
  by (rule keepsI) (auto dest: moves_cursorD)

lemma moves_cursor_set_cur_offset [prog_frame]: "moves_cursor (set_cur_offset off)"
  by (simp add: set_cur_offset_def prog_frame)

lemma frame_read [keep]:
  "moves_cursor p \<Longrightarrow> keeps sec_frame (on_sec_memory p)" "moves_cursor p \<Longrightarrow> keeps sec_frame (sec_read p)"
proof -
  show read: "keeps sec_frame (on_sec_memory p)" if "moves_cursor p"
    using keepsD [OF keeps_memory_of [OF that]] unfolding on_sec_memory_def by (intro keeps_on_member) auto
  show "keeps sec_frame (sec_read p)" if "moves_cursor p"
    unfolding sec_read_def using read [OF that] by (intro keep) auto
qed

lemma frame_gets [keep]: "keeps f sec_offset" "keeps f (get_cie key)" "keeps f (get_fde key)"
    "keeps f (GetCieOffsetFromFde32 v)" "keeps f (GetCieOffsetFromFde64 v)" "keeps f (AdjustPcFromFde v)"
  by (auto simp: keeps_def sec_offset_def get_cie_def get_fde_def GetCieOffsetFromFde32_def
      GetCieOffsetFromFde64_def AdjustPcFromFde_def split: option.splits)

lemma frame_ReadAugmentation [keep]: "keeps sec_frame (ReadAugmentation fuel str)"
proof (induction fuel arbitrary: str)
  case 0
  show ?case
    by (rule keepsI) simp
next
  case (Suc fuel)
  then show ?case
    by (auto intro!: keep prog_frame)
qed

lemma frame_FillInAugmentation [keep]: "keeps sec_frame (FillInAugmentation ty str cie)"
proof (induction str arbitrary: cie)
  case Nil
  show ?case
    by (rule keepsI) simp
next
  case (Cons c str)
  then show ?case
    unfolding FillInAugmentation.simps by (intro keep prog_frame) simp_all
qed

lemma frame_cie [keep]:
  "keeps sec_frame (FillInCieHeader cie)" "keeps sec_frame (FillInCie ty fuel cie)"
  "keeps sec_frame (GetCieFromOffset ty fuel off)"
proof -
  show header: "keeps sec_frame (FillInCieHeader cie)" for cie
    unfolding FillInCieHeader_def by (intro keep prog_frame) simp_all
  show fill: "keeps sec_frame (FillInCie ty fuel cie)" for cie
    unfolding FillInCie_def Let_def by (intro keep prog_frame) simp_all
  show "keeps sec_frame (GetCieFromOffset ty fuel off)"
    unfolding GetCieFromOffset_def by (intro keep prog_frame header fill) simp_all
qed

lemma frame_fde [keep]: "keeps sec_frame (FillInFde ty fuel fde)"
  unfolding FillInFde_def by (intro keep prog_frame) (simp_all add: Let_def)

section \<open>The scan\<close>

text \<open>Where the entry after the one at \<open>off\<close> is, according to the length of the entry.\<close>

definition entry_next :: "memory \<Rightarrow> u64 \<Rightarrow> u64 option" where
  "entry_next mem off =
     (case ReadFully mem off 4 of
        None \<Rightarrow> None
      | Some bs \<Rightarrow>
          if le_word bs = (0xffffffff :: u64) then
            (case ReadFully mem (off + 4) 8 of None \<Rightarrow> None | Some bs' \<Rightarrow> Some (off + 12 + le_word bs'))
          else Some (off + 4 + le_word bs))"

lemma sec_read_unsigned:
  "sec_read (ReadUnsigned n) s =
     (case ReadFully (memory_of (sec_memory s)) (cur_offset (sec_memory s)) n of
        None \<Rightarrow> (Fail, sec_set_error DWARF_ERROR_MEMORY_INVALID (cur_offset (sec_memory s)) s)
      | Some bs \<Rightarrow> (Ok (le_word bs),
          s\<lparr>sec_memory := (sec_memory s)\<lparr>cur_offset := cur_offset (sec_memory s) + of_nat n\<rparr>\<rparr>))"
  by (simp add: sec_read_def on_fail_def on_sec_memory_def on_member_def ReadUnsigned_def bnd_def ReadBytes_def
      split: option.split)

lemma ReadEntryHead_effect:
  assumes "ReadEntryHead s = (r, t)"
  shows "sec_frame (t\<lparr>next_entries_offset := n\<rparr>) = sec_frame (s\<lparr>next_entries_offset := n\<rparr>)"
    and "r = Fail \<and> next_entries_offset t = next_entries_offset s \<or>
      entry_next (memory_of (sec_memory s)) (cur_offset (sec_memory s)) = Some (next_entries_offset t)"
  using assms
  by (auto simp: ReadEntryHead_def bnd_def sec_read_unsigned sec_offset_def GetCieOffsetFromFde32_def
      GetCieOffsetFromFde64_def entry_next_def sec_frame_def sec_set_error_def algebra_simps
      split: option.splits if_splits)

text \<open>Everything but the FDE with the key \<open>k\<close>, too.\<close>

definition frame_but :: "u64 \<Rightarrow> dwarf_section \<Rightarrow> dwarf_section" where
  "frame_but k s = (sec_frame s)\<lparr>fde_entries := AList.delete k (fde_entries (sec_frame s))\<rparr>"

lemma frame_butD:
  assumes "frame_but k t = frame_but k s"
  shows "memory_of (sec_memory t) = memory_of (sec_memory s)" "fdes t = fdes s"
    "next_entries_offset t = next_entries_offset s" "entries_end t = entries_end s"
    and "j \<noteq> k \<Longrightarrow> map_of (fde_entries t) j = map_of (fde_entries s) j"
proof -
  show "memory_of (sec_memory t) = memory_of (sec_memory s)" "fdes t = fdes s"
      "next_entries_offset t = next_entries_offset s" "entries_end t = entries_end s"
    using arg_cong [OF assms, of "\<lambda>s. memory_of (sec_memory s)"] arg_cong [OF assms, of fdes]
      arg_cong [OF assms, of next_entries_offset] arg_cong [OF assms, of entries_end]
    by (simp_all add: frame_but_def sec_frame_def DwarfMemory_def)
  have "AList.delete k (fde_entries t) = AList.delete k (fde_entries s)"
    using arg_cong [OF assms, of fde_entries] by (simp add: frame_but_def sec_frame_def)
  then have "((map_of (fde_entries t))(k := None)) j = ((map_of (fde_entries s))(k := None)) j"
    by (metis delete_conv')
  then show "j \<noteq> k \<Longrightarrow> map_of (fde_entries t) j = map_of (fde_entries s) j"
    by simp
qed

lemma keeps_frame_but: "keeps sec_frame p \<Longrightarrow> keeps (frame_but k) p"
  by (simp add: keeps_def frame_but_def)

lemma frame_but_entry [simp]: "frame_but k (put_fde k fde s) = frame_but k s" "frame_but k (erase_fde k s) = frame_but k s"
  by (simp_all add: frame_but_def sec_frame_def put_fde_def erase_fde_def delete_update_same AList.delete_idem)

lemma NextCie_frame: "keeps sec_frame (NextCie ty fuel k encoding)"
  unfolding NextCie_def Let_def by (intro keep) simp_all

lemma NextFde_frame: "keeps (frame_but k) (NextFde ty fuel k cie_off)"
  unfolding NextFde_def Let_def by (intro keep keeps_frame_but) simp_all

lemma NextFde_Ok: "NextFde ty fuel k cie_off s = (Ok (), t) \<Longrightarrow> \<exists>fde. map_of (fde_entries t) k = Some fde"
  by (auto simp: NextFde_def bnd_Ok_iff Let_def put_fde_def update_conv')

text \<open>What reading the entry at \<^verbatim>\<open>next_entries_offset_\<close> changes.\<close>

definition scanned :: "dwarf_section \<Rightarrow> dwarf_section \<Rightarrow> bool" where
  "scanned s t \<longleftrightarrow> fdes t = fdes s \<and> entries_end t = entries_end s \<and>
     memory_of (sec_memory t) = memory_of (sec_memory s) \<and>
     (\<forall>j. j \<noteq> next_entries_offset s \<longrightarrow> map_of (fde_entries t) j = map_of (fde_entries s) j) \<and>
     (next_entries_offset t = next_entries_offset s \<and> fde_entries t = fde_entries s \<or>
      entry_next (memory_of (sec_memory s)) (next_entries_offset s) = Some (next_entries_offset t))"

lemma GetNextCieOrFde_effect:
  assumes "GetNextCieOrFde ty fuel s = (r, t)"
  shows "scanned s t"
    and "r = Ok x \<Longrightarrow> entry_next (memory_of (sec_memory s)) (next_entries_offset s) = Some (next_entries_offset t)"
    and "r = Ok (Some key) \<Longrightarrow> key = next_entries_offset s \<and> (\<exists>fde. map_of (fde_entries t) key = Some fde)"
proof -
  let ?k = "next_entries_offset s" and ?mem = "memory_of (sec_memory s)"
  let ?s = "s\<lparr>sec_memory := (sec_memory s)\<lparr>cur_offset := ?k\<rparr>\<rparr>"
  obtain e u where head: "ReadEntryHead ?s = (e, u)"
    by fastforce
  note frame = ReadEntryHead_effect(1) [OF head, of 0] and "next" = ReadEntryHead_effect(2) [OF head]
  have u: "fdes u = fdes s" "entries_end u = entries_end s" "memory_of (sec_memory u) = ?mem"
      "fde_entries u = fde_entries s"
    using sec_frameD [OF frame] by simp_all
  have eq: "(case e of
      Ok (Inl encoding) \<Rightarrow> bnd (NextCie ty fuel ?k encoding) (\<lambda>_. ret None) u
    | Ok (Inr cie_off) \<Rightarrow> bnd (NextFde ty fuel ?k cie_off) (\<lambda>_. ret (Some ?k)) u
    | Fail \<Rightarrow> (Fail, u)
    | Crash c \<Rightarrow> (Crash c, u)) = (r, t)"
    using head assms unfolding GetNextCieOrFde_def
    by (simp add: bnd_def on_sec_memory_def on_member_def set_cur_offset_def split: outcome.splits sum.splits)
  have keep_cie: "keeps (frame_but ?k) (bnd (NextCie ty fuel ?k encoding) (\<lambda>_. ret x))" for encoding and x :: "u64 option"
    by (intro keep keeps_frame_but NextCie_frame)
  have keep_fde: "keeps (frame_but ?k) (bnd (NextFde ty fuel ?k cie_off) (\<lambda>_. ret x))" for cie_off and x :: "u64 option"
    by (intro keep NextFde_frame)
  have but: "frame_but ?k t = frame_but ?k u"
    using eq by (auto dest: keepsD [OF keep_cie] keepsD [OF keep_fde] split: outcome.splits sum.splits)
  note t = frame_butD [OF but]
  have same: "t = u" if "e = Fail"
    using that eq by simp
  have ok: "e \<noteq> Fail" if "r = Ok x" for x
    using that eq by auto
  show "scanned s t"
    unfolding scanned_def
    using t u "next" same by auto
  show "entry_next ?mem ?k = Some (next_entries_offset t)" if "r = Ok x"
    using "next" ok [OF that] t by simp
  show "key = ?k \<and> (\<exists>fde. map_of (fde_entries t) key = Some fde)" if "r = Ok (Some key)"
    using eq that NextFde_Ok by (auto simp: bnd_Ok_iff split: outcome.splits sum.splits)
qed

text \<open>The lengths of the entries are such that the scan moves forwards.\<close>

definition entries_advance :: "dwarf_section \<Rightarrow> bool" where
  "entries_advance s \<longleftrightarrow>
     (\<forall>off n. off < entries_end s \<longrightarrow> entry_next (memory_of (sec_memory s)) off = Some n \<longrightarrow> off < n)"

text \<open>The invariant of the scan: the index is sound, and the FDEs are in front of the next entry.\<close>

definition scan_inv :: "dwarf_section \<Rightarrow> bool" where
  "scan_inv s \<longleftrightarrow> entries_advance s \<and> fde_index.sound (map_of (fde_entries s)) (fdes s) \<and>
     (\<forall>k fde. map_of (fde_entries s) k = Some fde \<longrightarrow> k < next_entries_offset s)"

lemma scanned_inv:
  assumes "scan_inv s" and "more_entries s" and "scanned s t"
  shows "scan_inv t" and "entry_next (memory_of (sec_memory s)) (next_entries_offset s) = Some (next_entries_offset t) \<Longrightarrow>
    next_entries_offset s < next_entries_offset t"
proof -
  let ?k = "next_entries_offset s"
  show forward: "?k < next_entries_offset t"
    if "entry_next (memory_of (sec_memory s)) ?k = Some (next_entries_offset t)"
    using assms(1,2) that by (simp add: scan_inv_def entries_advance_def more_entries_def)
  have old: "map_of (fde_entries t) k = Some fde" if "map_of (fde_entries s) k = Some fde" for k fde
    using assms(1,3) that unfolding scan_inv_def scanned_def by (metis order_less_irrefl)
  have "fde_index.sound (map_of (fde_entries t)) (fdes s)"
    using assms(1) old by (auto simp: scan_inv_def intro: fde_index.sound_mono)
  moreover have "k < next_entries_offset t" if "map_of (fde_entries t) k = Some fde" for k fde
  proof (cases "next_entries_offset t = ?k \<and> fde_entries t = fde_entries s")
    case True
    then show ?thesis
      using assms(1) that by (simp add: scan_inv_def)
  next
    case False
    then have "?k < next_entries_offset t"
      using assms(3) forward by (auto simp: scanned_def)
    moreover have "k = ?k \<or> k < ?k"
      using assms(1,3) that by (auto simp: scan_inv_def scanned_def)
    ultimately show ?thesis
      by auto
  qed
  ultimately show "scan_inv t"
    using assms(1,3) by (simp add: scan_inv_def scanned_def entries_advance_def)
qed

lemma index_next_step:
  assumes "scan_inv s" and "more_entries s" and "index_next ty fuel s = (r, t)" and "\<And>c. r \<noteq> Crash c"
  shows "scan_inv t" and "entries_end t = entries_end s"
    and "memory_of (sec_memory t) = memory_of (sec_memory s)"
    and "r = Ok x \<Longrightarrow> next_entries_offset s < next_entries_offset t"
    and "r = Ok (Some (key, fde)) \<Longrightarrow> map_of (fde_entries t) key = Some fde"
proof -
  obtain r' u where "next": "GetNextCieOrFde ty fuel s = (r', u)"
    by fastforce
  note eff = GetNextCieOrFde_effect [OF "next"]
  note inv = scanned_inv [OF assms(1,2) eff(1)]
  consider (fail) "r' = Fail" "r = Fail" "t = u" | (cie) "r' = Ok None" "r = Ok None" "t = u"
    | (fde) key fde where "r' = Ok (Some key)" "r = Ok (Some (key, fde))" "t = InsertFde key fde u"
        "map_of (fde_entries u) key = Some fde"
    using assms(3,4) "next"
    by (auto simp: index_next_def bnd_def get_fde_def split: outcome.splits option.splits)
  then have "scan_inv t \<and> entries_end t = entries_end s \<and> memory_of (sec_memory t) = memory_of (sec_memory s) \<and>
      (r = Ok x \<longrightarrow> next_entries_offset s < next_entries_offset t) \<and>
      (r = Ok (Some (key, fde)) \<longrightarrow> map_of (fde_entries t) key = Some fde)"
  proof cases
    case (fde key fde)
    have "scan_inv t"
      using inv(1) fde by (auto simp: scan_inv_def InsertFde_def entries_advance_def intro: fde_index.sound_insert)
    then show ?thesis
      using eff(1,2) inv(2) fde by (auto simp: scanned_def InsertFde_def)
  qed (use inv eff in \<open>auto simp: scanned_def\<close>)
  then show "scan_inv t" "entries_end t = entries_end s" "memory_of (sec_memory t) = memory_of (sec_memory s)"
      "r = Ok x \<Longrightarrow> next_entries_offset s < next_entries_offset t"
      "r = Ok (Some (key, fde)) \<Longrightarrow> map_of (fde_entries t) key = Some fde"
    by simp_all
qed

lemma scan_sound:
  assumes "scan_inv s" and "GetFdeFromPc_scan ty fuel n pc s = (r, t)" and "\<And>c. r \<noteq> Crash c"
  shows "scan_inv t \<and> (\<forall>key. r = Ok key \<longrightarrow>
    (\<exists>fde. map_of (fde_entries t) key = Some fde \<and> fde_pc_start fde \<le> pc \<and> pc < fde_pc_end fde))"
  using assms
proof (induction n arbitrary: s)
  case 0
  then show ?case
    by (auto simp: GetFdeFromPc_scan.simps [of ty fuel 0] split: if_splits)
next
  case (Suc n)
  obtain r' u where "next": "index_next ty fuel s = (r', u)"
    by fastforce
  show ?case
  proof (cases "more_entries s \<and> (\<forall>c. r' \<noteq> Crash c)")
    case False
    then show ?thesis
      using Suc.prems "next"
      by (auto simp: GetFdeFromPc_scan.simps [of ty fuel "Suc n"] split: if_splits outcome.splits)
  next
    case True
    note step = index_next_step [OF Suc.prems(1) _ "next"]
    have "scan_inv u"
      using step(1) True by blast
    moreover have "map_of (fde_entries u) key = Some fde" if "r' = Ok (Some (key, fde))" for key fde
      using step(5) True that by blast
    ultimately show ?thesis
      using Suc.prems(2,3) Suc.IH [of u] "next" True
      by (auto simp: GetFdeFromPc_scan.simps [of ty fuel "Suc n"] split: if_splits outcome.splits option.splits)
  qed
qed

lemma NoHdr_search_sound:
  assumes "scan_inv s" and "NoHdr_GetFdeFromPc ty fuel pc s = (r, t)" and "\<And>c. r \<noteq> Crash c"
  shows "scan_inv t \<and> (\<forall>key. r = Ok key \<longrightarrow>
    (\<exists>fde. map_of (fde_entries t) key = Some fde \<and> fde_pc_start fde \<le> pc \<and> pc < fde_pc_end fde))"
proof (cases "index_lookup (fdes s) pc")
  case None
  then show ?thesis
    using assms(2,3) by (intro scan_sound [OF assms(1), of ty fuel fuel]) (simp_all add: NoHdr_GetFdeFromPc_def)
next
  case (Some key)
  then show ?thesis
    using assms fde_index.soundD [of "map_of (fde_entries s)" "fdes s" pc key]
    by (auto simp: NoHdr_GetFdeFromPc_def scan_inv_def)
qed

text \<open>
  C15. The scan of a section keeps the invariant of the cache, and an FDE that \<^verbatim>\<open>GetFdeFromPc\<close> returns, from
  the index or from the entries it reads, covers the pc. The lengths of the entries must not wrap around.
\<close>

theorem NoHdr_GetFdeFromPc_sound:
  assumes "scan_inv s" and "NoHdr_GetFdeFromPc ty fuel pc s = (r, t)" and "\<And>c. r \<noteq> Crash c"
  shows "scan_inv t \<and> (\<forall>key. r = Ok key \<longrightarrow>
    (\<exists>fde. map_of (fde_entries t) key = Some fde \<and> fde_pc_start fde \<le> pc \<and> pc < fde_pc_end fde))"
  by (rule NoHdr_search_sound [OF assms])

lemma NoHdr_Init_inv:
  assumes "fdes s = []" and "fde_entries s = []"
    and "\<And>off n. off < offset + sz \<Longrightarrow> entry_next (memory_of (sec_memory s)) off = Some n \<Longrightarrow> off < n"
  shows "scan_inv (snd (NoHdr_Init offset sz bias s))"
  using assms
  by (auto simp: NoHdr_Init_def scan_inv_def entries_advance_def fde_index.sound_def index_inv_def index_lookup_def)

section \<open>The end of the scan\<close>

text \<open>
  A call started with \<open>f s = c\<close> does not run out of fuel. The memory of the section ends at \<open>N\<close>, and
  \<open>fuel\<close> is more than \<open>N\<close>.
\<close>

definition fed :: "('s \<Rightarrow> 'b) \<Rightarrow> 'b \<Rightarrow> ('s, 'a) prog \<Rightarrow> bool" where
  "fed f c p \<longleftrightarrow> (\<forall>s t. f s = c \<longrightarrow> p s \<noteq> (Crash OutOfFuel, t))"

lemma fed_never_starves: "never_starves p \<Longrightarrow> fed f c p"
  by (simp add: fed_def never_starves_def)

lemma fed_bnd: "fed f c p \<Longrightarrow> keeps f p \<Longrightarrow> (\<And>x. fed f c (q x)) \<Longrightarrow> fed f c (bnd p q)"
  by (auto simp: fed_def bnd_Crash_iff dest: keepsD)

lemma fed_on_fail: "fed f c p \<Longrightarrow> fed f c (on_fail p h)"
  by (simp add: fed_def)

lemma fed_cases:
  "fed f c p \<Longrightarrow> fed f c q \<Longrightarrow> fed f c (if b then p else q)"
  "fed f c p \<Longrightarrow> (\<And>y. fed f c (p' y)) \<Longrightarrow> fed f c (case x of None \<Rightarrow> p | Some y \<Rightarrow> p' y)"
  "(\<And>y. fed f c (p1 y)) \<Longrightarrow> (\<And>y. fed f c (p2 y)) \<Longrightarrow> fed f c (case z of Inl y \<Rightarrow> p1 y | Inr y \<Rightarrow> p2 y)"
  by (simp_all split: option.split sum.split)

lemma never_starves_reads [fuelled]:
  "never_starves (ReadBytes n)" "never_starves (ReadUnsigned n)" "never_starves (ReadSigned n)"
  "never_starves ReadULEB128" "never_starves ReadSLEB128" "never_starves (ReadEncodedValue ty e)"
  "never_starves (set_cur_offset off)"
proof -
  show bytes: "never_starves (ReadBytes n)" for n
    by (simp add: never_starves_def ReadBytes_def split: option.split)
  have loop: "never_starves (ReadLEB128_loop v sh)" for v sh
  proof (induction v sh rule: ReadLEB128_loop.induct)
    case (1 v sh)
    have "never_starves (ReadLEB128_loop (v + push_bit sh (ucast (hd bs AND 0x7f))) (sh + 7))"
      if "\<not> 64 \<le> sh" "hd bs AND 0x80 \<noteq> 0" for bs :: "u8 list"
      by (rule 1 [OF that(1) _ _ that(2)]) simp_all
    then show ?case
      by (subst ReadLEB128_loop.simps) (auto simp: Let_def intro!: never_starves_bnd bytes never_starves_basic)
  qed
  show reads: "never_starves (ReadUnsigned n)" "never_starves (ReadSigned n)" "never_starves ReadULEB128"
      "never_starves ReadSLEB128" for n
    unfolding ReadUnsigned_def ReadSigned_def ReadULEB128_def ReadSLEB128_def
    by (auto intro!: fuelled bytes loop split: prod.split)
  have "never_starves (AdjustEncodedValue e v)" for e v
    by (simp add: never_starves_def AdjustEncodedValue_def Let_def)
  then show "never_starves (ReadEncodedValue ty e)"
    unfolding ReadEncodedValue_def ReadEncodedData_def Let_def by (intro fuelled reads)
  show "never_starves (set_cur_offset off)"
    by (simp add: set_cur_offset_def fuelled)
qed

lemma never_starves_section [fuelled]:
  "never_starves p \<Longrightarrow> never_starves (on_sec_memory p)" "never_starves p \<Longrightarrow> never_starves (sec_read p)"
  "never_starves sec_offset" "never_starves (get_cie key)" "never_starves (get_fde key)"
  "never_starves (GetCieOffsetFromFde32 v)" "never_starves (GetCieOffsetFromFde64 v)" "never_starves (AdjustPcFromFde v)"
  by (auto simp: on_sec_memory_def sec_read_def sec_offset_def GetCieOffsetFromFde32_def GetCieOffsetFromFde64_def
      AdjustPcFromFde_def intro!: fuelled)
    (auto simp: never_starves_def get_cie_def get_fde_def split: option.splits)

definition memory_ends :: "nat \<Rightarrow> memory \<Rightarrow> bool" where
  "memory_ends N mem \<longleftrightarrow> N < 2 ^ 64 \<and> (\<forall>a. N \<le> unat a \<longrightarrow> ReadFully mem a 1 = None)"

definition sec_mem :: "dwarf_section \<Rightarrow> memory" where
  "sec_mem s = memory_of (sec_memory s)"

lemma keeps_sec_mem: "keeps sec_frame p \<Longrightarrow> keeps sec_mem p"
  by (rule keepsI) (auto simp: sec_mem_def dest!: keepsD [of sec_frame] dest: sec_frameD)

lemma ReadAugmentation_fuel:
  assumes "memory_ends N mem" and "sec_mem s = mem" and "0 < fuel" and "N < fuel + unat (cur_offset (sec_memory s))"
  shows "ReadAugmentation fuel str s \<noteq> (Crash OutOfFuel, t)"
  using assms
proof (induction fuel arbitrary: str s)
  case (Suc fuel)
  let ?c = "cur_offset (sec_memory s)"
  let ?s = "s\<lparr>sec_memory := (sec_memory s)\<lparr>cur_offset := ?c + 1\<rparr>\<rparr>"
  have read: "sec_read (ReadBytes 1) s = (case ReadFully mem ?c 1 of
      None \<Rightarrow> (Fail, sec_set_error DWARF_ERROR_MEMORY_INVALID ?c s) | Some bs \<Rightarrow> (Ok bs, ?s))"
    using Suc.prems(2)
    by (simp add: sec_read_def on_fail_def on_sec_memory_def on_member_def ReadBytes_def sec_mem_def split: option.split)
  show ?case
  proof (cases "ReadFully mem ?c 1")
    case None
    with read show ?thesis
      by (simp add: bnd_def del: One_nat_def)
  next
    case (Some bs)
    then have "unat ?c < N"
      using Suc.prems(1) unfolding memory_ends_def by (metis not_less option.distinct(1))
    moreover from this have "unat (?c + 1) = unat ?c + 1"
      using Suc.prems(1) unat_add_of_nat [of ?c 1] by (simp add: memory_ends_def)
    ultimately have "ReadAugmentation fuel (str @ [hd bs]) ?s \<noteq> (Crash OutOfFuel, t)"
      using Suc.prems by (intro Suc.IH) (auto simp: sec_mem_def)
    then show ?thesis
      using read Some by (simp add: bnd_def del: One_nat_def)
  qed
qed simp

lemma fed_augmentation: "memory_ends N mem \<Longrightarrow> N < fuel \<Longrightarrow> fed sec_mem mem (ReadAugmentation fuel str)"
  unfolding fed_def using ReadAugmentation_fuel by (metis trans_less_add1 gr_zeroI not_less0)

lemma never_starves_fill [fuelled]: "never_starves (FillInCieHeader cie)" "never_starves (FillInAugmentation ty str cie)"
    "never_starves ReadEntryHead"
proof -
  show "never_starves (FillInCieHeader cie)"
    unfolding FillInCieHeader_def by (intro fuelled)
  show "never_starves (FillInAugmentation ty str cie)"
  proof (induction str arbitrary: cie)
    case (Cons c str)
    then show ?case
      unfolding FillInAugmentation.simps by (intro fuelled)
  qed (simp add: never_starves_def)
  show "never_starves ReadEntryHead"
    unfolding ReadEntryHead_def by (intro fuelled)
qed

lemmas fed_intros = fed_bnd fed_on_fail fed_cases keeps_sec_mem keep prog_frame

lemma fed_parse:
  assumes "memory_ends N mem" and "N < fuel"
  shows "fed sec_mem mem (FillInCie ty fuel cie)" and "fed sec_mem mem (GetCieFromOffset ty fuel off)"
    and "fed sec_mem mem (FillInFde ty fuel fde)" and "fed sec_mem mem (NextCie ty fuel k e)"
    and "fed sec_mem mem (NextFde ty fuel k off)"
proof -
  show cie: "fed sec_mem mem (FillInCie ty fuel cie)" for cie
    unfolding FillInCie_def Let_def
    by (intro fed_intros fed_augmentation [OF assms]) (auto intro: fed_never_starves fuelled)
  show get: "fed sec_mem mem (GetCieFromOffset ty fuel off)" for off
    unfolding GetCieFromOffset_def by (intro fed_intros cie) (auto intro: fed_never_starves fuelled)
  show fde: "fed sec_mem mem (FillInFde ty fuel fde)" for fde
    unfolding FillInFde_def by (intro fed_intros get) (auto simp: Let_def intro: fed_never_starves fuelled)
  show "fed sec_mem mem (NextCie ty fuel k e)"
    unfolding NextCie_def Let_def by (intro fed_intros cie) (auto intro: fed_never_starves fuelled)
  have "keeps sec_mem (modify (put_fde k x))" for k x
    by (rule keeps_modify) (simp add: sec_mem_def put_fde_def)
  then show "fed sec_mem mem (NextFde ty fuel k off)"
    unfolding NextFde_def Let_def by (intro fed_bnd fed_on_fail fde) (auto intro: fed_never_starves fuelled keep keeps_sec_mem)
qed

lemma index_next_fuel:
  assumes "memory_ends N (sec_mem s)" and "N < fuel"
  shows "index_next ty fuel s \<noteq> (Crash OutOfFuel, t)"
proof -
  have head: "keeps sec_mem ReadEntryHead"
  proof (rule keepsI)
    fix s r t assume "ReadEntryHead s = (r, t)"
    from sec_frameD(1) [OF ReadEntryHead_effect(1) [OF this, of 0]] show "sec_mem t = sec_mem s"
      by (simp add: sec_mem_def)
  qed
  have fde: "keeps sec_mem (NextFde ty fuel k off)" for k off
    by (rule keepsI) (auto simp: sec_mem_def dest: keepsD [OF NextFde_frame] frame_butD)
  have "fed sec_mem (sec_mem s) (GetNextCieOrFde ty fuel)"
    unfolding GetNextCieOrFde_def
    by (intro fed_bnd fed_cases fed_parse [OF assms] head fde keeps_sec_mem [OF NextCie_frame] keeps_basic)
      (auto intro: fed_never_starves fuelled keeps_sec_mem keep prog_frame)
  then have "GetNextCieOrFde ty fuel s \<noteq> (Crash OutOfFuel, u)" for u
    by (simp add: fed_def)
  then show ?thesis
    by (auto simp: index_next_def bnd_Crash_iff get_fde_def split: option.splits)
qed

lemma scan_fuel:
  assumes "scan_inv s" and "memory_ends N (sec_mem s)" and "N < fuel"
    and "unat (entries_end s) \<le> n + unat (next_entries_offset s)"
  shows "GetFdeFromPc_scan ty fuel n pc s \<noteq> (Crash OutOfFuel, t)"
  using assms
proof (induction n arbitrary: s)
  case 0
  then have "\<not> more_entries s"
    by (simp add: more_entries_def word_less_nat_alt)
  then show ?case
    by (simp add: GetFdeFromPc_scan.simps [of ty fuel 0])
next
  case (Suc n)
  obtain r u where "next": "index_next ty fuel s = (r, u)"
    by fastforce
  have "r \<noteq> Crash OutOfFuel"
    using index_next_fuel [OF Suc.prems(2,3)] "next" by auto
  moreover have "GetFdeFromPc_scan ty fuel n pc u \<noteq> (Crash OutOfFuel, t)" if "r = Ok x" "more_entries s" for x
  proof -
    note step = index_next_step [OF Suc.prems(1) that(2) "next"]
    have "unat (next_entries_offset s) < unat (next_entries_offset u)"
      using step(4) that(1) by (simp add: word_less_nat_alt)
    then show ?thesis
      using step(1-3) that(1) Suc.prems by (intro Suc.IH) (auto simp: sec_mem_def)
  qed
  ultimately show ?case
    using "next" by (auto simp: GetFdeFromPc_scan.simps [of ty fuel "Suc n"] split: outcome.splits option.splits)
qed

text \<open>
  C16. If the memory of the section ends somewhere and the lengths of the entries do not wrap around, the
  search for an FDE ends: as many iterations as the section has bytes are enough.
\<close>

theorem NoHdr_GetFdeFromPc_terminates:
  assumes "scan_inv s" and "memory_ends N (sec_mem s)" and "N < fuel" and "unat (entries_end s) \<le> fuel"
  shows "fst (NoHdr_GetFdeFromPc ty fuel pc s) \<noteq> Crash OutOfFuel"
proof -
  have "GetFdeFromPc_scan ty fuel fuel pc s \<noteq> (Crash OutOfFuel, t)" for t
    using assms by (intro scan_fuel) auto
  then show ?thesis
    by (cases "GetFdeFromPc_scan ty fuel fuel pc s") (auto simp: NoHdr_GetFdeFromPc_def split: option.split)
qed

section \<open>Examples\<close>

definition open_section :: "u8 list \<Rightarrow> dwarf_section" where
  "open_section bytes =
     snd (NoHdr_Init 0 (of_nat (length bytes)) 0 (DwarfSection DebugFrame (MemoryBuffer_Read bytes) 0))"

text \<open>A CIE and an FDE for \<open>0x1000\<close> to \<open>0x1100\<close> of a 32-bit \<^verbatim>\<open>.debug_frame\<close>.\<close>

definition example_frames :: "u8 list" where
  "example_frames =
     [9, 0, 0, 0, 0xff, 0xff, 0xff, 0xff, 1, 0, 1, 0x7c, 8,
      12, 0, 0, 0, 0, 0, 0, 0, 0x00, 0x10, 0, 0, 0x00, 0x01, 0, 0]"

lemma example_frames_inv: "scan_inv (open_section example_frames)"
  unfolding open_section_def
proof (rule NoHdr_Init_inv)
  have "list_all (\<lambda>k. case entry_next (MemoryBuffer_Read example_frames) (of_nat k) of
      None \<Rightarrow> True | Some n \<Rightarrow> of_nat k < n) [0..<29]"
    by code_simp
  then have all: "case entry_next (MemoryBuffer_Read example_frames) (of_nat k) of None \<Rightarrow> True | Some n \<Rightarrow> of_nat k < n"
    if "k < 29" for k
    using that unfolding list_all_iff by simp
  have small: "of_nat k < n" if "k < 29" "entry_next (MemoryBuffer_Read example_frames) (of_nat k) = Some n" for k n
    using all [OF that(1)] that(2) by simp
  fix off n
  assume "off < 0 + of_nat (length example_frames)"
    and "entry_next (memory_of (sec_memory (DwarfSection DebugFrame (MemoryBuffer_Read example_frames) 0))) off = Some n"
  then show "off < n"
    using small [of "unat off" n] by (simp add: example_frames_def DwarfSection_def DwarfMemory_def word_less_nat_alt)
qed (simp_all add: DwarfSection_def)

theorem NoHdr_GetFdeFromPc_sound_witness:
  "\<exists>fde. map_of (fde_entries (snd (NoHdr_GetFdeFromPc TYPE(32) 40 0x1050 (open_section example_frames)))) 13 = Some fde \<and>
     fde_pc_start fde \<le> 0x1050 \<and> 0x1050 < fde_pc_end fde"
proof -
  let ?res = "NoHdr_GetFdeFromPc TYPE(32) 40 0x1050 (open_section example_frames)"
  have "fst ?res = Ok 13"
    by code_simp
  then have "?res = (Ok 13, snd ?res)"
    by (metis prod.collapse)
  from NoHdr_GetFdeFromPc_sound [OF example_frames_inv this] show ?thesis
    by simp
qed

theorem NoHdr_GetFdeFromPc_terminates_witness:
  "fst (NoHdr_GetFdeFromPc TYPE(32) 40 0x5000 (open_section example_frames)) \<noteq> Crash OutOfFuel"
proof (rule NoHdr_GetFdeFromPc_terminates [OF example_frames_inv])
  show "memory_ends 29 (sec_mem (open_section example_frames))"
    by (auto simp: memory_ends_def sec_mem_def open_section_def NoHdr_Init_def DwarfSection_def DwarfMemory_def
        example_frames_def ReadFully_def MemoryBuffer_Read_def)
  show "unat (entries_end (open_section example_frames)) \<le> 40"
    by code_simp
qed simp

text \<open>The same CIE, with an augmentation string, and the same two FDEs, in two orders.\<close>

definition reparse_cie :: "u8 list" where
  "reparse_cie = [16, 0, 0, 0, 0xff, 0xff, 0xff, 0xff, 1, 0x7a, 0x52, 0, 1, 0x7c, 8, 1, 3, 0x0c, 7, 8]"

definition reparse_fde :: "u8 \<Rightarrow> u8 \<Rightarrow> u8 list" where
  "reparse_fde cie_off page = [13, 0, 0, 0, cie_off, 0, 0, 0, 0x00, page, 0, 0, 0x00, 0x01, 0, 0, 0]"


end
