(* ===== verification/Dwarf_Eh_Frame_With_Hdr.thy ===== *)
theory Dwarf_Eh_Frame_With_Hdr
  imports Dwarf_Section_NoHdr
begin

text \<open>
  \<^verbatim>\<open>DwarfEhFrameWithHdr.cpp\<close>: an \<^verbatim>\<open>.eh_frame\<close> section with the binary search table of \<^verbatim>\<open>.eh_frame_hdr\<close>. The
  results are that the search finds the entry of a sorted table that belongs to the pc, and that 64 rounds
  are enough for every table with less than \<open>2^63\<close> entries.
\<close>

section \<open>The section\<close>

definition IsEncodingRelative :: "u8 \<Rightarrow> bool" where
  "IsEncodingRelative encoding = (let e = drop_bit 4 encoding in e > 0 \<and> e \<le> DW_EH_PE_funcrel)"

text \<open>
  Where \<^verbatim>\<open>Init\<close> fails it leaves the remaining members as they were; its caller then discards the object.
\<close>

definition Hdr_Init :: "'a::len itself \<Rightarrow> u64 \<Rightarrow> u64 \<Rightarrow> u64 \<Rightarrow> unit sec_prog" where
  "Hdr_Init ty offset sz bias =
     bnd (modify (\<lambda>s. s\<lparr>load_bias := bias, sec_pc_offset := offset,
            sec_memory := (sec_memory s)\<lparr>func_offset := -1, text_offset := -1, data_offset := offset,
                                          cur_offset := offset\<rparr>\<rparr>)) (\<lambda>_.
     bnd (sec_read (ReadBytes 4)) (\<lambda>data.
     bnd (modify (\<lambda>s. s\<lparr>hdr_version := data ! 0\<rparr>)) (\<lambda>_.
     if data ! 0 \<noteq> 1 then fail_with (sec_set_code DWARF_ERROR_UNSUPPORTED_VERSION)
     else
       bnd (modify (\<lambda>s. s\<lparr>ptr_encoding := data ! 1, table_encoding := data ! 3,
                          table_entry_size := GetEncodedSize ty (data ! 3)\<rparr>)) (\<lambda>_.
       if GetEncodedSize ty (data ! 3) = 0 then fail_with (sec_set_code DWARF_ERROR_ILLEGAL_VALUE)
       else
         bnd (modify (\<lambda>s. set_mem_pc_offset (cur_offset (sec_memory s)) s)) (\<lambda>_.
         bnd (sec_read (ReadEncodedValue ty (data ! 1))) (\<lambda>ptr.
         bnd (modify (\<lambda>s. s\<lparr>ptr_offset := ptr\<rparr>)) (\<lambda>_.
         bnd (modify (\<lambda>s. set_mem_pc_offset (cur_offset (sec_memory s)) s)) (\<lambda>_.
         bnd (sec_read (ReadEncodedValue ty (data ! 2))) (\<lambda>count.
         bnd (modify (\<lambda>s. s\<lparr>fde_count := count\<rparr>)) (\<lambda>_.
         if count = 0 then fail_with (sec_set_code DWARF_ERROR_NO_FDES)
         else
           modify (\<lambda>s. let off = cur_offset (sec_memory s) in
             s\<lparr>entries_offset := off, entries_end := offset + sz, entries_data_offset := offset,
               cur_entries_offset := off\<rparr>)))))))))))"

text \<open>\<^verbatim>\<open>info->pc\<close> is of the address type. The map is filled in as the search proceeds.\<close>

definition ReadFdeInfo :: "'a::len itself \<Rightarrow> u64 \<Rightarrow> FdeInfo sec_prog" where
  "ReadFdeInfo ty index =
     bnd (modify (\<lambda>s. s\<lparr>sec_memory := (sec_memory s)\<lparr>data_offset := entries_data_offset s,
            cur_offset := entries_offset s + 2 * index * of_nat (table_entry_size s), pc_offset := 0\<rparr>\<rparr>)) (\<lambda>_.
     bnd (gets table_encoding) (\<lambda>encoding.
     bnd (sec_read (ReadEncodedValue ty encoding)) (\<lambda>value.
     bnd (sec_read (ReadEncodedValue ty encoding)) (\<lambda>offset.
     bnd (gets load_bias) (\<lambda>bias.
     ret \<lparr>info_pc = ucast (ucast (if IsEncodingRelative encoding then value + bias else value) :: 'a word),
          info_offset = offset\<rparr>)))))"

definition put_info :: "u64 \<Rightarrow> FdeInfo \<Rightarrow> dwarf_section \<Rightarrow> dwarf_section" where
  "put_info index info s = s\<lparr>fde_info := AList.update index info (fde_info s)\<rparr>"

definition erase_info :: "u64 \<Rightarrow> dwarf_section \<Rightarrow> dwarf_section" where
  "erase_info index s = s\<lparr>fde_info := AList.delete index (fde_info s)\<rparr>"

definition GetFdeInfoFromIndex :: "'a::len itself \<Rightarrow> u64 \<Rightarrow> FdeInfo sec_prog" where
  "GetFdeInfoFromIndex ty index =
     bnd (gets (\<lambda>s. map_of (fde_info s) index)) (\<lambda>entry.
     case entry of
       Some info \<Rightarrow> ret info
     | None \<Rightarrow>
         bnd (modify (put_info index \<lparr>info_pc = 0, info_offset = 0\<rparr>)) (\<lambda>_.
         bnd (on_fail (ReadFdeInfo ty index) (erase_info index)) (\<lambda>info.
         bnd (modify (put_info index info)) (\<lambda>_.
         ret info))))"

text \<open>
  The loop of the binary search: \<open>Inl\<close> the offset of an entry with exactly this pc, or \<open>Inr\<close> the final value
  of \<^verbatim>\<open>last\<close>. The sum of \<^verbatim>\<open>first\<close> and \<^verbatim>\<open>last\<close> may wrap around, so that the loop need not end.
\<close>

fun search_loop :: "'a::len itself \<Rightarrow> nat \<Rightarrow> u64 \<Rightarrow> u64 \<Rightarrow> u64 \<Rightarrow> (u64 + u64) sec_prog" where
  "search_loop ty fuel pc first last_index =
     (if first < last_index then
        case fuel of
          0 \<Rightarrow> crash OutOfFuel
        | Suc fuel' \<Rightarrow>
            let current = (first + last_index) div 2 in
            bnd (GetFdeInfoFromIndex ty current) (\<lambda>info.
            if pc = info_pc info then ret (Inl (info_offset info))
            else if pc < info_pc info then search_loop ty fuel' pc first current
            else search_loop ty fuel' pc (current + 1) last_index)
      else ret (Inr last_index))"

declare search_loop.simps [simp del]

definition GetFdeOffsetFromPc :: "'a::len itself \<Rightarrow> nat \<Rightarrow> u64 \<Rightarrow> u64 sec_prog" where
  "GetFdeOffsetFromPc ty fuel pc =
     bnd (gets fde_count) (\<lambda>count.
     if count = 0 then fail_with id
     else
       bnd (search_loop ty fuel pc 0 count) (\<lambda>found.
       case found of
         Inl offset \<Rightarrow> ret offset
       | Inr last_index \<Rightarrow>
           if last_index \<noteq> 0 then
             bnd (GetFdeInfoFromIndex ty (last_index - 1)) (\<lambda>info. ret (info_offset info))
           else fail_with id))"

definition Hdr_GetFdeFromPc :: "'a::len itself \<Rightarrow> nat \<Rightarrow> u64 \<Rightarrow> u64 sec_prog" where
  "Hdr_GetFdeFromPc ty fuel pc =
     bnd (GetFdeOffsetFromPc ty fuel pc) (\<lambda>fde_offset.
     bnd (GetFdeFromOffset ty fuel fde_offset) (\<lambda>key.
     bnd (get_fde key) (\<lambda>fde.
     if pc < fde_pc_end fde then ret key
     else fail_with (sec_set_code DWARF_ERROR_ILLEGAL_STATE))))"

text \<open>The loop of \<^verbatim>\<open>GetFdes\<close> from index \<open>i\<close> on; \<open>n\<close> bounds the number of rounds.\<close>

fun Hdr_GetFdes_loop :: "'a::len itself \<Rightarrow> nat \<Rightarrow> nat \<Rightarrow> u64 \<Rightarrow> u64 list \<Rightarrow> u64 list sec_prog" where
  "Hdr_GetFdes_loop ty fuel n i acc = (\<lambda>s.
     if i < fde_count s then
       case n of
         0 \<Rightarrow> (Crash OutOfFuel, s)
       | Suc n' \<Rightarrow>
           case bnd (GetFdeInfoFromIndex ty i) (\<lambda>info. GetFdeFromOffset ty fuel (info_offset info)) s of
             (Crash c, t) \<Rightarrow> (Crash c, t)
           | (Fail, t) \<Rightarrow> (Ok acc, t)
           | (Ok key, t) \<Rightarrow> Hdr_GetFdes_loop ty fuel n' (i + 1) (acc @ [key]) t
     else (Ok acc, s))"

declare Hdr_GetFdes_loop.simps [simp del]

definition Hdr_GetFdes :: "'a::len itself \<Rightarrow> nat \<Rightarrow> u64 list sec_prog" where
  "Hdr_GetFdes ty fuel = Hdr_GetFdes_loop ty fuel fuel 0 []"

section \<open>The table\<close>

text \<open>Where \<^verbatim>\<open>GetFdeInfoFromIndex\<close> puts the cursor, and what it reads there.\<close>

definition entry_cursor :: "dwarf_section \<Rightarrow> u64 \<Rightarrow> dwarf_memory" where
  "entry_cursor s index = (sec_memory s)\<lparr>data_offset := entries_data_offset s,
     cur_offset := entries_offset s + 2 * index * of_nat (table_entry_size s), pc_offset := 0\<rparr>"

definition table_entry :: "'a::len itself \<Rightarrow> dwarf_section \<Rightarrow> u64 \<Rightarrow> FdeInfo option" where
  "table_entry ty s index =
     (case ReadEncodedValue ty (table_encoding s) (entry_cursor s index) of
        (Ok value, m) \<Rightarrow>
          (case ReadEncodedValue ty (table_encoding s) m of
             (Ok offset, _) \<Rightarrow>
               Some \<lparr>info_pc = ucast (ucast (if IsEncodingRelative (table_encoding s) then value + load_bias s else value) :: 'a word),
                     info_offset = offset\<rparr>
           | _ \<Rightarrow> None)
      | _ \<Rightarrow> None)"

text \<open>Everything but the cursor, the error and the entries that were read before.\<close>

definition hdr_frame :: "dwarf_section \<Rightarrow> dwarf_section" where
  "hdr_frame s = s\<lparr>sec_memory := (sec_memory s)\<lparr>cur_offset := 0, pc_offset := 0, data_offset := 0\<rparr>,
     sec_error := \<lparr>code = DWARF_ERROR_NONE, address = 0\<rparr>, fde_info := []\<rparr>"

lemma hdr_frame_updates [simp]:
  "m\<lparr>cur_offset := 0, pc_offset := 0, data_offset := 0\<rparr> = (sec_memory s)\<lparr>cur_offset := 0, pc_offset := 0, data_offset := 0\<rparr> \<Longrightarrow>
     hdr_frame (s\<lparr>sec_memory := m\<rparr>) = hdr_frame s"
  "hdr_frame (sec_set_error k a s) = hdr_frame s" "hdr_frame (put_info i x s) = hdr_frame s"
  "hdr_frame (erase_info i s) = hdr_frame s"
  by (simp_all add: hdr_frame_def sec_set_error_def put_info_def erase_info_def)

lemma hdr_frame_read [keep]: "moves_cursor p \<Longrightarrow> keeps hdr_frame (sec_read p)"
  unfolding sec_read_def on_sec_memory_def
  by (intro keep keeps_on_member) (auto dest!: moves_cursorD)

lemma keeps_ReadFdeInfo: "keeps hdr_frame (ReadFdeInfo ty i)" "keeps fde_info (ReadFdeInfo ty i)"
proof -
  show "keeps hdr_frame (ReadFdeInfo ty i)"
    unfolding ReadFdeInfo_def by (intro keep prog_frame) simp_all
  have "keeps fde_info (sec_read p)" for p :: "(dwarf_memory, 'r) prog"
    unfolding sec_read_def on_sec_memory_def by (intro keep keeps_on_member) (simp_all add: sec_set_error_def)
  then show "keeps fde_info (ReadFdeInfo ty i)"
    unfolding ReadFdeInfo_def by (intro keep prog_frame) simp_all
qed

lemma table_entry_frame: "hdr_frame s = hdr_frame t \<Longrightarrow> table_entry ty s = table_entry ty t"
proof -
  assume eq: "hdr_frame s = hdr_frame t"
  have "entries_data_offset s = entries_data_offset t" "entries_offset s = entries_offset t"
      "table_entry_size s = table_entry_size t" "table_encoding s = table_encoding t" "load_bias s = load_bias t"
    using arg_cong [OF eq, of entries_data_offset] arg_cong [OF eq, of entries_offset]
      arg_cong [OF eq, of table_entry_size] arg_cong [OF eq, of table_encoding] arg_cong [OF eq, of load_bias]
    by (simp_all add: hdr_frame_def)
  moreover have "(sec_memory s)\<lparr>cur_offset := c, pc_offset := 0, data_offset := d\<rparr> =
      (sec_memory t)\<lparr>cur_offset := c, pc_offset := 0, data_offset := d\<rparr>" for c d
    using arg_cong [OF eq, of "\<lambda>s. (sec_memory s)\<lparr>cur_offset := c, pc_offset := 0, data_offset := d\<rparr>"]
    by (simp add: hdr_frame_def)
  ultimately have same: "entry_cursor s i = entry_cursor t i" "table_encoding s = table_encoding t" "load_bias s = load_bias t" for i
    by (cases "sec_memory s"; cases "sec_memory t"; simp add: entry_cursor_def)+
  show ?thesis
    unfolding fun_eq_iff table_entry_def same by simp
qed

lemma ReadFdeInfo_entry: "table_entry ty s i = Some info \<longleftrightarrow> fst (ReadFdeInfo ty i s) = Ok info"
  by (auto simp: table_entry_def ReadFdeInfo_def entry_cursor_def bnd_def sec_read_def on_sec_memory_def on_member_def
      on_fail_def split: prod.splits outcome.splits)

text \<open>The entries that were read before are those of the table.\<close>

definition info_inv :: "'a::len itself \<Rightarrow> dwarf_section \<Rightarrow> bool" where
  "info_inv ty s \<longleftrightarrow> (\<forall>i info. map_of (fde_info s) i = Some info \<longrightarrow> table_entry ty s i = Some info)"

lemma GetFdeInfoFromIndex_entry:
  assumes "info_inv ty s" and "table_entry ty s i = Some info"
  shows "\<exists>t. GetFdeInfoFromIndex ty i s = (Ok info, t) \<and> info_inv ty t \<and> hdr_frame t = hdr_frame s"
proof (cases "map_of (fde_info s) i")
  case (Some x)
  with assms show ?thesis
    by (auto simp: GetFdeInfoFromIndex_def info_inv_def)
next
  case None
  let ?s = "put_info i \<lparr>info_pc = 0, info_offset = 0\<rparr> s"
  have "table_entry ty ?s = table_entry ty s"
    by (rule table_entry_frame) simp
  then obtain t where read: "ReadFdeInfo ty i ?s = (Ok info, t)"
    using assms(2) ReadFdeInfo_entry [of ty ?s i info] by (metis prod.collapse)
  have frame: "hdr_frame t = hdr_frame s" "fde_info t = fde_info ?s"
    using keepsD [OF keeps_ReadFdeInfo(1) read] keepsD [OF keeps_ReadFdeInfo(2) read] by simp_all
  have "table_entry ty (put_info i info t) = table_entry ty s"
    by (rule table_entry_frame) (simp add: frame)
  then have "info_inv ty (put_info i info t)"
    using assms frame(2) by (auto simp: info_inv_def put_info_def update_conv')
  then show ?thesis
    using None read frame(1) by (simp add: GetFdeInfoFromIndex_def bnd_def on_fail_def)
qed

section \<open>The search\<close>

lemma midpoint:
  assumes "first < last_index" and "unat last_index < 2 ^ 63"
  shows "unat ((first + last_index :: u64) div 2) = (unat first + unat last_index) div 2"
    and "first \<le> (first + last_index) div 2" and "(first + last_index) div 2 < last_index"
    and "unat ((first + last_index) div 2 + 1) = (unat first + unat last_index) div 2 + 1"
proof -
  have lt: "unat first < unat last_index"
    using assms(1) by (simp add: word_less_nat_alt)
  have "unat (first + last_index) = unat first + unat last_index"
    using lt assms(2) by (intro unat_add_no_wrap) simp
  then show mid: "unat ((first + last_index) div 2) = (unat first + unat last_index) div 2"
    by (simp add: unat_div)
  then show "first \<le> (first + last_index) div 2" "(first + last_index) div 2 < last_index"
    using lt by (simp_all add: word_le_nat_alt word_less_nat_alt)
  show "unat ((first + last_index) div 2 + 1) = (unat first + unat last_index) div 2 + 1"
    using mid lt assms(2) unat_add_of_nat [of "(first + last_index) div 2" 1] by simp
qed

text \<open>A table whose \<open>n\<close> entries can all be read and have ascending pcs.\<close>

definition sorted_table :: "'a::len itself \<Rightarrow> dwarf_section \<Rightarrow> u64 \<Rightarrow> bool" where
  "sorted_table ty s n \<longleftrightarrow> (\<forall>i < n. table_entry ty s i \<noteq> None) \<and>
     (\<forall>i j. i < j \<longrightarrow> j < n \<longrightarrow> info_pc (the (table_entry ty s i)) < info_pc (the (table_entry ty s j)))"

abbreviation entry_pc :: "'a::len itself \<Rightarrow> dwarf_section \<Rightarrow> u64 \<Rightarrow> u64" where
  "entry_pc ty s i \<equiv> info_pc (the (table_entry ty s i))"

definition search_result :: "'a::len itself \<Rightarrow> dwarf_section \<Rightarrow> u64 \<Rightarrow> u64 \<Rightarrow> u64 + u64 \<Rightarrow> bool" where
  "search_result ty s n pc r \<longleftrightarrow>
     (case r of
        Inl off \<Rightarrow> \<exists>i < n. entry_pc ty s i = pc \<and> off = info_offset (the (table_entry ty s i))
      | Inr l \<Rightarrow> l \<le> n \<and> (\<forall>i < l. entry_pc ty s i < pc) \<and> (\<forall>i. l \<le> i \<longrightarrow> i < n \<longrightarrow> pc < entry_pc ty s i))"

lemma search_result_frame: "hdr_frame s = hdr_frame t \<Longrightarrow> search_result ty s = search_result ty t"
  unfolding search_result_def fun_eq_iff by (drule table_entry_frame [of s t ty]) (simp split: sum.split)

lemma search_loop_correct:
  assumes "info_inv ty s" and "sorted_table ty s n" and "unat n < 2 ^ 63"
    and "first \<le> last_index" and "last_index \<le> n" and "unat last_index - unat first < 2 ^ fuel"
    and "\<And>i. i < first \<Longrightarrow> entry_pc ty s i < pc"
    and "\<And>i. last_index \<le> i \<Longrightarrow> i < n \<Longrightarrow> pc < entry_pc ty s i"
  shows "\<exists>t r. search_loop ty fuel pc first last_index s = (Ok r, t) \<and> info_inv ty t \<and> hdr_frame t = hdr_frame s \<and>
    search_result ty s n pc r"
  using assms
proof (induction fuel arbitrary: first last_index s)
  case 0
  then have "first = last_index"
    by (simp add: word_le_nat_alt word_unat_eq_iff)
  with 0 show ?case
    by (simp add: search_loop.simps search_result_def)
next
  case (Suc fuel)
  show ?case
  proof (cases "first < last_index")
    case False
    with Suc.prems(4) have "first = last_index"
      by simp
    with Suc.prems show ?thesis
      by (simp add: search_loop.simps [of ty "Suc fuel"] search_result_def)
  next
    case True
    let ?m = "(first + last_index) div 2"
    have "unat last_index < 2 ^ 63"
      using Suc.prems(3,5) by (simp add: word_le_nat_alt)
    note mid = midpoint [OF True this]
    have m: "?m < n" "?m + 1 \<le> last_index"
      using mid Suc.prems(5) by (simp_all add: word_le_nat_alt word_less_nat_alt)
    then obtain info where entry: "table_entry ty s ?m = Some info"
      using Suc.prems(2) by (auto simp: sorted_table_def)
    obtain t where get: "GetFdeInfoFromIndex ty ?m s = (Ok info, t)" "info_inv ty t" "hdr_frame t = hdr_frame s"
      using GetFdeInfoFromIndex_entry [OF Suc.prems(1) entry] by blast
    have table: "table_entry ty t = table_entry ty s" "search_result ty t = search_result ty s"
      using table_entry_frame search_result_frame get(3) by blast+
    have sorted: "entry_pc ty s i < entry_pc ty s j" if "i < j" "j < n" for i j
      using Suc.prems(2) that by (simp add: sorted_table_def)
    have t: "sorted_table ty t n"
      using Suc.prems(2) by (simp add: sorted_table_def table)
    have half: "unat ?m - unat first < 2 ^ fuel" "unat last_index - unat (?m + 1) < 2 ^ fuel"
      using Suc.prems(6) mid True by (simp_all add: word_less_nat_alt)
    have run: "search_loop ty (Suc fuel) pc first last_index s =
        (if pc = info_pc info then (Ok (Inl (info_offset info)), t)
         else if pc < info_pc info then search_loop ty fuel pc first ?m t
         else search_loop ty fuel pc (?m + 1) last_index t)"
      using True get(1) by (simp add: search_loop.simps [of ty "Suc fuel"] bnd_def Let_def)
    consider (eq) "pc = info_pc info" | (less) "pc < info_pc info" | (greater) "info_pc info < pc"
      by fastforce
    then show ?thesis
    proof cases
      case eq
      then show ?thesis
        using run get(2,3) entry m(1) by (auto simp: search_result_def intro!: exI [of _ ?m])
    next
      case less
      have "\<exists>u r. search_loop ty fuel pc first ?m t = (Ok r, u) \<and> info_inv ty u \<and> hdr_frame u = hdr_frame t \<and>
          search_result ty t n pc r"
      proof (rule Suc.IH [OF get(2) t Suc.prems(3) mid(2) _ half(1)])
        show "pc < entry_pc ty t i" if "?m \<le> i" "i < n" for i
          using less entry sorted [of ?m i] that by (cases "i = ?m") (auto simp: table le_less)
      qed (use m(1) Suc.prems(7) in \<open>auto simp: table\<close>)
      then show ?thesis
        using run less get(3) by (auto simp: table)
    next
      case greater
      have "\<exists>u r. search_loop ty fuel pc (?m + 1) last_index t = (Ok r, u) \<and> info_inv ty u \<and> hdr_frame u = hdr_frame t \<and>
          search_result ty t n pc r"
      proof (rule Suc.IH [OF get(2) t Suc.prems(3) m(2) Suc.prems(5) half(2)])
        show "entry_pc ty t i < pc" if "i < ?m + 1" for i
        proof -
          have "i \<le> ?m"
            using that mid(1,4) by (simp add: word_less_nat_alt word_le_nat_alt)
          then show ?thesis
            using greater entry sorted [of i ?m] m(1) by (cases "i = ?m") (auto simp: table le_less)
        qed
      qed (use Suc.prems(8) in \<open>auto simp: table\<close>)
      then show ?thesis
        using run greater get(3) by (auto simp: table)
    qed
  qed
qed

text \<open>
  C11. On a table with ascending pcs \<^verbatim>\<open>GetFdeOffsetFromPc\<close> returns the offset of the last entry whose pc is
  not above the given one, and fails exactly if the pc is below all entries. At most 64 entries are looked
  at, for every number of entries below \<open>2^63\<close>.
\<close>

theorem GetFdeOffsetFromPc_search:
  assumes "info_inv ty s" and "sorted_table ty s (fde_count s)" and "0 < fde_count s" and "unat (fde_count s) < 2 ^ 63"
    and "64 \<le> fuel"
  shows "(pc < entry_pc ty s 0 \<longrightarrow> fst (GetFdeOffsetFromPc ty fuel pc s) = Fail) \<and>
    (entry_pc ty s 0 \<le> pc \<longrightarrow> (\<exists>k < fde_count s. entry_pc ty s k \<le> pc \<and>
       (\<forall>j. k < j \<longrightarrow> j < fde_count s \<longrightarrow> pc < entry_pc ty s j) \<and>
       fst (GetFdeOffsetFromPc ty fuel pc s) = Ok (info_offset (the (table_entry ty s k)))))"
proof -
  let ?n = "fde_count s"
  have "unat ?n - unat (0 :: u64) < 2 ^ fuel" "\<And>i. ?n \<le> i \<Longrightarrow> i < ?n \<Longrightarrow> pc < entry_pc ty s i"
  proof -
    have "(2 :: nat) ^ 63 \<le> 2 ^ fuel"
      using assms(5) by (intro power_increasing) simp_all
    with assms(4) show "unat ?n - unat (0 :: u64) < 2 ^ fuel"
      by simp
  qed simp
  then obtain t r where loop: "search_loop ty fuel pc 0 ?n s = (Ok r, t)" "info_inv ty t" "hdr_frame t = hdr_frame s"
      "search_result ty s ?n pc r"
    using search_loop_correct [OF assms(1,2,4), of 0 ?n fuel pc] by auto
  have sorted: "entry_pc ty s i < entry_pc ty s j" if "i < j" "j < ?n" for i j
    using assms(2) that by (simp add: sorted_table_def)
  have run: "GetFdeOffsetFromPc ty fuel pc s = (case r of
      Inl offset \<Rightarrow> (Ok offset, t)
    | Inr l \<Rightarrow> if l \<noteq> 0 then bnd (GetFdeInfoFromIndex ty (l - 1)) (\<lambda>info. ret (info_offset info)) t else (Fail, t))"
    using loop(1) assms(3) [unfolded word_gt_0] by (auto simp: GetFdeOffsetFromPc_def bnd_def split: sum.split)
  show ?thesis
  proof (cases r)
    case (Inl off)
    then obtain i where i: "i < ?n" "entry_pc ty s i = pc" "off = info_offset (the (table_entry ty s i))"
      using loop(4) by (auto simp: search_result_def)
    then have "\<not> pc < entry_pc ty s 0"
      using sorted [of 0 i] by (cases "i = 0") (auto simp: word_gt_0)
    then show ?thesis
      using Inl run i sorted by auto
  next
    case (Inr l)
    then have l: "l \<le> ?n" "\<forall>i < l. entry_pc ty s i < pc" "\<forall>i. l \<le> i \<longrightarrow> i < ?n \<longrightarrow> pc < entry_pc ty s i"
      using loop(4) by (auto simp: search_result_def)
    show ?thesis
    proof (cases "l = 0")
      case True
      then show ?thesis
        using Inr run l assms(3) by auto
    next
      case False
      then have pred: "l - 1 < l" "\<And>j. l - 1 < j \<Longrightarrow> l \<le> j"
        using unat_gt_0 [of l] by (auto simp: word_less_nat_alt word_le_nat_alt unat_minus_one)
      then have "l - 1 < ?n"
        using l(1) by simp
      then obtain info where entry: "table_entry ty s (l - 1) = Some info"
        using assms(2) by (auto simp: sorted_table_def)
      have "table_entry ty t = table_entry ty s"
        using table_entry_frame loop(3) by blast
      then have "fst (GetFdeOffsetFromPc ty fuel pc s) = Ok (info_offset info)"
        using GetFdeInfoFromIndex_entry [OF loop(2), of "l - 1" info] entry run Inr False by (auto simp: bnd_def)
      moreover have "0 < l"
        using False by (simp add: word_gt_0)
      ultimately show ?thesis
        using entry l pred \<open>l - 1 < ?n\<close> by (auto intro!: exI [of _ "l - 1"] simp: less_imp_le not_less)
    qed
  qed
qed

section \<open>An example\<close>

text \<open>A header with three entries of two bytes each for the pc and for the offset.\<close>

definition example_hdr :: dwarf_section where
  "example_hdr = snd (Hdr_Init TYPE(32) 0 20 0 (DwarfSection EhFrameWithHdr
     (MemoryBuffer_Read [1, 2, 2, 2, 0, 0, 3, 0, 0x10, 0, 0x50, 0, 0x20, 0, 0x60, 0, 0x40, 0, 0x70, 0]) 0))"

lemma example_hdr_table:
  "fde_count example_hdr = 3" "fde_info example_hdr = []"
  "table_entry TYPE(32) example_hdr 0 = Some \<lparr>info_pc = 0x10, info_offset = 0x50\<rparr>"
  "table_entry TYPE(32) example_hdr 1 = Some \<lparr>info_pc = 0x20, info_offset = 0x60\<rparr>"
  "table_entry TYPE(32) example_hdr 2 = Some \<lparr>info_pc = 0x40, info_offset = 0x70\<rparr>"
  by code_simp+

lemma below_3: "(i :: u64) < 3 \<longleftrightarrow> i = 0 \<or> i = 1 \<or> i = 2" "(i :: u64) < 2 \<longleftrightarrow> i = 0 \<or> i = 1"
proof -
  show "i < 2 \<longleftrightarrow> i = 0 \<or> i = 1"
    by (auto simp: word_less_nat_alt word_unat_eq_iff)
  show "i < 3 \<longleftrightarrow> i = 0 \<or> i = 1 \<or> i = 2"
    by (auto simp: word_less_nat_alt word_unat_eq_iff)
qed

theorem GetFdeOffsetFromPc_search_witness:
  "sorted_table TYPE(32) example_hdr 3 \<and> fst (GetFdeOffsetFromPc TYPE(32) 64 0x30 example_hdr) = Ok 0x60 \<and>
   fst (GetFdeOffsetFromPc TYPE(32) 64 0x0f example_hdr) = Fail"
proof -
  have inv: "info_inv TYPE(32) example_hdr"
    by (simp add: info_inv_def example_hdr_table)
  have sorted: "sorted_table TYPE(32) example_hdr (fde_count example_hdr)"
    by (auto simp: sorted_table_def example_hdr_table below_3)
  note search = GetFdeOffsetFromPc_search [OF inv sorted, unfolded example_hdr_table below_3]
  show ?thesis
    using search [where pc = "0x30" and fuel = 64] search [where pc = "0x0f" and fuel = 64] sorted
    by (auto simp: example_hdr_table dest: spec [of _ 1])
qed

end
