(* ===== verification/Dwarf_Section_Eval.thy ===== *)
theory Dwarf_Section_Eval
  imports Dwarf_Section_NoHdr
begin

text \<open>
  \<^verbatim>\<open>DwarfSectionImpl::Eval\<close>: the rules of a row are evaluated one after the other in the order of a hash map,
  and each result overwrites a register that later rules may use. The result is that the new registers are
  those that the rules give on the registers before the step, whatever the order.
\<close>

section \<open>Expressions see the old registers\<close>

text \<open>
  A program of \<^verbatim>\<open>DwarfOp\<close> does the same on every \<^verbatim>\<open>RegsInfo\<close> that stands for the old register values \<open>orig\<close>.
\<close>

definition info_free :: "'a::len word list \<Rightarrow> ('a, 'r) op_prog \<Rightarrow> bool" where
  "info_free orig p \<longleftrightarrow> (\<forall>s i. regs_info_inv orig (regs_info s) \<longrightarrow> regs_info_inv orig i \<longrightarrow>
     p (s\<lparr>regs_info := i\<rparr>) = apsnd (\<lambda>t. t\<lparr>regs_info := i\<rparr>) (p s) \<and> regs_info (snd (p s)) = regs_info s)"

lemma info_freeD:
  assumes "info_free orig p" and "regs_info_inv orig (regs_info s)" and "regs_info_inv orig i" and "p s = (r, t)"
  shows "p (s\<lparr>regs_info := i\<rparr>) = (r, t\<lparr>regs_info := i\<rparr>)" and "regs_info t = regs_info s"
  using assms by (auto simp: info_free_def)

lemma info_freeI:
  assumes "\<And>s i r t. regs_info_inv orig (regs_info s) \<Longrightarrow> regs_info_inv orig i \<Longrightarrow> p s = (r, t) \<Longrightarrow>
    p (s\<lparr>regs_info := i\<rparr>) = (r, t\<lparr>regs_info := i\<rparr>) \<and> regs_info t = regs_info s"
  shows "info_free orig p"
  unfolding info_free_def
proof (intro allI impI)
  fix s :: "'a word dwarf_op" and i assume "regs_info_inv orig (regs_info s)" "regs_info_inv orig i"
  from assms [OF this, of "fst (p s)" "snd (p s)"]
  show "p (s\<lparr>regs_info := i\<rparr>) = apsnd (\<lambda>t. t\<lparr>regs_info := i\<rparr>) (p s) \<and> regs_info (snd (p s)) = regs_info s"
    by (simp add: apsnd_def map_prod_def case_prod_beta)
qed

lemma info_free_basic [prog_frame]:
  "info_free orig (ret x)" "info_free orig (crash c)"
  "(\<And>s i. f (s\<lparr>regs_info := i\<rparr>) = f s) \<Longrightarrow> info_free orig (gets f)"
  "(\<And>s i. g (s\<lparr>regs_info := i\<rparr>) = (g s)\<lparr>regs_info := i\<rparr>) \<Longrightarrow> (\<And>s. regs_info (g s) = regs_info s) \<Longrightarrow>
     info_free orig (modify g)"
  "(\<And>s i. g (s\<lparr>regs_info := i\<rparr>) = (g s)\<lparr>regs_info := i\<rparr>) \<Longrightarrow> (\<And>s. regs_info (g s) = regs_info s) \<Longrightarrow>
     info_free orig (fail_with g)"
  "info_free orig (on_memory m)"
  by (simp_all add: info_free_def on_memory_def on_member_def split: prod.split)

lemma info_free_bnd [prog_frame]:
  assumes "info_free orig p" and "\<And>x. info_free orig (f x)"
  shows "info_free orig (bnd p f)"
proof (rule info_freeI)
  fix s i r t assume inv: "regs_info_inv orig (regs_info s)" "regs_info_inv orig i" and run: "bnd p f s = (r, t)"
  obtain r' u where p: "p s = (r', u)"
    by fastforce
  note step = info_freeD [OF assms(1) inv p]
  show "bnd p f (s\<lparr>regs_info := i\<rparr>) = (r, t\<lparr>regs_info := i\<rparr>) \<and> regs_info t = regs_info s"
  proof (cases r')
    case (Ok x)
    then have "f x u = (r, t)"
      using run p by (simp add: bnd_def)
    with info_freeD [OF assms(2) _ inv(2) this] step inv Ok show ?thesis
      by (simp add: bnd_def)
  qed (use run p step in \<open>auto simp: bnd_def\<close>)
qed

lemma info_free_on_fail [prog_frame]:
  assumes "info_free orig p" and "\<And>s i. g (s\<lparr>regs_info := i\<rparr>) = (g s)\<lparr>regs_info := i\<rparr>"
    and "\<And>s. regs_info (g s) = regs_info s"
  shows "info_free orig (on_fail p g)"
proof (rule info_freeI)
  fix s i r t assume inv: "regs_info_inv orig (regs_info s)" "regs_info_inv orig i" and run: "on_fail p g s = (r, t)"
  obtain r' u where p: "p s = (r', u)"
    by fastforce
  note step = info_freeD [OF assms(1) inv p]
  show "on_fail p g (s\<lparr>regs_info := i\<rparr>) = (r, t\<lparr>regs_info := i\<rparr>) \<and> regs_info t = regs_info s"
    using run p step by (cases r') (auto simp: on_fail_def assms(2,3))
qed

lemma info_free_if [prog_frame]:
  "(b \<Longrightarrow> info_free orig p) \<Longrightarrow> (\<not> b \<Longrightarrow> info_free orig q) \<Longrightarrow> info_free orig (if b then p else q)"
  by simp

lemma info_free_option [prog_frame]:
  "info_free orig p \<Longrightarrow> (\<And>x. info_free orig (f x)) \<Longrightarrow> info_free orig (case v of None \<Rightarrow> p | Some x \<Rightarrow> f x)"
  by (cases v) simp_all

lemma info_free_stack [prog_frame]:
  "info_free orig (StackAt i)" "info_free orig (StackPut i v)" "info_free orig StackPop" "info_free orig (OperandAt i)"
  "info_free orig (push_front v)"
  by (simp_all add: info_free_def StackAt_def StackPut_def StackPop_def OperandAt_def push_front_def split: list.split)

lemma info_free_error [simp]:
  "set_code c (s\<lparr>regs_info := i\<rparr>) = (set_code c s)\<lparr>regs_info := i\<rparr>" "regs_info (set_code c s) = regs_info s"
  "set_error c a (s\<lparr>regs_info := i\<rparr>) = (set_error c a s)\<lparr>regs_info := i\<rparr>" "regs_info (set_error c a s) = regs_info s"
  "memory_error (s\<lparr>regs_info := i\<rparr>) = (memory_error s)\<lparr>regs_info := i\<rparr>" "regs_info (memory_error s) = regs_info s"
  by (simp_all add: set_code_def set_error_def memory_error_def)

text \<open>The operations that read registers check the number first.\<close>

lemma total_of_inv:
  assumes "regs_info_inv orig i"
  shows "RegsInfo_Total i = of_nat (length orig)" and "unat (RegsInfo_Total i) = length orig"
  using assms by (simp_all add: regs_info_inv_def RegsInfo_Total_def MAX_REGISTERS_def unat_of_nat)

lemma info_free_total [prog_frame]: "info_free orig (gets (\<lambda>s. RegsInfo_Total (regs_info s)))"
  by (simp add: info_free_def total_of_inv)

lemma info_free_get_reg: "unat reg < length orig \<Longrightarrow> info_free orig (get_reg reg)"
  by (simp add: info_free_def get_reg_def RegsInfo_Get_orig)

lemma info_free_breg [prog_frame]:
  fixes orig :: "'a::len word list"
  shows "info_free orig (op_breg :: ('a, unit) op_prog)" "info_free orig (op_bregx :: ('a, unit) op_prog)"
proof -
  have guard: "info_free orig (bnd (gets (\<lambda>s. RegsInfo_Total (regs_info s))) q)"
    if "length orig \<le> MAX_REGISTERS \<Longrightarrow> info_free orig (q (of_nat (length orig)))" for q :: "u16 \<Rightarrow> ('a, unit) op_prog"
  proof (rule info_freeI)
    fix s i r t assume inv: "regs_info_inv orig (regs_info s)" "regs_info_inv orig i"
      and run: "bnd (gets (\<lambda>s. RegsInfo_Total (regs_info s))) q s = (r, t)"
    have "length orig \<le> MAX_REGISTERS"
      using inv(1) by (simp add: regs_info_inv_def)
    from info_freeD [OF that [OF this] inv, of r t] run
    show "bnd (gets (\<lambda>s. RegsInfo_Total (regs_info s))) q (s\<lparr>regs_info := i\<rparr>) = (r, t\<lparr>regs_info := i\<rparr>) \<and>
        regs_info t = regs_info s"
      by (simp add: total_of_inv(1) [OF inv(1)] total_of_inv(1) [OF inv(2)])
  qed
  have small: "unat (ucast reg :: u32) < length orig" if "length orig \<le> MAX_REGISTERS" "unat reg < length orig"
    for reg :: "'b::len word"
    using that unat_ucast_le [of reg, where 'b = 32] by simp
  have len: "unat (of_nat (length orig) :: u16) = length orig" if "length orig \<le> MAX_REGISTERS"
    using that by (simp add: unat_of_nat MAX_REGISTERS_def)
  show "info_free orig (op_breg :: ('a, unit) op_prog)"
    unfolding op_breg_def Let_def
    by (intro info_free_bnd info_free_basic guard)
      (auto simp: word_le_nat_alt len not_le intro!: prog_frame info_free_get_reg small)
  show "info_free orig (op_bregx :: ('a, unit) op_prog)"
    unfolding op_bregx_def Let_def
    by (intro info_free_bnd info_free_stack guard)
      (auto simp: len not_le intro!: prog_frame info_free_get_reg small)
qed

lemma info_free_handler [prog_frame]:
  fixes orig :: "'a::len word list"
  shows "info_free orig (kOpHandleFuncList f :: ('a, unit) op_prog)"
proof (cases "f = OP_BREG \<or> f = OP_BREGX")
  case True
  then show ?thesis
    by (auto intro: prog_frame)
next
  case False
  then show ?thesis
    by (cases f) (simp_all add: op_defs Let_def, (intro prog_frame; simp)+)
qed

lemma info_free_ReadOperands [prog_frame]: "info_free orig (ReadOperands es)"
proof (induction es)
  case (Cons e es)
  show ?case
    unfolding ReadOperands.simps by (intro prog_frame Cons; simp)
qed (simp add: info_free_def)

lemma info_free_Decode [prog_frame]: "info_free orig Decode"
  unfolding Decode_def Let_def by (intro prog_frame; simp)

lemma info_free_Eval_loop [prog_frame]: "info_free orig (Eval_loop stop n)"
proof (induction stop n rule: Eval_loop.induct)
  case (1 stop n)
  then show ?case
    by (subst Eval_loop.simps) (intro prog_frame; simp)
qed

lemma info_free_Eval: "info_free orig (Eval start stop)"
  unfolding Eval_def by (intro prog_frame; simp)

section \<open>Expressions only move the cursor of the section\<close>

definition op_base :: "'w dwarf_op \<Rightarrow> dwarf_memory" where
  "op_base s = (op_memory s)\<lparr>cur_offset := 0\<rparr>"

lemma op_base_memory [keep]: "moves_cursor m \<Longrightarrow> keeps op_base (on_memory m)"
  unfolding on_memory_def
  by (rule keeps_on_member) (auto simp: op_base_def dest: moves_cursorD)

lemma op_base_stack [keep]:
  "keeps op_base (StackAt i)" "keeps op_base (StackPut i v)" "keeps op_base StackPop" "keeps op_base (OperandAt i)"
  "keeps op_base (push_front v)" "keeps op_base (get_reg r)"
  by (simp_all add: keeps_def op_base_def stack_defs split: list.split)

lemma op_base_updates [simp]:
  "op_base (set_code c s) = op_base s" "op_base (set_error c a s) = op_base s" "op_base (memory_error s) = op_base s"
  "op_base (s\<lparr>cur_op := x\<rparr>) = op_base s" "op_base (s\<lparr>operands := y\<rparr>) = op_base s" "op_base (s\<lparr>stack := z\<rparr>) = op_base s"
  "op_base (s\<lparr>is_register := b\<rparr>) = op_base s" "op_base (s\<lparr>dex_pc_set := b\<rparr>) = op_base s"
  by (simp_all add: op_base_def set_code_def set_error_def memory_error_def)

lemma op_base_handler [keep]: "keeps op_base (kOpHandleFuncList f)"
  by (cases f) (simp_all add: op_defs Let_def, (intro keep prog_frame; simp)+)

lemma op_base_ReadOperands [keep]: "keeps op_base (ReadOperands es)"
proof (induction es)
  case (Cons e es)
  show ?case
    unfolding ReadOperands.simps by (intro keep prog_frame Cons; simp)
qed (simp add: keeps_def)

lemma op_base_Decode [keep]: "keeps op_base Decode"
  unfolding Decode_def Let_def by (intro keep prog_frame; simp)

lemma op_base_Eval_loop [keep]: "keeps op_base (Eval_loop stop n)"
proof (induction stop n rule: Eval_loop.induct)
  case (1 stop n)
  then show ?case
    by (subst Eval_loop.simps) (intro keep prog_frame; simp)
qed

lemma op_base_Eval: "keeps op_base (Eval start stop)"
  unfolding Eval_def by (intro keep prog_frame; simp)

text \<open>Two states of a section that differ in the cursor and the error.\<close>

definition sec_view :: "dwarf_section \<Rightarrow> dwarf_section" where
  "sec_view s = s\<lparr>sec_memory := (sec_memory s)\<lparr>cur_offset := 0\<rparr>, sec_error := \<lparr>code = DWARF_ERROR_NONE, address = 0\<rparr>\<rparr>"

lemma sec_view_memory:
  assumes "sec_view s = sec_view s'"
  shows "(sec_memory s)\<lparr>cur_offset := c\<rparr> = (sec_memory s')\<lparr>cur_offset := c\<rparr>"
  using arg_cong [OF assms, of "\<lambda>s. (sec_memory s)\<lparr>cur_offset := c\<rparr>"] by (simp add: sec_view_def)

lemma Eval_cursor: "Eval start stop (s\<lparr>op_memory := (op_memory s)\<lparr>cur_offset := c\<rparr>\<rparr>) = Eval start stop s"
  by (simp add: Eval_eq Eval_start_def Let_def)

lemma EvalExpression_same:
  assumes "regs_info_inv orig i" and "regs_info_inv orig j" and "sec_view s = sec_view s'"
  shows "fst (EvalExpression u loc regular i s) = fst (EvalExpression u loc regular j s')"
    and "sec_view (snd (EvalExpression u loc regular i s)) = sec_view s"
proof -
  let ?E = "Eval (value1 loc - value0 loc) (value1 loc)"
  obtain r op where run: "?E (DwarfOp (sec_memory s) regular i u) = (r, op)"
    by fastforce
  have "?E (DwarfOp (sec_memory s') regular i u) = (r, op)"
    using run Eval_cursor [where s = "DwarfOp (sec_memory s') regular i u" and c = 0]
      Eval_cursor [where s = "DwarfOp (sec_memory s) regular i u" and c = 0] sec_view_memory [OF assms(3), of 0]
    by (simp add: DwarfOp_def)
  from info_freeD [OF info_free_Eval _ assms(2) this] assms(1)
  have "?E (DwarfOp (sec_memory s') regular j u) = (r, op\<lparr>regs_info := j\<rparr>)"
    by (simp add: DwarfOp_def)
  with run show "fst (EvalExpression u loc regular i s) = fst (EvalExpression u loc regular j s')"
    by (simp add: EvalExpression_def Let_def split: outcome.split)
  have "(op_memory op)\<lparr>cur_offset := 0\<rparr> = (sec_memory s)\<lparr>cur_offset := 0\<rparr>"
    using keepsD [OF op_base_Eval run] by (simp add: op_base_def DwarfOp_def)
  with run show "sec_view (snd (EvalExpression u loc regular i s)) = sec_view s"
    by (simp add: EvalExpression_def Let_def sec_view_def sec_set_code_def split: outcome.split)
qed

section \<open>One rule\<close>

text \<open>The value that a rule gives for a register, on the registers \<open>orig\<close> before the step.\<close>

definition rule_value ::
  "u8 \<times> 'a::len word list \<Rightarrow> dwarf_section \<Rightarrow> memory \<Rightarrow> 'a word list \<Rightarrow> 'a word \<Rightarrow> u32 \<Rightarrow> DwarfLocation \<Rightarrow> 'a word option" where
  "rule_value uninit s regular orig cfa reg loc =
     (case loc_type loc of
        DWARF_LOCATION_OFFSET \<Rightarrow> read_word regular (ucast cfa + value0 loc)
      | DWARF_LOCATION_VAL_OFFSET \<Rightarrow> Some (ucast (ucast cfa + value0 loc))
      | DWARF_LOCATION_REGISTER \<Rightarrow>
          (if unat (ucast (value0 loc) :: u32) < length orig
           then Some (ucast (ucast (orig ! unat (ucast (value0 loc) :: u32)) + value1 loc)) else None)
      | DWARF_LOCATION_EXPRESSION \<Rightarrow>
          (case fst (EvalExpression (fst uninit) loc regular (RegsInfo orig (snd uninit)) s) of
             Ok (v, _) \<Rightarrow> read_word regular (ucast v) | _ \<Rightarrow> None)
      | DWARF_LOCATION_VAL_EXPRESSION \<Rightarrow>
          (case fst (EvalExpression (fst uninit) loc regular (RegsInfo orig (snd uninit)) s) of
             Ok (v, _) \<Rightarrow> Some v | _ \<Rightarrow> None)
      | DWARF_LOCATION_UNDEFINED \<Rightarrow> Some (orig ! unat reg)
      | DWARF_LOCATION_INVALID \<Rightarrow> Some (orig ! unat reg))"

text \<open>A state of the loop: the section has only moved its cursor, and the register set stands for \<open>orig\<close>.\<close>

definition eval_inv :: "dwarf_section \<Rightarrow> 'a::len word list \<Rightarrow> 'a word eval_state \<Rightarrow> bool" where
  "eval_inv s orig e \<longleftrightarrow> sec_view (ev_section e) = sec_view s \<and> regs_info_inv orig (ev_info e)"

lemma read_reg_Some:
  "read_word mem addr = Some v \<Longrightarrow> read_reg mem addr reg e = (Ok (), e\<lparr>ev_info := RegsInfo_Assign reg v (ev_info e)\<rparr>)"
  by (auto simp: read_reg_def read_word_def ReadFully_def assign_reg_def Let_def overlay_full split: if_splits)

lemma read_reg_None:
  fixes e :: "'a::len word eval_state"
  shows "read_word mem addr = (None :: 'a word option) \<Longrightarrow> fst (read_reg mem addr reg e) = Fail"
  by (auto simp: read_reg_def read_word_def ReadFully_def assign_reg_def Let_def split: if_splits)

text \<open>The flag of \<^verbatim>\<open>EvalInfo\<close> that a rule sets.\<close>

definition marks_return :: "DwarfCie \<Rightarrow> u32 \<Rightarrow> DwarfLocation \<Rightarrow> bool" where
  "marks_return cie reg loc \<longleftrightarrow> loc_type loc = DWARF_LOCATION_UNDEFINED \<and> ucast reg = return_address_register cie"

lemma EvalRegister_spec:
  fixes e :: "'a::len word eval_state"
  assumes inv: "eval_inv s orig e" and uninit: "length (snd uninit) = MAX_REGISTERS"
    and reg: "unat reg < length orig" "regs (ev_info e) ! unat reg = orig ! unat reg"
  shows "case rule_value uninit s regular orig cfa reg loc of
      Some v \<Rightarrow> \<exists>e'. EvalRegister (fst uninit) cie regular cfa loc reg e = (Ok (), e') \<and>
        sec_view (ev_section e') = sec_view s \<and> ev_info e' = RegsInfo_Assign reg v (ev_info e) \<and>
        (return_address_undefined e' \<longleftrightarrow> return_address_undefined e \<or> marks_return cie reg loc)
    | None \<Rightarrow> fst (EvalRegister (fst uninit) cie regular cfa loc reg e) \<noteq> Ok ()"
proof -
  let ?i = "ev_info e" and ?expr = "EvalExpression (fst uninit) loc regular (ev_info e) (ev_section e)"
  have i: "regs_info_inv orig ?i" and view: "sec_view (ev_section e) = sec_view s"
    using inv by (simp_all add: eval_inv_def)
  have "length orig \<le> MAX_REGISTERS"
    using i by (simp add: regs_info_inv_def)
  then have j: "regs_info_inv orig (RegsInfo orig (snd uninit))"
    using uninit by (rule RegsInfo_inv)
  note same = EvalExpression_same [OF i j view, of "fst uninit" loc regular]
  obtain r t where expr: "?expr = (r, t)"
    by fastforce
  have expr': "fst (EvalExpression (fst uninit) loc regular (RegsInfo orig (snd uninit)) s) = r" "sec_view t = sec_view s"
    using same expr view by simp_all
  have id: "RegsInfo_Assign reg (orig ! unat reg) ?i = ?i"
    using reg(2) by (simp add: RegsInfo_Assign_def list_update_same_conv list_update_id flip: reg(2))
  have total: "unat (ucast (RegsInfo_Total ?i) :: u32) = length orig"
    using total_of_inv(2) [OF i] \<open>length orig \<le> MAX_REGISTERS\<close>
    by (simp add: unsigned_ucast_eq take_bit_nat_eq_self MAX_REGISTERS_def)
  show ?thesis
  proof (cases "loc_type loc")
    case DWARF_LOCATION_REGISTER
    then show ?thesis
      using total view RegsInfo_Get_orig [OF i]
      by (auto simp: rule_value_def EvalRegister_def Let_def assign_reg_def bnd_def word_le_nat_alt not_le marks_return_def)
  next
    case DWARF_LOCATION_OFFSET
    then show ?thesis
      using view
      by (auto simp: rule_value_def EvalRegister_def read_reg_Some read_reg_None marks_return_def split: option.split)
  next
    case DWARF_LOCATION_EXPRESSION
    then show ?thesis
      using expr expr'
      by (cases r) (auto simp: rule_value_def EvalRegister_def on_section_def on_member_def bnd_def Let_def
          read_reg_Some read_reg_None marks_return_def split: option.split)
  next
    case DWARF_LOCATION_VAL_EXPRESSION
    then show ?thesis
      using expr expr'
      by (cases r) (auto simp: rule_value_def EvalRegister_def on_section_def on_member_def bnd_def Let_def
          assign_reg_def marks_return_def)
  qed (use view id in \<open>auto simp: rule_value_def EvalRegister_def assign_reg_def marks_return_def Let_def\<close>)
qed

section \<open>All rules\<close>

lemma RegsInfo_Save_spec:
  assumes "regs_info_inv orig info" and "unat reg < length orig" and "\<not> bit (saved_reg_map info) (unat reg)"
  shows "\<exists>info'. RegsInfo_Save reg info = (Ok (), info') \<and> regs info' = regs info \<and>
    saved_reg_map info' = set_bit (unat reg) (saved_reg_map info) \<and> regs info ! unat reg = orig ! unat reg \<and>
    regs_info_inv orig info' \<and> (\<forall>v. regs_info_inv orig (RegsInfo_Assign reg v info'))"
  using assms
  by (auto simp: regs_info_inv_def RegsInfo_Save_def RegsInfo_Assign_def MAX_REGISTERS_def bit_set_bit_iff nth_list_update)

definition rules_defined ::
  "u8 \<times> 'a::len word list \<Rightarrow> dwarf_section \<Rightarrow> memory \<Rightarrow> 'a word list \<Rightarrow> 'a word \<Rightarrow> (u32 \<times> DwarfLocation) list \<Rightarrow> bool" where
  "rules_defined uninit s regular orig cfa ls \<longleftrightarrow>
     list_all (\<lambda>(reg, loc). unat reg < length orig \<longrightarrow> rule_value uninit s regular orig cfa reg loc \<noteq> None) ls"

definition ruled ::
  "u8 \<times> 'a::len word list \<Rightarrow> dwarf_section \<Rightarrow> memory \<Rightarrow> 'a word list \<Rightarrow> 'a word \<Rightarrow> (u32 \<times> DwarfLocation) list \<Rightarrow>
     'a word list \<Rightarrow> 'a word list" where
  "ruled uninit s regular orig cfa ls vals =
     map (\<lambda>i. case map_of ls (of_nat i) of
            Some loc \<Rightarrow> the (rule_value uninit s regular orig cfa (of_nat i) loc)
          | None \<Rightarrow> vals ! i) [0..<length orig]"

definition return_undefined :: "DwarfCie \<Rightarrow> nat \<Rightarrow> (u32 \<times> DwarfLocation) list \<Rightarrow> bool" where
  "return_undefined cie n ls \<longleftrightarrow> list_ex (\<lambda>(reg, loc). unat reg < n \<and> marks_return cie reg loc) ls"

lemma of_nat_u32_eq_iff: "n \<le> MAX_REGISTERS \<Longrightarrow> i < n \<Longrightarrow> (of_nat i = (reg :: u32)) \<longleftrightarrow> i = unat reg"
proof -
  assume "n \<le> MAX_REGISTERS" "i < n"
  then have "unat (of_nat i :: u32) = i"
    by (simp add: unat_of_nat MAX_REGISTERS_def)
  then show ?thesis
    by (metis unat_of_nat word_unat_eq_iff)
qed

lemma ruled_Cons:
  assumes "length orig \<le> MAX_REGISTERS" and "length vals = length orig" and "reg \<notin> fst ` set ls"
  shows "unat reg < length orig \<Longrightarrow> rule_value uninit s regular orig cfa reg loc = Some v \<Longrightarrow>
      ruled uninit s regular orig cfa ((reg, loc) # ls) vals = ruled uninit s regular orig cfa ls (vals[unat reg := v])"
    and "\<not> unat reg < length orig \<Longrightarrow>
      ruled uninit s regular orig cfa ((reg, loc) # ls) vals = ruled uninit s regular orig cfa ls vals"
proof -
  have none: "map_of ls reg = None"
    using assms(3) by (simp add: map_of_eq_None_iff)
  show "unat reg < length orig \<Longrightarrow> rule_value uninit s regular orig cfa reg loc = Some v \<Longrightarrow>
      ruled uninit s regular orig cfa ((reg, loc) # ls) vals = ruled uninit s regular orig cfa ls (vals[unat reg := v])"
    using none assms(2) of_nat_u32_eq_iff [OF assms(1), of _ reg]
    by (auto simp: ruled_def nth_list_update split: option.split)
  show "\<not> unat reg < length orig \<Longrightarrow>
      ruled uninit s regular orig cfa ((reg, loc) # ls) vals = ruled uninit s regular orig cfa ls vals"
    using of_nat_u32_eq_iff [OF assms(1), of _ reg] by (auto simp: ruled_def split: option.split)
qed

lemma rules_Cons [simp]:
  "rules_defined uninit s regular orig cfa ((reg, loc) # ls) \<longleftrightarrow>
     (unat reg < length orig \<longrightarrow> rule_value uninit s regular orig cfa reg loc \<noteq> None) \<and>
     rules_defined uninit s regular orig cfa ls"
  "return_undefined cie n ((reg, loc) # ls) \<longleftrightarrow> unat reg < n \<and> marks_return cie reg loc \<or> return_undefined cie n ls"
  by (simp_all add: rules_defined_def return_undefined_def)

text \<open>What the loop does from a state \<open>e\<close> on: it succeeds if all rules are defined, and only then.\<close>

definition evaluated ::
  "u8 \<times> 'a::len word list \<Rightarrow> dwarf_section \<Rightarrow> memory \<Rightarrow> 'a word list \<Rightarrow> DwarfCie \<Rightarrow> 'a word \<Rightarrow>
     (u32 \<times> DwarfLocation) list \<Rightarrow> 'a word eval_state \<Rightarrow> bool" where
  "evaluated uninit s regular orig cie cfa ls e \<longleftrightarrow>
     (if rules_defined uninit s regular orig cfa ls
      then \<exists>e'. EvalRegisters (fst uninit) cie regular cfa (length orig) ls e = (Ok (), e') \<and> eval_inv s orig e' \<and>
        regs (ev_info e') = ruled uninit s regular orig cfa ls (regs (ev_info e)) \<and>
        (return_address_undefined e' \<longleftrightarrow> return_address_undefined e \<or> return_undefined cie (length orig) ls)
      else fst (EvalRegisters (fst uninit) cie regular cfa (length orig) ls e) \<noteq> Ok ())"

lemma CFA_REG_large: "n \<le> MAX_REGISTERS \<Longrightarrow> unat reg < n \<Longrightarrow> reg \<noteq> CFA_REG"
  by (auto simp: CFA_REG_def MAX_REGISTERS_def)

lemma EvalRegisters_spec:
  assumes "eval_inv s orig e" and "length (snd uninit) = MAX_REGISTERS" and "distinct (map fst ls)"
    and "\<And>reg. reg \<in> fst ` set ls \<Longrightarrow> unat reg < length orig \<Longrightarrow> \<not> bit (saved_reg_map (ev_info e)) (unat reg)"
  shows "evaluated uninit s regular orig cie cfa ls e"
  using assms
proof (induction ls arbitrary: e)
  case Nil
  have "length (regs (ev_info e)) = length orig"
    using Nil by (simp add: eval_inv_def regs_info_inv_def)
  then have "ruled uninit s regular orig cfa [] (regs (ev_info e)) = regs (ev_info e)"
    using map_nth [of "regs (ev_info e)"] by (simp add: ruled_def)
  with Nil show ?case
    by (simp add: evaluated_def rules_defined_def return_undefined_def)
next
  case (Cons x ls)
  obtain reg loc where x: "x = (reg, loc)"
    by (cases x)
  have info: "regs_info_inv orig (ev_info e)" and new: "reg \<notin> fst ` set ls"
    using Cons.prems by (simp_all add: eval_inv_def x)
  have len: "length orig \<le> MAX_REGISTERS" "length (regs (ev_info e)) = length orig"
    using info by (simp_all add: regs_info_inv_def)
  note ruled = ruled_Cons [OF len new, of uninit s regular cfa loc]
  show ?case
  proof (cases "unat reg < length orig")
    case False
    have "evaluated uninit s regular orig cie cfa ls e"
      using Cons.prems by (intro Cons.IH) (auto simp: x)
    then show ?thesis
      using False ruled(2) by (auto simp: x evaluated_def split: if_splits)
  next
    case True
    obtain info' where save: "RegsInfo_Save reg (ev_info e) = (Ok (), info')" "regs info' = regs (ev_info e)"
        "saved_reg_map info' = set_bit (unat reg) (saved_reg_map (ev_info e))"
        "regs info' ! unat reg = orig ! unat reg" "regs_info_inv orig info'"
        "\<And>v. regs_info_inv orig (RegsInfo_Assign reg v info')"
      using RegsInfo_Save_spec [OF info True] Cons.prems(4) [OF _ True] by (auto simp: x)
    let ?e = "e\<lparr>ev_info := info'\<rparr>"
    have inv: "eval_inv s orig ?e"
      using Cons.prems(1) save(5) by (simp add: eval_inv_def)
    have run: "EvalRegisters (fst uninit) cie regular cfa (length orig) (x # ls) e =
        bnd (EvalRegister (fst uninit) cie regular cfa loc reg)
          (\<lambda>_. EvalRegisters (fst uninit) cie regular cfa (length orig) ls) ?e"
      using True save(1) CFA_REG_large [OF len(1) True] by (simp add: x bnd_def on_member_def not_le)
    note rule = EvalRegister_spec [OF inv Cons.prems(2) True, where regular = regular and cfa = cfa and loc = loc and cie = cie]
    show ?thesis
    proof (cases "rule_value uninit s regular orig cfa reg loc")
      case None
      then have "fst (EvalRegister (fst uninit) cie regular cfa loc reg ?e) \<noteq> Ok ()"
        using rule save(4) by simp
      then show ?thesis
        using None True run
        by (cases "EvalRegister (fst uninit) cie regular cfa loc reg ?e")
          (auto simp: evaluated_def x bnd_def split: outcome.splits)
    next
      case (Some v)
      then obtain e' where e': "EvalRegister (fst uninit) cie regular cfa loc reg ?e = (Ok (), e')"
          "sec_view (ev_section e') = sec_view s" "ev_info e' = RegsInfo_Assign reg v info'"
          "return_address_undefined e' \<longleftrightarrow> return_address_undefined e \<or> marks_return cie reg loc"
        using rule save(4) by auto
      have "evaluated uninit s regular orig cie cfa ls e'"
      proof (rule Cons.IH)
        show "\<not> bit (saved_reg_map (ev_info e')) (unat r)" if r: "r \<in> fst ` set ls" "unat r < length orig" for r
        proof -
          have "unat reg \<noteq> unat r"
            using r(1) new by (metis word_unat_eq_iff)
          then show ?thesis
            using Cons.prems(4) [of r] r by (simp add: x e'(3) RegsInfo_Assign_def save(3) bit_set_bit_iff)
        qed
      qed (use Cons.prems e' save(6) in \<open>auto simp: eval_inv_def\<close>)
      then show ?thesis
        using Some True run e' ruled(1) [OF True Some] save(2)
        by (auto simp: evaluated_def x bnd_def RegsInfo_Assign_def split: if_splits)
    qed
  qed
qed

section \<open>The step\<close>

lemma EvalCfa_view:
  assumes "regs_info_inv orig info"
  shows "sec_view (snd (EvalCfa u regular loc n info s)) = sec_view s"
proof -
  obtain r t where "EvalExpression u loc regular info s = (r, t)" "sec_view t = sec_view s"
    using EvalExpression_same(2) [OF assms assms refl, of u loc regular s] by (metis prod.collapse)
  then show ?thesis
    by (auto simp: EvalCfa_def bnd_def sec_view_def sec_set_code_def split: DwarfLocationEnum.split outcome.splits)
qed

lemma ucast_up_down: "LENGTH('a) \<le> 64 \<Longrightarrow> ucast (ucast (v :: 'a::len word) :: u64) = v"
  by (rule bit_word_eqI) (simp add: bit_unsigned_iff)

definition next_regs ::
  "u8 \<times> 'a::len word list \<Rightarrow> dwarf_section \<Rightarrow> DwarfCie \<Rightarrow> memory \<Rightarrow> (u32 \<times> DwarfLocation) list \<Rightarrow> 'a word \<Rightarrow>
     'a word cpu_regs \<Rightarrow> 'a word list" where
  "next_regs uninit s cie regular ls cfa r =
     (let new = ruled uninit s regular (reg_vals r) cfa ls (reg_vals r);
          return_address = (if return_undefined cie (length (reg_vals r)) ls then 0
                            else new ! unat (return_address_register cie)) in
      new[class_pc (reg_class r) := return_address, class_sp (reg_class r) := cfa])"

text \<open>
  C1. \<^verbatim>\<open>Eval\<close> computes the registers of the caller as the rules define them on the registers of the
  callee: the result does not depend on the order in which the hash map yields the rules, although each
  rule overwrites a register that others may use. The pc becomes the return address and the stack pointer
  the canonical frame address. The step succeeds exactly if every rule for an existing register has a value.
\<close>

theorem DwarfSection_Eval_rules:
  fixes r :: "'a::len word cpu_regs"
  assumes "LENGTH('a) \<le> 64" and "length (reg_vals r) = total_regs r" and "total_regs r \<le> MAX_REGISTERS"
    and "length (snd uninit) = MAX_REGISTERS" and "distinct (map fst (locs lregs))"
    and "unat (return_address_register cie) < total_regs r"
    and "map_of (locs lregs) CFA_REG = Some loc"
    and "fst (EvalCfa (fst uninit) regular loc (total_regs r) (RegsInfo (reg_vals r) (snd uninit)) s) = Ok cfa"
  shows "if rules_defined uninit s regular (reg_vals r) cfa (locs lregs)
    then \<exists>s' r'. DwarfSection_Eval uninit cie regular lregs (s, r) = (Ok (reg_pc r' = 0), (s', set_sp (ucast cfa) r')) \<and>
      reg_vals (set_sp (ucast cfa) r') = next_regs uninit s cie regular (locs lregs) cfa r \<and> reg_class r' = reg_class r
    else \<forall>b. fst (DwarfSection_Eval uninit cie regular lregs (s, r)) \<noteq> Ok b"
proof -
  let ?orig = "reg_vals r" and ?info = "RegsInfo (reg_vals r) (snd uninit)"
  have info: "regs_info_inv ?orig ?info"
    using assms(2-4) by (intro RegsInfo_inv) simp_all
  obtain s' where cfa: "EvalCfa (fst uninit) regular loc (total_regs r) ?info s = (Ok cfa, s')"
    using assms(8) by (metis prod.collapse)
  let ?e = "\<lparr>ev_section = s', ev_info = ?info, ev_dex_pc = 0, return_address_undefined = False\<rparr>"
  have "eval_inv s ?orig ?e"
    using EvalCfa_view [OF info, of "fst uninit" regular loc "total_regs r" s] cfa info by (simp add: eval_inv_def)
  then have loop: "evaluated uninit s regular ?orig cie cfa (locs lregs) ?e"
    using assms(4,5) by (intro EvalRegisters_spec) (simp_all add: RegsInfo_def)
  have pc: "set_pc (ucast v) q = q\<lparr>reg_vals := (reg_vals q)[class_pc (reg_class q) := v]\<rparr>"
      "set_sp (ucast v) q = q\<lparr>reg_vals := (reg_vals q)[class_sp (reg_class q) := v]\<rparr>" for v and q :: "'a word cpu_regs"
    by (simp_all add: set_pc_def set_sp_def ucast_up_down [OF assms(1)])
  have run: "DwarfSection_Eval uninit cie regular lregs (s, r) =
      (case EvalRegisters (fst uninit) cie regular cfa (length ?orig) (locs lregs) ?e of
         (res, e) \<Rightarrow>
           let r1 = set_dex_pc (ev_dex_pc e) ((set_dex_pc 0 r)\<lparr>reg_vals := regs (ev_info e)\<rparr>) in
           case res of
             Fail \<Rightarrow> (Fail, (ev_section e, r1))
           | Crash c \<Rightarrow> (Crash c, (ev_section e, r1))
           | Ok _ \<Rightarrow>
               let r2 = set_pc (if return_address_undefined e then 0
                                else ucast (reg_vals r1 ! unat (return_address_register cie))) r1 in
               (Ok (reg_pc r2 = 0), (ev_section e, set_sp (ucast cfa) r2)))"
    using assms(2,6,7) cfa by (simp add: DwarfSection_Eval_def Let_def set_dex_pc_def not_le)
  show ?thesis
  proof (cases "rules_defined uninit s regular ?orig cfa (locs lregs)")
    case True
    then obtain e where e: "EvalRegisters (fst uninit) cie regular cfa (length ?orig) (locs lregs) ?e = (Ok (), e)"
        "regs (ev_info e) = ruled uninit s regular ?orig cfa (locs lregs) ?orig"
        "return_address_undefined e \<longleftrightarrow> return_undefined cie (length ?orig) (locs lregs)"
      using loop by (auto simp: evaluated_def RegsInfo_def)
    show ?thesis
      using True pc(1) [of 0] by (auto simp: run e Let_def pc set_dex_pc_def next_regs_def)
  next
    case False
    then have "fst (EvalRegisters (fst uninit) cie regular cfa (length ?orig) (locs lregs) ?e) \<noteq> Ok ()"
      using loop by (simp add: evaluated_def)
    then show ?thesis
      using False unfolding run
      by (cases "EvalRegisters (fst uninit) cie regular cfa (length ?orig) (locs lregs) ?e")
        (auto simp: Let_def split: outcome.split)
  qed
qed

text \<open>A row that exchanges two registers and restores the pc from the stack.\<close>

definition example_row :: DwarfLocations where
  "example_row = DwarfLocations_default\<lparr>locs :=
     [(0, \<lparr>loc_type = DWARF_LOCATION_REGISTER, value0 = 1, value1 = 0\<rparr>),
      (CFA_REG, \<lparr>loc_type = DWARF_LOCATION_REGISTER, value0 = 4, value1 = 8\<rparr>),
      (1, \<lparr>loc_type = DWARF_LOCATION_REGISTER, value0 = 0, value1 = 0\<rparr>),
      (8, \<lparr>loc_type = DWARF_LOCATION_OFFSET, value0 = -4, value1 = 0\<rparr>)]\<rparr>"

definition example_regs :: "u32 cpu_regs" where
  "example_regs = (new_regs RegsX86_class)\<lparr>reg_vals := map of_nat [0..<16]\<rparr>"

definition example_uninit :: "u8 \<times> u32 list" where
  "example_uninit = (0, replicate 64 0)"

theorem DwarfSection_Eval_rules_witness:
  "\<exists>s' r'. DwarfSection_Eval example_uninit (DwarfCie_default\<lparr>return_address_register := 8\<rparr>)
      (MemoryBuffer_Read (map of_nat [0..<16])) example_row (open_section [], example_regs) =
        (Ok (reg_pc r' = 0), (s', set_sp 12 r')) \<and>
    reg_vals (set_sp 12 r') = [1, 0, 2, 3, 12, 5, 6, 7, 0x0b0a0908, 9, 10, 11, 12, 13, 14, 15]"
proof -
  let ?mem = "MemoryBuffer_Read (map of_nat [0..<16])" and ?cie = "DwarfCie_default\<lparr>return_address_register := 8\<rparr>"
  let ?reg = "\<lambda>v. \<lparr>loc_type = DWARF_LOCATION_REGISTER, value0 = v, value1 = 0\<rparr>"
  let ?rule = "rule_value example_uninit (open_section []) ?mem (reg_vals example_regs) 12"
  have rules: "?rule 0 (?reg 1) = Some 1" "?rule 1 (?reg 0) = Some 0"
      "?rule 8 \<lparr>loc_type = DWARF_LOCATION_OFFSET, value0 = -4, value1 = 0\<rparr> = Some 0x0b0a0908"
    by code_simp+
  have "ruled example_uninit (open_section []) ?mem (reg_vals example_regs) 12 (locs example_row) (reg_vals example_regs) =
      [1, 0, 2, 3, 4, 5, 6, 7, 0x0b0a0908, 9, 10, 11, 12, 13, 14, 15]"
    by code_simp
  moreover have "class_pc (reg_class example_regs) = 8" "class_sp (reg_class example_regs) = 4"
    by code_simp+
  moreover have "\<not> return_undefined ?cie n (locs example_row)" for n
    by (simp add: return_undefined_def marks_return_def example_row_def CFA_REG_def)
  ultimately have "next_regs example_uninit (open_section []) ?cie ?mem (locs example_row) 12 example_regs =
      [1, 0, 2, 3, 12, 5, 6, 7, 0x0b0a0908, 9, 10, 11, 12, 13, 14, 15]"
    by (simp add: next_regs_def Let_def)
  moreover have "rules_defined example_uninit (open_section []) ?mem (reg_vals example_regs) 12 (locs example_row)"
    using rules by (simp add: example_row_def CFA_REG_def example_regs_def rules_defined_def)
  moreover have "length (reg_vals example_regs) = total_regs example_regs" "total_regs example_regs \<le> MAX_REGISTERS"
      "length (snd example_uninit) = MAX_REGISTERS" "distinct (map fst (locs example_row))"
      "unat (return_address_register ?cie) < total_regs example_regs"
      "map_of (locs example_row) CFA_REG = Some \<lparr>loc_type = DWARF_LOCATION_REGISTER, value0 = 4, value1 = 8\<rparr>"
      "fst (EvalCfa (fst example_uninit) ?mem \<lparr>loc_type = DWARF_LOCATION_REGISTER, value0 = 4, value1 = 8\<rparr>
        (total_regs example_regs) (RegsInfo (reg_vals example_regs) (snd example_uninit)) (open_section [])) = Ok 12"
    by code_simp+
  ultimately show ?thesis
    using DwarfSection_Eval_rules [of example_regs example_uninit example_row] by fastforce
qed

end
