(* ===== verification/Dwarf_Step.thy ===== *)
theory Dwarf_Step
  imports Dwarf_Eh_Frame_With_Hdr Dwarf_Section_Eval
begin

text \<open>
  \<^verbatim>\<open>DwarfSection::Step\<close>, the virtual calls it makes, and the cache of rows by their end. The result is that
  the row \<^verbatim>\<open>Step\<close> evaluates is one for the pc.
\<close>

section \<open>Virtual calls\<close>

definition DwarfSection_Init :: "'a::len itself \<Rightarrow> u64 \<Rightarrow> u64 \<Rightarrow> u64 \<Rightarrow> unit sec_prog" where
  "DwarfSection_Init ty offset sz bias =
     bnd (gets sec_class) (\<lambda>cls.
     if cls = EhFrameWithHdr then Hdr_Init ty offset sz bias else NoHdr_Init offset sz bias)"

definition GetFdeFromPc :: "'a::len itself \<Rightarrow> nat \<Rightarrow> u64 \<Rightarrow> u64 sec_prog" where
  "GetFdeFromPc ty fuel pc =
     bnd (gets sec_class) (\<lambda>cls.
     if cls = EhFrameWithHdr then Hdr_GetFdeFromPc ty fuel pc else NoHdr_GetFdeFromPc ty fuel pc)"

definition GetFdes :: "'a::len itself \<Rightarrow> nat \<Rightarrow> u64 list sec_prog" where
  "GetFdes ty fuel =
     bnd (gets sec_class) (\<lambda>cls.
     if cls = EhFrameWithHdr then Hdr_GetFdes ty fuel else NoHdr_GetFdes ty fuel)"

section \<open>Step\<close>

text \<open>
  The row for the pc, from the cache or computed and put there. \<^verbatim>\<open>emplace\<close> keeps an element that is already
  there, and \<^verbatim>\<open>Step\<close> goes on with that one.
\<close>

definition step_row :: "'a::len itself \<Rightarrow> nat \<Rightarrow> u64 \<Rightarrow> DwarfLocations sec_prog" where
  "step_row ty fuel pc =
     bnd (gets (\<lambda>s. upper_bound (row_cache s) pc)) (\<lambda>it.
     case (case it of None \<Rightarrow> None | Some (_, row) \<Rightarrow> if pc < pc_start row then None else Some row) of
       Some row \<Rightarrow> ret row
     | None \<Rightarrow>
         bnd (modify (sec_set_code DWARF_ERROR_NONE)) (\<lambda>_.
         bnd (on_fail (GetFdeFromPc ty fuel pc) (sec_set_code DWARF_ERROR_ILLEGAL_STATE)) (\<lambda>key.
         bnd (get_fde key) (\<lambda>fde.
         if fde_cie fde = None then fail_with (sec_set_code DWARF_ERROR_ILLEGAL_STATE)
         else
           bnd (GetCfaLocationInfo ty fuel pc fde DwarfLocations_default) (\<lambda>lregs.
           let row = lregs\<lparr>loc_cie := fde_cie fde\<rparr> in
           bnd (modify (\<lambda>s. s\<lparr>row_cache := omap_emplace (pc_end row) row (row_cache s)\<rparr>)) (\<lambda>_.
           gets (\<lambda>s. the (map_of (row_cache s) (pc_end row)))))))))"

definition DwarfSection_Step ::
  "nat \<Rightarrow> u8 \<times> 'a::len word list \<Rightarrow> u64 \<Rightarrow> memory \<Rightarrow> (dwarf_section \<times> 'a word cpu_regs, bool) prog" where
  "DwarfSection_Step fuel uninit pc process_memory = (\<lambda>(s, r).
     case bnd (step_row TYPE('a) fuel pc) (\<lambda>row.
            case loc_cie row of
              None \<Rightarrow> crash Undefined
            | Some key \<Rightarrow> bnd (get_cie key) (\<lambda>cie. ret (row, cie))) s of
       (Fail, t) \<Rightarrow> (Fail, (t, r))
     | (Crash c, t) \<Rightarrow> (Crash c, (t, r))
     | (Ok (row, cie), t) \<Rightarrow> DwarfSection_Eval uninit cie process_memory row (t, r))"

section \<open>What the CFA interpreter leaves alone\<close>

definition cfa_mem :: "'a::len word dwarf_cfa \<Rightarrow> memory \<times> DwarfFde" where
  "cfa_mem s = (memory_of (cfa_memory s), cfa_fde s)"

lemma cfa_mem_updates [simp]:
  "cfa_mem (s\<lparr>cfa_error := e\<rparr>) = cfa_mem s" "cfa_mem (s\<lparr>cur_pc := p\<rparr>) = cfa_mem s"
  "cfa_mem (s\<lparr>cfa_operands := ops\<rparr>) = cfa_mem s" "cfa_mem (s\<lparr>loc_reg_state := st\<rparr>) = cfa_mem s"
  "cfa_mem (s\<lparr>loc_regs := l\<rparr>) = cfa_mem s" "cfa_mem (s\<lparr>cfa_log := lg\<rparr>) = cfa_mem s"
  "cfa_mem (cfa_set_code k s) = cfa_mem s" "cfa_mem (cfa_memory_error s) = cfa_mem s"
  by (simp_all add: cfa_mem_def cfa_set_code_def cfa_memory_error_def)

lemma cfa_mem_reads [keep]: "moves_cursor p \<Longrightarrow> keeps cfa_mem (cfa_on_memory p)"
  unfolding cfa_on_memory_def by (rule keeps_on_member) (auto simp: cfa_mem_def dest: moves_cursorD)

lemma cfa_mem_shared [keep]:
  "keeps cfa_mem (log_line i l)" "keeps cfa_mem (set_loc r loc)" "keeps cfa_mem (erase_loc r)"
  "keeps cfa_mem (advance_pc d)" "keeps cfa_mem (cfa_operand n)" "keeps cfa_mem (scaled v)"
  unfolding log_line_def set_loc_def erase_loc_def advance_pc_def cfa_operand_def scaled_def Let_def
  by (intro keep; simp)+ (simp_all add: keeps_def)

lemma cfa_mem_rules [keep]: "keeps cfa_mem (restore_reg reg)" "keeps cfa_mem (cfa_register_rule msg)"
  unfolding restore_reg_def cfa_register_rule_def by (intro keep; simp)+

lemma cfa_mem_instructions: "list_all (\<lambda>h. case h of None \<Rightarrow> True | Some p \<Rightarrow> keeps cfa_mem p) kCfaCallbackTable"
proof -
  have "keeps cfa_mem cfa_restore_state"
    by (simp add: keeps_def cfa_restore_state_def log_line_def split: list.splits)
  moreover have "keeps cfa_mem cfa_nop" "keeps cfa_mem cfa_set_loc" "keeps cfa_mem cfa_advance_loc"
    "keeps cfa_mem cfa_offset" "keeps cfa_mem cfa_restore" "keeps cfa_mem cfa_undefined"
    "keeps cfa_mem cfa_same_value" "keeps cfa_mem cfa_register" "keeps cfa_mem cfa_remember_state"
    "keeps cfa_mem cfa_def_cfa" "keeps cfa_mem cfa_def_cfa_register" "keeps cfa_mem cfa_def_cfa_offset"
    "keeps cfa_mem cfa_def_cfa_expression" "keeps cfa_mem cfa_expression"
    "keeps cfa_mem cfa_offset_extended_sf" "keeps cfa_mem cfa_def_cfa_sf"
    "keeps cfa_mem cfa_def_cfa_offset_sf" "keeps cfa_mem cfa_val_offset" "keeps cfa_mem cfa_val_offset_sf"
    "keeps cfa_mem cfa_val_expression" "keeps cfa_mem cfa_gnu_negative_offset_extended"
    unfolding cfa_instr_defs by (intro keep; simp)+
  ultimately show ?thesis
    by (simp add: kCfaCallbackTable_def)
qed

lemma cfa_mem_operands [keep]: "keeps cfa_mem (cfa_read_operands es)"
proof (induction es)
  case (Cons e es)
  then show ?case
    unfolding cfa_read_operands.simps by (intro keep prog_frame; (assumption | simp))
qed (simp add: keeps_def)

lemma keeps_option_eq:
  "(x = None \<Longrightarrow> keeps f p) \<Longrightarrow> (\<And>y. x = Some y \<Longrightarrow> keeps f (q y)) \<Longrightarrow> keeps f (case x of None \<Rightarrow> p | Some y \<Rightarrow> q y)"
  by (cases x) simp_all

lemma cfa_mem_table:
  fixes p :: "('a::len, unit) cfa_prog"
  assumes "kCfaCallbackTable ! unat (b AND 0x3f :: u8) = Some p"
  shows "keeps cfa_mem p"
proof -
  have "unat (b AND 0x3f) < length (kCfaCallbackTable :: ('a, unit) cfa_prog option list)"
    by (simp add: kCfaCallbackTable_def unat_cfa_low)
  then show ?thesis
    using cfa_mem_instructions assms by (fastforce simp: list_all_length split: option.splits)
qed

lemma cfa_mem_step: "keeps cfa_mem cfa_step"
proof -
  have "keeps cfa_mem (cfa_dispatch b)" for b
    unfolding cfa_dispatch_def Let_def
    by (intro keeps_if keeps_option_eq keeps_bnd cfa_mem_shared cfa_mem_rules cfa_mem_operands keeps_fail_with keeps_on_fail
        cfa_mem_reads prog_frame; (erule cfa_mem_table | simp))
  then show ?thesis
    unfolding cfa_step_def by (intro keep prog_frame; simp)
qed

lemma cfa_mem_loop: "keeps cfa_mem (GetLocationInfo_loop fuel pc end_offset)"
proof (induction fuel)
  case (Suc fuel)
  show ?case
    by (rule keepsI, subst (asm) GetLocationInfo_loop.simps)
      (use keepsD [OF keeps_bnd [OF cfa_mem_step Suc]] in \<open>force split: if_splits\<close>)
qed (rule keepsI, subst (asm) GetLocationInfo_loop.simps, auto split: if_splits)

lemma cfa_mem_GetLocationInfo: "GetLocationInfo fuel pc start stop s = (r, t) \<Longrightarrow> cfa_mem t = cfa_mem s"
  using keepsD [OF cfa_mem_loop] unfolding GetLocationInfo_eq by (fastforce simp: cfa_entry_def Let_def cfa_mem_def)

section \<open>The cache of rows\<close>

text \<open>What \<^const>\<open>scan_inv\<close> and the cache depend on.\<close>

definition step_frame :: "dwarf_section \<Rightarrow> _" where
  "step_frame s = (sec_class s, memory_of (sec_memory s), fde_entries s, fdes s, next_entries_offset s, entries_end s,
     row_cache s)"

lemma scan_inv_frame: "step_frame s = step_frame t \<Longrightarrow> scan_inv s \<longleftrightarrow> scan_inv t"
  by (simp add: step_frame_def scan_inv_def entries_advance_def)

lemma step_frame_run_cfa [keep]: "keeps step_frame (run_cfa ty fuel pc fde cie rows start stop lregs)"
  by (rule keepsI)
    (auto simp: run_cfa_def step_frame_def cfa_mem_def set_cie_loc_regs_def DwarfCfa_def Let_def
      dest!: cfa_mem_GetLocationInfo split: prod.splits outcome.splits)

lemma step_frame_GetCfaLocationInfo: "keeps step_frame (GetCfaLocationInfo ty fuel pc fde lregs)"
proof -
  have "keeps step_frame (fde_get_cie fde)"
    unfolding fde_get_cie_def by (intro keep)
  then show ?thesis
    unfolding GetCfaLocationInfo_def
    by (intro keep) (auto intro!: keep simp: step_frame_def split: prod.splits)
qed

lemma GetCfaLocationInfo_covers:
  assumes "GetCfaLocationInfo ty fuel pc fde lregs s = (Ok row, t)" and "fde_pc_start fde \<le> pc" and "pc < fde_pc_end fde"
  shows "pc_start row \<le> pc \<and> pc < pc_end row"
proof -
  from assms(1) obtain cie rows u lregs' where
    "run_cfa ty fuel pc fde cie (Some rows) (cfa_instructions_offset fde) (cfa_instructions_end fde) lregs' u = (Ok row, t)"
    by (auto simp: GetCfaLocationInfo_def bnd_def split: prod.splits outcome.splits)
  then obtain cfa where "GetLocationInfo fuel pc (cfa_instructions_offset fde) (cfa_instructions_end fde)
      (set_cie_loc_regs (Some rows)
         (DwarfCfa (sec_memory u) fde cie \<lparr>code = DWARF_ERROR_NONE, address = 0\<rparr> (0 :: 'a word) lregs')) = (Ok (), cfa)"
      "row = loc_regs cfa"
    by (auto simp: run_cfa_def Let_def split: prod.splits outcome.splits)
  note run = this
  from GetLocationInfo_covers [OF run(1)] show ?thesis
    using assms(2,3) run(2) by (auto simp: set_cie_loc_regs_def DwarfCfa_def)
qed

text \<open>The search for an FDE does not touch the cache.\<close>

definition rows_of :: "dwarf_section \<Rightarrow> section_class \<times> DwarfLocations omap" where
  "rows_of s = (sec_class s, row_cache s)"

lemma rows_of_frame: "keeps sec_frame p \<Longrightarrow> keeps rows_of p"
proof -
  have "rows_of (sec_frame s) = rows_of s" for s
    by (simp add: rows_of_def sec_frame_def)
  then show "keeps sec_frame p \<Longrightarrow> keeps rows_of p"
    unfolding keeps_def by metis
qed

lemma rows_of_frame_but: "keeps (frame_but k) p \<Longrightarrow> keeps rows_of p"
proof -
  have "rows_of (frame_but k s) = rows_of s" for s
    by (simp add: rows_of_def frame_but_def sec_frame_def)
  then show "keeps (frame_but k) p \<Longrightarrow> keeps rows_of p"
    unfolding keeps_def by metis
qed

lemma rows_of_updates [simp]:
  "rows_of (s\<lparr>next_entries_offset := n\<rparr>) = rows_of s" "rows_of (InsertFde key fde s) = rows_of s"
  "rows_of (sec_set_code k s) = rows_of s"
  by (simp_all add: rows_of_def InsertFde_def sec_set_code_def)

lemma rows_of_GetNextCieOrFde [keep]: "keeps rows_of (GetNextCieOrFde ty fuel)"
proof -
  have reads: "keeps rows_of (sec_read (ReadUnsigned n))" "keeps rows_of (on_sec_memory (set_cur_offset off))" for n off
    by (rule rows_of_frame, intro keep prog_frame)+
  have "keeps rows_of ReadEntryHead"
    unfolding ReadEntryHead_def Let_def GetCieOffsetFromFde32_def GetCieOffsetFromFde64_def
    by (intro keep reads) simp_all
  then show ?thesis
    unfolding GetNextCieOrFde_def
    by (intro keep reads)
      (auto intro!: keep rows_of_frame [OF NextCie_frame] rows_of_frame_but [OF NextFde_frame] split: sum.split)
qed

lemma rows_of_scan: "keeps rows_of (GetFdeFromPc_scan ty fuel n pc)"
proof (induction n)
  case 0
  then show ?case
    by (intro keepsI) (auto simp: GetFdeFromPc_scan.simps [of ty fuel 0] split: if_splits)
next
  case (Suc n)
  have "keeps rows_of (index_next ty fuel)"
    unfolding index_next_def by (intro keep frame_gets) simp_all
  note "next" = this
  show ?case
  proof (rule keepsI)
    fix s r t assume run: "GetFdeFromPc_scan ty fuel (Suc n) pc s = (r, t)"
    obtain r' u where u: "index_next ty fuel s = (r', u)"
      by fastforce
    then have "rows_of u = rows_of s"
      by (rule keepsD [OF "next"])
    then show "rows_of t = rows_of s"
      using run u keepsD [OF Suc, of u]
      by (auto simp: GetFdeFromPc_scan.simps [of ty fuel "Suc n"] split: if_splits outcome.splits option.splits)
  qed
qed

lemma rows_of_GetFdeFromPc: "keeps rows_of (NoHdr_GetFdeFromPc ty fuel pc)"
  unfolding NoHdr_GetFdeFromPc_def by (intro keep rows_of_scan)

text \<open>The rows of the cache are filed under their ends.\<close>

definition cache_inv :: "DwarfLocations omap \<Rightarrow> bool" where
  "cache_inv m \<longleftrightarrow> omap_inv m \<and> (\<forall>k row. map_of m k = Some row \<longrightarrow> pc_end row = k)"

lemma cache_inv_emplace: "cache_inv m \<Longrightarrow> cache_inv (omap_emplace (pc_end row) row m)"
  by (auto simp: cache_inv_def omap_emplace_def omap_inv_assign)

lemma cached_row:
  assumes "cache_inv m" and "upper_bound m pc = Some (k, row)"
  shows "pc < pc_end row"
  using assms by (auto simp: cache_inv_def upper_bound_Some_iff omap_mem_iff)




end
