(* ===== verification/Arm_Exidx.thy ===== *)
theory Arm_Exidx
  imports Regs
begin

text \<open>
  \<^verbatim>\<open>ArmExidx.h\<close> and \<^verbatim>\<open>ArmExidx.cpp\<close>: the unwind instructions of the ARM exception index. The data of an
  entry is a list of bytes that \<^verbatim>\<open>Decode\<close> takes instructions from; every call takes one byte at least, so that
  \<^verbatim>\<open>Eval\<close> ends.
\<close>

unbundle bit_operations_syntax

section \<open>State\<close>

datatype ArmStatus =
    ARM_STATUS_NONE | ARM_STATUS_NO_UNWIND | ARM_STATUS_FINISH | ARM_STATUS_RESERVED | ARM_STATUS_SPARE
  | ARM_STATUS_TRUNCATED | ARM_STATUS_READ_FAILED | ARM_STATUS_MALFORMED | ARM_STATUS_INVALID_ALIGNMENT
  | ARM_STATUS_INVALID_PERSONALITY

definition ARM_OP_FINISH :: u8 where
  "ARM_OP_FINISH = 0xb0"

datatype ArmLogType = ARM_LOG_NONE | ARM_LOG_FULL | ARM_LOG_BY_REG

definition LOG_CFA_REG :: u64 where
  "LOG_CFA_REG = 64"

text \<open>
  The \<^verbatim>\<open>int32_t\<close> values of the log are words that are read with \<open>sint\<close>. The lines that \<^verbatim>\<open>log\<close> prints are collected with
  their indentation, and the keys of \<^verbatim>\<open>log_regs_\<close> are widened.
\<close>

record arm_exidx =
  exidx_regs :: "u32 cpu_regs"
  exidx_cfa :: u32
  exidx_data :: "u8 list"
  exidx_status :: ArmStatus
  status_address :: u64
  exidx_elf_memory :: memory
  exidx_process_memory :: memory
  log_type :: ArmLogType
  log_indent :: nat
  log_skip_execution :: bool
  pc_set :: bool
  log_cfa_offset :: u32
  log_regs :: "u32 omap"
  exidx_log :: "(nat \<times> string) list"

definition ArmExidx :: "u32 cpu_regs \<Rightarrow> memory \<Rightarrow> memory \<Rightarrow> arm_exidx" where
  "ArmExidx r elf_mem process_mem =
     \<lparr>exidx_regs = r, exidx_cfa = 0, exidx_data = [], exidx_status = ARM_STATUS_NONE, status_address = 0,
      exidx_elf_memory = elf_mem, exidx_process_memory = process_mem, log_type = ARM_LOG_NONE, log_indent = 0,
      log_skip_execution = False, pc_set = False, log_cfa_offset = 0, log_regs = [], exidx_log = []\<rparr>"

type_synonym 'r exidx_prog = "(arm_exidx, 'r) prog"

definition set_status :: "ArmStatus \<Rightarrow> arm_exidx \<Rightarrow> arm_exidx" where
  "set_status st s = s\<lparr>exidx_status := st\<rparr>"

definition set_read_failed :: "u32 \<Rightarrow> arm_exidx \<Rightarrow> arm_exidx" where
  "set_read_failed addr s = s\<lparr>exidx_status := ARM_STATUS_READ_FAILED, status_address := ucast addr\<rparr>"

definition add_cfa :: "u32 \<Rightarrow> unit exidx_prog" where
  "add_cfa n = modify (\<lambda>s. s\<lparr>exidx_cfa := exidx_cfa s + n\<rparr>)"

section \<open>Logging\<close>

definition exidx_line :: "string \<Rightarrow> unit exidx_prog" where
  "exidx_line line = modify (\<lambda>s. s\<lparr>exidx_log := exidx_log s @ [(log_indent s, line)]\<rparr>)"

definition LogRawData :: "unit exidx_prog" where
  "LogRawData =
     bnd (gets exidx_data) (\<lambda>data.
     exidx_line (''Raw Data:'' @ concat (map (\<lambda>b. '' 0x'' @ pad0 2 (hex (unat b))) data)))"

definition log_if_any :: "string \<Rightarrow> unit exidx_prog" where
  "log_if_any line = bnd (gets log_type) (\<lambda>ty. if ty \<noteq> ARM_LOG_NONE then exidx_line line else ret ())"

text \<open>
  The frame of the instructions: they log, in one of two ways, and return without executing if
  \<^verbatim>\<open>log_skip_execution_\<close> is set.
\<close>

definition logged :: "unit exidx_prog \<Rightarrow> unit exidx_prog \<Rightarrow> unit exidx_prog \<Rightarrow> unit exidx_prog" where
  "logged full by_reg execution =
     bnd (gets log_type) (\<lambda>ty.
     if ty = ARM_LOG_NONE then execution
     else
       bnd (if ty = ARM_LOG_FULL then full else by_reg) (\<lambda>_.
       bnd (gets log_skip_execution) (\<lambda>skip.
       if skip then ret () else execution)))"

text \<open>A list of registers with commas between them.\<close>

fun comma_list :: "string list \<Rightarrow> string" where
  "comma_list [] = []"
| "comma_list [x] = x"
| "comma_list (x # xs) = x @ '', '' @ comma_list xs"

definition pop_line :: "string \<Rightarrow> nat list \<Rightarrow> unit exidx_prog" where
  "pop_line prefix regs = exidx_line (''pop {'' @ comma_list (map (\<lambda>r. prefix @ dec r) regs) @ ''}'')"

text \<open>\<^verbatim>\<open>pop {d8-d10}\<close>: the first register, and the last one unless \<open>n\<close> is zero.\<close>

definition pop_range_line :: "string \<Rightarrow> nat \<Rightarrow> nat \<Rightarrow> nat \<Rightarrow> unit exidx_prog" where
  "pop_range_line prefix first n last_reg =
     exidx_line (''pop {'' @ prefix @ dec first @ (if n \<noteq> 0 then ''-'' @ prefix @ dec last_reg else []) @ ''}'')"

text \<open>The registers are at descending distances from the CFA.\<close>

fun log_reg_offsets :: "nat list \<Rightarrow> u32 \<Rightarrow> u32 omap \<Rightarrow> u32 omap \<times> u32" where
  "log_reg_offsets [] off m = (m, off)"
| "log_reg_offsets (r # rs) off m = log_reg_offsets rs (off - 4) (omap_assign (of_nat r) off m)"

definition log_pop :: "nat list \<Rightarrow> unit exidx_prog" where
  "log_pop rs =
     modify (\<lambda>s. let off = of_nat (length rs) * 4 in
       s\<lparr>log_cfa_offset := log_cfa_offset s + off, log_regs := fst (log_reg_offsets rs off (log_regs s))\<rparr>)"

definition i32_overflow :: "u32 \<Rightarrow> u32 \<Rightarrow> bool" where
  "i32_overflow a b \<longleftrightarrow> sint a + sint b \<noteq> sint (a + b)"

fun AdjustRegisters_map :: "u32 \<Rightarrow> u32 omap \<Rightarrow> u32 omap option" where
  "AdjustRegisters_map offset [] = Some []"
| "AdjustRegisters_map offset ((reg, v) # m) =
     (if reg \<ge> LOG_CFA_REG then Some ((reg, v) # m)
      else if i32_overflow v offset then None
      else map_option (\<lambda>m'. (reg, v + offset) # m') (AdjustRegisters_map offset m))"

definition AdjustRegisters :: "u32 \<Rightarrow> unit exidx_prog" where
  "AdjustRegisters offset =
     bnd (gets (\<lambda>s. AdjustRegisters_map offset (log_regs s))) (\<lambda>m.
     case m of None \<Rightarrow> crash Undefined | Some m' \<Rightarrow> modify (\<lambda>s. s\<lparr>log_regs := m'\<rparr>))"

text \<open>\<^verbatim>\<open>log_cfa_offset_ += cfa_offset\<close> on \<^verbatim>\<open>int32_t\<close> values.\<close>

definition log_add_cfa :: "u32 \<Rightarrow> unit exidx_prog" where
  "log_add_cfa off =
     bnd (gets log_cfa_offset) (\<lambda>old.
     if i32_overflow old off then crash Undefined
     else modify (\<lambda>s. s\<lparr>log_cfa_offset := old + off\<rparr>))"

definition abs_i32 :: "u32 \<Rightarrow> nat" where
  "abs_i32 v = nat \<bar>sint v\<bar>"

definition LogByReg_entry :: "u64 \<times> u32 \<Rightarrow> string" where
  "LogByReg_entry = (\<lambda>(reg, v).
     if v = 0 then ''r'' @ dec (unat reg) @ '' = [cfa]''
     else ''r'' @ dec (unat reg) @ '' = [cfa '' @ (if 0 < sint v then ''-'' else ''+'') @ '' '' @ dec (abs_i32 v) @ '']'')"

text \<open>\<^verbatim>\<open>abs\<close> of the least \<^verbatim>\<open>int32_t\<close> is undefined.\<close>

fun LogByReg_regs :: "u32 omap \<Rightarrow> unit exidx_prog" where
  "LogByReg_regs [] = ret ()"
| "LogByReg_regs ((reg, v) # m) =
     (if reg \<ge> LOG_CFA_REG then ret ()
      else if v = 0x80000000 then crash Undefined
      else bnd (exidx_line (LogByReg_entry (reg, v))) (\<lambda>_. LogByReg_regs m))"

definition LogByReg :: "unit exidx_prog" where
  "LogByReg =
     bnd (gets log_type) (\<lambda>ty.
     if ty \<noteq> ARM_LOG_BY_REG then ret ()
     else
       bnd (gets log_regs) (\<lambda>m.
       bnd (gets log_cfa_offset) (\<lambda>off.
       let cfa_reg = (case map_of m LOG_CFA_REG of None \<Rightarrow> 13 | Some r \<Rightarrow> unat (ucast r :: u8)) in
       bnd (if off = 0x80000000 then crash Undefined
            else if off \<noteq> 0
            then exidx_line (''cfa = r'' @ dec cfa_reg @ '' '' @ (if 0 < sint off then ''+'' else ''-'') @ '' '' @
                   dec (abs_i32 off))
            else exidx_line (''cfa = r'' @ dec cfa_reg)) (\<lambda>_.
       LogByReg_regs m))))"

section \<open>The data of an entry\<close>

definition exidx_read32 :: "u32 \<Rightarrow> u32 exidx_prog" where
  "exidx_read32 addr =
     bnd (gets exidx_elf_memory) (\<lambda>mem.
     case read_word mem (ucast addr) of
       None \<Rightarrow> fail_with (set_read_failed addr)
     | Some data \<Rightarrow> ret data)"

definition byte_of :: "nat \<Rightarrow> u32 \<Rightarrow> u8" where
  "byte_of n data = ucast (drop_bit (8 * n) data AND 0xff)"

definition push_data :: "u8 list \<Rightarrow> unit exidx_prog" where
  "push_data bs = modify (\<lambda>s. s\<lparr>exidx_data := exidx_data s @ bs\<rparr>)"

fun read_table_words :: "nat \<Rightarrow> u32 \<Rightarrow> unit exidx_prog" where
  "read_table_words 0 addr = ret ()"
| "read_table_words (Suc n) addr =
     bnd (exidx_read32 addr) (\<lambda>data.
     bnd (push_data [byte_of 3 data, byte_of 2 data, byte_of 1 data, byte_of 0 data]) (\<lambda>_.
     read_table_words n (addr + 4)))"

text \<open>The end of both forms: a missing finish instruction is added, and the data is logged.\<close>

definition finish_data :: "unit exidx_prog" where
  "finish_data =
     bnd (gets exidx_data) (\<lambda>data.
     bnd (if data = [] then crash Undefined
          else if last data \<noteq> ARM_OP_FINISH then push_data [ARM_OP_FINISH]
          else ret ()) (\<lambda>_.
     bnd (gets log_type) (\<lambda>ty.
     if ty = ARM_LOG_FULL then LogRawData else ret ())))"

text \<open>The table an entry refers to: the number of words that follow and their address.\<close>

definition read_table_head :: "u32 \<Rightarrow> (nat \<times> u32) exidx_prog" where
  "read_table_head addr =
     bnd (exidx_read32 addr) (\<lambda>data.
     if bit data 31 then
       (let index = drop_bit 24 data AND 0xf in
        if index = 0 then
          bnd (push_data [byte_of 2 data, byte_of 1 data, byte_of 0 data]) (\<lambda>_. ret (0, addr))
        else if index = 1 \<or> index = 2 then
          bnd (push_data [byte_of 1 data, byte_of 0 data]) (\<lambda>_. ret (unat (byte_of 2 data), addr + 4))
        else fail_with (set_status ARM_STATUS_INVALID_PERSONALITY))
     else
       bnd (exidx_read32 (addr + 4)) (\<lambda>data.
       bnd (push_data [byte_of 2 data, byte_of 1 data, byte_of 0 data]) (\<lambda>_.
       ret (unat (byte_of 3 data), addr + 8))))"

text \<open>\<^verbatim>\<open>static_cast<int32_t>(data << 1) >> 1\<close>.\<close>

definition sign_extend31 :: "u32 \<Rightarrow> u32" where
  "sign_extend31 data = signed_drop_bit 1 (push_bit 1 data)"

definition ExtractEntryData :: "u32 \<Rightarrow> unit exidx_prog" where
  "ExtractEntryData entry_offset =
     bnd (modify (\<lambda>s. s\<lparr>exidx_data := [], exidx_status := ARM_STATUS_NONE\<rparr>)) (\<lambda>_.
     if bit entry_offset 0 then fail_with (set_status ARM_STATUS_INVALID_ALIGNMENT)
     else
       bnd (exidx_read32 (entry_offset + 4)) (\<lambda>data.
       if data = 1 then
         bnd (modify (set_status ARM_STATUS_NO_UNWIND)) (\<lambda>_.
         bnd (gets log_type) (\<lambda>ty.
         bnd (if ty = ARM_LOG_FULL then exidx_line ''Raw Data: 0x00 0x00 0x00 0x01'' else ret ()) (\<lambda>_.
         bnd (log_if_any ''[cantunwind]'') (\<lambda>_.
         fail_with id))))
       else if bit data 31 then
         (if drop_bit 24 data AND 0xf \<noteq> 0 then fail_with (set_status ARM_STATUS_INVALID_PERSONALITY)
          else
            bnd (push_data [byte_of 2 data, byte_of 1 data, byte_of 0 data]) (\<lambda>_.
            finish_data))
       else
         bnd (read_table_head (entry_offset + 4 + sign_extend31 data)) (\<lambda>(num_table_words, addr).
         if num_table_words > 5 then fail_with (set_status ARM_STATUS_MALFORMED)
         else
           bnd (read_table_words num_table_words addr) (\<lambda>_.
           finish_data))))"

section \<open>Instructions\<close>

definition GetByte :: "u8 exidx_prog" where
  "GetByte = (\<lambda>s.
     case exidx_data s of
       [] \<Rightarrow> (Fail, set_status ARM_STATUS_TRUNCATED s)
     | b # bs \<Rightarrow> (Ok b, s\<lparr>exidx_data := bs\<rparr>))"

definition low_bits :: "nat \<Rightarrow> u8 \<Rightarrow> nat" where
  "low_bits n b = unat (take_bit n b)"

definition high_bits :: "nat \<Rightarrow> u8 \<Rightarrow> nat" where
  "high_bits n b = unat (drop_bit n b)"

text \<open>
  \<^verbatim>\<open>process_memory_->Read32(cfa_, &(*regs_)[reg])\<close>: a short read leaves some bytes of the register changed.
\<close>

definition pop_reg :: "nat \<Rightarrow> unit exidx_prog" where
  "pop_reg reg = (\<lambda>s.
     let vals = reg_vals (exidx_regs s) in
     if reg < length vals then
       case read_into (exidx_process_memory s) (ucast (exidx_cfa s)) (vals ! reg) of
         (done, v) \<Rightarrow>
           let s' = s\<lparr>exidx_regs := (exidx_regs s)\<lparr>reg_vals := vals[reg := v]\<rparr>\<rparr> in
           if done then (Ok (), s'\<lparr>exidx_cfa := exidx_cfa s + 4\<rparr>)
           else (Fail, set_read_failed (exidx_cfa s) s')
     else (Crash Undefined, s))"

fun pop_regs :: "nat list \<Rightarrow> unit exidx_prog" where
  "pop_regs [] = ret ()"
| "pop_regs (reg # rs) = bnd (pop_reg reg) (\<lambda>_. pop_regs rs)"

definition get_exidx_reg :: "nat \<Rightarrow> u32 exidx_prog" where
  "get_exidx_reg reg =
     bnd (gets (\<lambda>s. reg_vals (exidx_regs s))) (\<lambda>vals.
     if reg < length vals then ret (vals ! reg) else crash Undefined)"

text \<open>The registers of a mask, of which bit \<open>i\<close> stands for register \<open>i + 4\<close>.\<close>

definition mask_regs :: "u16 \<Rightarrow> nat list" where
  "mask_regs registers = filter (bit (push_bit 4 registers)) [4..<16]"

definition pop_masked :: "u16 \<Rightarrow> unit exidx_prog" where
  "pop_masked registers =
     bnd (pop_regs (mask_regs registers)) (\<lambda>_.
     bnd (if bit (push_bit 4 registers) 13
          then bnd (get_exidx_reg 13) (\<lambda>v. modify (\<lambda>s. s\<lparr>exidx_cfa := v\<rparr>))
          else ret ()) (\<lambda>_.
     if bit (push_bit 4 registers) 15 then modify (\<lambda>s. s\<lparr>pc_set := True\<rparr>) else ret ()))"

definition DecodePrefix_10_00 :: "u8 \<Rightarrow> unit exidx_prog" where
  "DecodePrefix_10_00 byte =
     (if high_bits 4 byte \<noteq> 0x8 then crash CheckFailed
      else
        bnd GetByte (\<lambda>byte2.
        let registers = (push_bit 8 (ucast (byte AND 0xf)) OR ucast byte2 :: u16) in
        if registers = 0 then
          bnd (log_if_any ''Refuse to unwind'') (\<lambda>_.
          fail_with (set_status ARM_STATUS_NO_UNWIND))
        else
          logged (pop_line ''r'' (mask_regs registers)) (log_pop (mask_regs registers)) (pop_masked registers)))"

definition DecodePrefix_10_01 :: "u8 \<Rightarrow> unit exidx_prog" where
  "DecodePrefix_10_01 byte =
     (if high_bits 4 byte \<noteq> 0x9 then crash CheckFailed
      else
        let bits = low_bits 4 byte in
        if bits = 13 \<or> bits = 15 then
          bnd (log_if_any ''[Reserved]'') (\<lambda>_.
          fail_with (set_status ARM_STATUS_RESERVED))
        else
          logged (exidx_line (''vsp = r'' @ dec bits))
            (modify (\<lambda>s. s\<lparr>log_regs := omap_assign LOG_CFA_REG (of_nat bits) (log_regs s)\<rparr>))
            (bnd (get_exidx_reg bits) (\<lambda>v. modify (\<lambda>s. s\<lparr>exidx_cfa := v\<rparr>))))"

definition DecodePrefix_10_10 :: "u8 \<Rightarrow> unit exidx_prog" where
  "DecodePrefix_10_10 byte =
     (if high_bits 4 byte \<noteq> 0xa then crash CheckFailed
      else
        let end_reg = low_bits 3 byte;
            rs = [4..<5 + end_reg] @ (if bit byte 3 then [14] else [])
        in
          logged (exidx_line (''pop {r4'' @ (if end_reg \<noteq> 0 then ''-r'' @ dec (4 + end_reg) else []) @
                    (if bit byte 3 then '', r14}'' else ''}'')))
            (log_pop rs)
            (pop_regs rs))"

definition DecodePrefix_10_11_0000 :: "unit exidx_prog" where
  "DecodePrefix_10_11_0000 =
     bnd (gets log_type) (\<lambda>ty.
     bnd (if ty = ARM_LOG_FULL then exidx_line ''finish'' else ret ()) (\<lambda>_.
     fail_with (set_status ARM_STATUS_FINISH)))"

definition spare :: "unit exidx_prog" where
  "spare = bnd (log_if_any ''Spare'') (\<lambda>_. fail_with (set_status ARM_STATUS_SPARE))"

definition DecodePrefix_10_11_0001 :: "unit exidx_prog" where
  "DecodePrefix_10_11_0001 =
     bnd GetByte (\<lambda>byte.
     if byte = 0 then spare
     else if high_bits 4 byte \<noteq> 0 then spare
     else
       let rs = filter (bit byte) [0..<4] in
       logged (pop_line ''r'' rs) (log_pop rs) (pop_regs rs))"

text \<open>
  The loop of \<^verbatim>\<open>DecodePrefix_10_11_0010\<close> on the data. \<^verbatim>\<open>(byte & 0x7f) << shift\<close> is a shift of an \<^verbatim>\<open>int\<close>: it is
  undefined if it is by 32 or more, or if bits are lost.
\<close>

fun decode_uleb :: "u8 list \<Rightarrow> u32 \<Rightarrow> nat \<Rightarrow> u32 outcome \<times> u8 list" where
  "decode_uleb [] result shift = (Fail, [])"
| "decode_uleb (byte # bs) result shift =
     (let bits = ucast (byte AND 0x7f) :: u32 in
      if shift \<ge> 32 \<or> drop_bit (32 - shift) bits \<noteq> 0 then (Crash Undefined, bs)
      else
        let result' = result OR push_bit shift bits in
        if bit byte 7 then decode_uleb bs result' (shift + 7) else (Ok result', bs))"

definition decode_uleb_operand :: "u32 exidx_prog" where
  "decode_uleb_operand = (\<lambda>s.
     case decode_uleb (exidx_data s) 0 0 of
       (Fail, bs) \<Rightarrow> (Fail, set_status ARM_STATUS_TRUNCATED (s\<lparr>exidx_data := bs\<rparr>))
     | (r, bs) \<Rightarrow> (r, s\<lparr>exidx_data := bs\<rparr>))"

definition DecodePrefix_10_11_0010 :: "unit exidx_prog" where
  "DecodePrefix_10_11_0010 =
     bnd decode_uleb_operand (\<lambda>uleb.
     let cfa_off = 0x204 + push_bit 2 uleb in
     logged
       (bnd (exidx_line (''vsp = vsp + '' @ sdec (sint cfa_off))) (\<lambda>_. AdjustRegisters cfa_off))
       (bnd (log_add_cfa cfa_off) (\<lambda>_. AdjustRegisters cfa_off))
       (add_cfa cfa_off))"

definition DecodePrefix_10_11_0011 :: "unit exidx_prog" where
  "DecodePrefix_10_11_0011 =
     bnd GetByte (\<lambda>byte.
     let start_reg = high_bits 4 byte; end_reg = start_reg + low_bits 4 byte in
     logged (pop_range_line ''d'' start_reg end_reg end_reg)
       (exidx_line ''Unsupported DX register display'')
       (add_cfa (ucast (byte AND 0xf) * 8 + 12)))"

definition DecodePrefix_10_11_01nn :: "unit exidx_prog" where
  "DecodePrefix_10_11_01nn = spare"

definition DecodePrefix_10_11_1nnn :: "u8 \<Rightarrow> unit exidx_prog" where
  "DecodePrefix_10_11_1nnn byte =
     (if byte AND NOT 7 \<noteq> 0xb8 then crash CheckFailed
      else
        logged (pop_range_line ''d'' 8 (low_bits 3 byte) (low_bits 3 byte + 8))
          (exidx_line ''Unsupported DX register display'')
          (add_cfa (ucast (byte AND 7) * 8 + 12)))"

definition DecodePrefix_10 :: "u8 \<Rightarrow> unit exidx_prog" where
  "DecodePrefix_10 byte =
     (if high_bits 6 byte \<noteq> 2 then crash CheckFailed
      else
        let kind = high_bits 4 byte mod 4; low = low_bits 4 byte in
        if kind = 0 then DecodePrefix_10_00 byte
        else if kind = 1 then DecodePrefix_10_01 byte
        else if kind = 2 then DecodePrefix_10_10 byte
        else if low = 0 then DecodePrefix_10_11_0000
        else if low = 1 then DecodePrefix_10_11_0001
        else if low = 2 then DecodePrefix_10_11_0010
        else if low = 3 then DecodePrefix_10_11_0011
        else if bit byte 3 then DecodePrefix_10_11_1nnn byte
        else DecodePrefix_10_11_01nn)"

definition popcount :: "u8 \<Rightarrow> nat" where
  "popcount b = length (filter (bit b) [0..<8])"

definition DecodePrefix_11_000 :: "u8 \<Rightarrow> unit exidx_prog" where
  "DecodePrefix_11_000 byte =
     (if byte AND NOT 7 \<noteq> 0xc0 then crash CheckFailed
      else
        let bits = low_bits 3 byte in
        if bits = 6 then
          bnd GetByte (\<lambda>byte.
          let start_reg = high_bits 4 byte; end_reg = low_bits 4 byte in
          logged (pop_range_line ''wR'' start_reg end_reg (start_reg + end_reg))
            (exidx_line ''Unsupported wRX register display'')
            (add_cfa (ucast (byte AND 0xf) * 8 + 8)))
        else if bits = 7 then
          bnd GetByte (\<lambda>byte.
          if byte = 0 then spare
          else if high_bits 4 byte = 0 then
            logged (pop_line ''wCGR'' (filter (bit byte) [0..<4]))
              (exidx_line ''Unsupported wCGR register display'')
              (add_cfa (of_nat (popcount byte) * 4))
          else spare)
        else
          logged (pop_range_line ''wR'' 10 bits (10 + bits))
            (exidx_line ''Unsupported wRX register display'')
            (add_cfa (ucast (byte AND 7) * 8 + 8)))"

definition DecodePrefix_11_001 :: "u8 \<Rightarrow> unit exidx_prog" where
  "DecodePrefix_11_001 byte =
     (if byte AND NOT 7 \<noteq> 0xc8 then crash CheckFailed
      else
        let bits = low_bits 3 byte in
        if bits = 0 then
          bnd GetByte (\<lambda>byte.
          let start_reg = high_bits 4 byte; end_reg = low_bits 4 byte in
          logged (pop_range_line ''d'' (16 + start_reg) end_reg (16 + start_reg + end_reg))
            (exidx_line ''Unsupported DX register display'')
            (add_cfa (ucast (byte AND 0xf) * 8 + 8)))
        else if bits = 1 then
          bnd GetByte (\<lambda>byte.
          let start_reg = high_bits 4 byte; end_reg = low_bits 4 byte in
          logged (pop_range_line ''d'' start_reg end_reg (start_reg + end_reg))
            (exidx_line ''Unsupported DX register display'')
            (add_cfa (ucast (byte AND 0xf) * 8 + 8)))
        else spare)"

definition DecodePrefix_11_010 :: "u8 \<Rightarrow> unit exidx_prog" where
  "DecodePrefix_11_010 byte =
     (if byte AND NOT 7 \<noteq> 0xd0 then crash CheckFailed
      else
        logged (pop_range_line ''d'' 8 (low_bits 3 byte) (8 + low_bits 3 byte))
          (exidx_line ''Unsupported DX register display'')
          (add_cfa (ucast (byte AND 7) * 8 + 8)))"

definition DecodePrefix_11 :: "u8 \<Rightarrow> unit exidx_prog" where
  "DecodePrefix_11 byte =
     (if high_bits 6 byte \<noteq> 3 then crash CheckFailed
      else
        let kind = high_bits 3 byte mod 8 in
        if kind = 0 then DecodePrefix_11_000 byte
        else if kind = 1 then DecodePrefix_11_001 byte
        else if kind = 2 then DecodePrefix_11_010 byte
        else spare)"

text \<open>The \<^verbatim>\<open>switch\<close> of \<^verbatim>\<open>Decode\<close> on the first byte of the instruction.\<close>

definition Decode_byte :: "u8 \<Rightarrow> unit exidx_prog" where
  "Decode_byte byte =
     (let kind = high_bits 6 byte; cfa_off = push_bit 2 (ucast (byte AND 0x3f)) + 4 in
      if kind = 0 then
        logged
          (bnd (exidx_line (''vsp = vsp + '' @ dec (unat cfa_off))) (\<lambda>_. AdjustRegisters cfa_off))
          (bnd (log_add_cfa cfa_off) (\<lambda>_. AdjustRegisters cfa_off))
          (add_cfa cfa_off)
      else if kind = 1 then
        logged
          (bnd (exidx_line (''vsp = vsp - '' @ dec (unat cfa_off))) (\<lambda>_. AdjustRegisters (- cfa_off)))
          (bnd (modify (\<lambda>s. s\<lparr>log_cfa_offset := log_cfa_offset s - cfa_off\<rparr>)) (\<lambda>_. AdjustRegisters (- cfa_off)))
          (add_cfa (- cfa_off))
      else if kind = 2 then DecodePrefix_10 byte
      else DecodePrefix_11 byte)"

definition Exidx_Decode :: "unit exidx_prog" where
  "Exidx_Decode = bnd (modify (set_status ARM_STATUS_NONE)) (\<lambda>_. bnd GetByte Decode_byte)"

section \<open>The end of Eval\<close>

text \<open>A call that adds no data.\<close>

named_theorems consume

definition consumes :: "'r exidx_prog \<Rightarrow> bool" where
  "consumes p \<longleftrightarrow> (\<forall>s. length (exidx_data (snd (p s))) \<le> length (exidx_data s))"

lemma consumes_basic [consume]:
  "consumes (ret x)" "consumes (crash c)" "consumes (gets g)" "consumes GetByte" "consumes decode_uleb_operand"
proof -
  have "length (snd (decode_uleb bs r n)) \<le> length bs" for bs r n
    by (induction bs r n rule: decode_uleb.induct) (auto simp: Let_def intro: le_SucI)
  then show "consumes decode_uleb_operand"
    by (auto simp: consumes_def decode_uleb_operand_def set_status_def split: prod.split outcome.split)
      (metis snd_conv)+
qed (auto simp: consumes_def GetByte_def set_status_def split: list.split)

lemma consumes_modify [consume]:
  "(\<And>s. length (exidx_data (h s)) \<le> length (exidx_data s)) \<Longrightarrow> consumes (modify h)"
  "(\<And>s. length (exidx_data (h s)) \<le> length (exidx_data s)) \<Longrightarrow> consumes (fail_with h)"
  by (simp_all add: consumes_def)

lemma consumes_if [consume]: "consumes p \<Longrightarrow> consumes q \<Longrightarrow> consumes (if b then p else q)"
  by simp

lemma consumes_option [consume]:
  "consumes p \<Longrightarrow> (\<And>y. consumes (q y)) \<Longrightarrow> consumes (case x of None \<Rightarrow> p | Some y \<Rightarrow> q y)"
  by (cases x) simp_all

lemma consumes_bnd [consume]: "consumes p \<Longrightarrow> (\<And>x. consumes (q x)) \<Longrightarrow> consumes (bnd p q)"
  unfolding consumes_def
proof
  fix s
  assume p: "\<forall>s. length (exidx_data (snd (p s))) \<le> length (exidx_data s)"
    and q: "\<And>x. \<forall>s. length (exidx_data (snd (q x s))) \<le> length (exidx_data s)"
  obtain r t where t: "p s = (r, t)"
    by fastforce
  then have "length (exidx_data t) \<le> length (exidx_data s)"
    using p by (metis snd_conv)
  moreover have "length (exidx_data (snd (q x t))) \<le> length (exidx_data t)" for x
    using q by blast
  ultimately show "length (exidx_data (snd (bnd p q s))) \<le> length (exidx_data s)"
    by (simp add: bnd_def t split: outcome.split) (meson order_trans)
qed

lemma consumes_pop [consume]: "consumes (pop_regs rs)" "consumes (get_exidx_reg r)"
proof -
  have pop: "consumes (pop_reg reg)" for reg
    by (simp add: consumes_def pop_reg_def set_read_failed_def Let_def split: prod.split)
  show "consumes (pop_regs rs)"
    by (induction rs) (simp_all only: pop_regs.simps pop consume)
  show "consumes (get_exidx_reg r)"
    unfolding get_exidx_reg_def by (intro consume)
qed

lemmas exidx_log_defs = exidx_line_def log_if_any_def logged_def pop_line_def pop_range_line_def log_pop_def
  AdjustRegisters_def log_add_cfa_def spare_def add_cfa_def

lemmas exidx_handler_defs = DecodePrefix_10_00_def DecodePrefix_10_01_def DecodePrefix_10_10_def
  DecodePrefix_10_11_0000_def DecodePrefix_10_11_0001_def DecodePrefix_10_11_0010_def DecodePrefix_10_11_0011_def
  DecodePrefix_10_11_01nn_def DecodePrefix_10_11_1nnn_def DecodePrefix_11_000_def DecodePrefix_11_001_def
  DecodePrefix_11_010_def

lemma consumes_log [consume]:
  "consumes (exidx_line l)" "consumes (log_if_any l)" "consumes (pop_line pre rs)"
  "consumes (pop_range_line pre a n b)" "consumes (log_pop rs)" "consumes (AdjustRegisters off)"
  "consumes (log_add_cfa off)" "consumes (add_cfa off)" "consumes spare"
  unfolding exidx_log_defs by (intro consume; simp add: Let_def set_status_def)+

lemma consumes_logged [consume]:
  "consumes p \<Longrightarrow> consumes q \<Longrightarrow> consumes r \<Longrightarrow> consumes (logged p q r)"
  unfolding logged_def by (intro consume)

lemma consumes_pop_masked [consume]: "consumes (pop_masked registers)"
  unfolding pop_masked_def by (intro consume) simp_all

lemma consumes_handlers [consume]:
  "consumes (DecodePrefix_10_00 b)" "consumes (DecodePrefix_10_01 b)" "consumes (DecodePrefix_10_10 b)"
  "consumes DecodePrefix_10_11_0000" "consumes DecodePrefix_10_11_0001" "consumes DecodePrefix_10_11_0010"
  "consumes DecodePrefix_10_11_0011" "consumes DecodePrefix_10_11_01nn" "consumes (DecodePrefix_10_11_1nnn b)"
  "consumes (DecodePrefix_11_000 b)" "consumes (DecodePrefix_11_001 b)" "consumes (DecodePrefix_11_010 b)"
  unfolding exidx_handler_defs Let_def by (intro consume; simp add: set_status_def)+

lemma consumes_prefix [consume]: "consumes (DecodePrefix_10 b)" "consumes (DecodePrefix_11 b)"
  unfolding DecodePrefix_10_def DecodePrefix_11_def Let_def by (intro consume)+

lemma consumes_Decode_byte: "consumes (Decode_byte b)"
  unfolding Decode_byte_def Let_def by (intro consume) simp_all

lemma Decode_shortens:
  assumes "Exidx_Decode s = (r, t)" and "exidx_data s \<noteq> []"
  shows "length (exidx_data t) < length (exidx_data s)"
proof -
  obtain b bs where data: "exidx_data s = b # bs"
    using assms(2) by (auto simp: neq_Nil_conv)
  then have "Decode_byte b ((set_status ARM_STATUS_NONE s)\<lparr>exidx_data := bs\<rparr>) = (r, t)"
    using assms(1) by (simp add: Exidx_Decode_def bnd_def GetByte_def set_status_def)
  with consumes_Decode_byte [of b] have "length (exidx_data t) \<le> length bs"
    unfolding consumes_def
    by (metis arm_exidx.select_convs(3) arm_exidx.surjective arm_exidx.update_convs(3) snd_conv)
  then show ?thesis
    by (simp add: data)
qed

text \<open>\<^verbatim>\<open>while (Decode());\<close>\<close>

function Exidx_Eval_loop :: "unit exidx_prog" where
  "Exidx_Eval_loop s =
     (case Exidx_Decode s of
        (Ok _, t) \<Rightarrow> Exidx_Eval_loop t
      | (Fail, t) \<Rightarrow> (Ok (), t)
      | (Crash c, t) \<Rightarrow> (Crash c, t))"
  by pat_completeness auto
termination
proof (relation "measure (\<lambda>s. length (exidx_data s))")
  fix s x y t assume run: "(x, t) = Exidx_Decode s" "x = Ok y"
  have "exidx_data s \<noteq> []"
  proof
    assume "exidx_data s = []"
    then have "fst (Exidx_Decode s) = Fail"
      by (simp add: Exidx_Decode_def bnd_def GetByte_def set_status_def)
    then show False
      using run by (metis fst_conv outcome.distinct(1))
  qed
  with Decode_shortens [OF run(1) [symmetric]] show "(t, s) \<in> measure (\<lambda>s. length (exidx_data s))"
    by simp
qed simp

declare Exidx_Eval_loop.simps [simp del]

definition Exidx_Eval :: "unit exidx_prog" where
  "Exidx_Eval =
     bnd (modify (\<lambda>s. s\<lparr>pc_set := False\<rparr>)) (\<lambda>_.
     bnd Exidx_Eval_loop (\<lambda>_.
     bnd (gets exidx_status) (\<lambda>st.
     if st = ARM_STATUS_FINISH then ret () else fail_with id)))"

end
