(* ===== verification/Arm_Exidx_Machine.thy ===== *)
theory Arm_Exidx_Machine
  imports Arm_Exidx Dwarf_Memory
begin

text \<open>
  The instructions of the ARM exception handling ABI, their encoding and their effect on a virtual stack
  pointer and the core registers, and the proof that \<^verbatim>\<open>Decode\<close> and \<^verbatim>\<open>Eval\<close> implement them.
\<close>

unbundle bit_operations_syntax

section \<open>Instructions of the ABI\<close>

datatype arm_insn =
    VspAdd nat | VspSub nat | PopMask nat | VspReg nat | PopRange nat bool | PopLow nat | VspAddUleb nat
  | PopFstmfdx nat nat | PopFstmfdx8 nat | PopWmmx10 nat | PopWmmx nat nat | PopWcgr nat
  | PopVpush16 nat nat | PopVpush nat nat | PopVpush8 nat

fun insn_bytes :: "arm_insn \<Rightarrow> u8 list" where
  "insn_bytes (VspAdd n) = [of_nat n]"
| "insn_bytes (VspSub n) = [of_nat (64 + n)]"
| "insn_bytes (PopMask m) = [of_nat (128 + m div 256), of_nat (m mod 256)]"
| "insn_bytes (VspReg r) = [of_nat (144 + r)]"
| "insn_bytes (PopRange n lr) = [of_nat (160 + n + (if lr then 8 else 0))]"
| "insn_bytes (PopLow m) = [0xb1, of_nat m]"
| "insn_bytes (VspAddUleb n) = 0xb2 # uleb128 n"
| "insn_bytes (PopFstmfdx start n) = [0xb3, of_nat (16 * start + n)]"
| "insn_bytes (PopFstmfdx8 n) = [of_nat (184 + n)]"
| "insn_bytes (PopWmmx10 n) = [of_nat (192 + n)]"
| "insn_bytes (PopWmmx start n) = [0xc6, of_nat (16 * start + n)]"
| "insn_bytes (PopWcgr m) = [0xc7, of_nat m]"
| "insn_bytes (PopVpush16 start n) = [0xc8, of_nat (16 * start + n)]"
| "insn_bytes (PopVpush start n) = [0xc9, of_nat (16 * start + n)]"
| "insn_bytes (PopVpush8 n) = [of_nat (208 + n)]"

text \<open>The operands that have an encoding with that meaning.\<close>

fun insn_ok :: "arm_insn \<Rightarrow> bool" where
  "insn_ok (VspAdd n) = (n < 64)"
| "insn_ok (VspSub n) = (n < 64)"
| "insn_ok (PopMask m) = (0 < m \<and> m < 4096)"
| "insn_ok (VspReg r) = (r < 16 \<and> r \<noteq> 13 \<and> r \<noteq> 15)"
| "insn_ok (PopRange n lr) = (n < 8)"
| "insn_ok (PopLow m) = (0 < m \<and> m < 16)"
| "insn_ok (VspAddUleb n) = (n < 2 ^ 32)"
| "insn_ok (PopFstmfdx start n) = (start < 16 \<and> n < 16)"
| "insn_ok (PopFstmfdx8 n) = (n < 8)"
| "insn_ok (PopWmmx10 n) = (n < 6)"
| "insn_ok (PopWmmx start n) = (start < 16 \<and> n < 16)"
| "insn_ok (PopWcgr m) = (0 < m \<and> m < 16)"
| "insn_ok (PopVpush16 start n) = (start < 16 \<and> n < 16)"
| "insn_ok (PopVpush start n) = (start < 16 \<and> n < 16)"
| "insn_ok (PopVpush8 n) = (n < 8)"

record vframe =
  vsp :: u32
  core :: "u32 list"
  pc_popped :: bool

fun pop_all :: "(u32 \<Rightarrow> u32 option) \<Rightarrow> nat list \<Rightarrow> vframe \<Rightarrow> vframe option" where
  "pop_all load [] f = Some f"
| "pop_all load (r # rs) f =
     (case load (vsp f) of
        None \<Rightarrow> None
      | Some v \<Rightarrow> pop_all load rs (f\<lparr>vsp := vsp f + 4, core := (core f)[r := v]\<rparr>))"

text \<open>Registers 4 to 15 by a mask: the new stack pointer is the popped one if there is one.\<close>

definition pop_mask :: "(u32 \<Rightarrow> u32 option) \<Rightarrow> nat \<Rightarrow> vframe \<Rightarrow> vframe option" where
  "pop_mask load m f =
     map_option (\<lambda>g. g\<lparr>vsp := (if bit m 9 then core g ! 13 else vsp g), pc_popped := (bit m 11 \<or> pc_popped g)\<rparr>)
       (pop_all load (map (\<lambda>i. i + 4) (filter (bit m) [0..<12])) f)"

definition skip :: "nat \<Rightarrow> vframe \<Rightarrow> vframe option" where
  "skip n f = Some (f\<lparr>vsp := vsp f + of_nat n\<rparr>)"

fun insn_effect :: "(u32 \<Rightarrow> u32 option) \<Rightarrow> arm_insn \<Rightarrow> vframe \<Rightarrow> vframe option" where
  "insn_effect load (VspAdd n) = skip (4 * n + 4)"
| "insn_effect load (VspSub n) = (\<lambda>f. Some (f\<lparr>vsp := vsp f - of_nat (4 * n + 4)\<rparr>))"
| "insn_effect load (PopMask m) = pop_mask load m"
| "insn_effect load (VspReg r) = (\<lambda>f. Some (f\<lparr>vsp := core f ! r\<rparr>))"
| "insn_effect load (PopRange n lr) = pop_all load ([4..<5 + n] @ (if lr then [14] else []))"
| "insn_effect load (PopLow m) = pop_all load (filter (bit m) [0..<4])"
| "insn_effect load (VspAddUleb n) = skip (0x204 + 4 * n)"
| "insn_effect load (PopFstmfdx start n) = skip (8 * (n + 1) + 4)"
| "insn_effect load (PopFstmfdx8 n) = skip (8 * (n + 1) + 4)"
| "insn_effect load (PopWmmx10 n) = skip (8 * (n + 1))"
| "insn_effect load (PopWmmx start n) = skip (8 * (n + 1))"
| "insn_effect load (PopWcgr m) = skip (4 * length (filter (bit m) [0..<4]))"
| "insn_effect load (PopVpush16 start n) = skip (8 * (n + 1))"
| "insn_effect load (PopVpush start n) = skip (8 * (n + 1))"
| "insn_effect load (PopVpush8 n) = skip (8 * (n + 1))"

fun run_insns :: "(u32 \<Rightarrow> u32 option) \<Rightarrow> arm_insn list \<Rightarrow> vframe \<Rightarrow> vframe option" where
  "run_insns load [] f = Some f"
| "run_insns load (i # is) f = Option.bind (insn_effect load i f) (run_insns load is)"

section \<open>Bits of bytes\<close>

lemma high_bits_of_nat: "n < 256 \<Longrightarrow> high_bits k (of_nat n) = n div 2 ^ k"
  unfolding high_bits_def unsigned_drop_bit_eq by (simp add: unat_byte drop_bit_eq_div take_bit_eq_mod)

lemma low_bits_of_nat: "n < 256 \<Longrightarrow> low_bits k (of_nat n) = n mod 2 ^ k"
  unfolding low_bits_def unsigned_take_bit_eq by (simp add: unat_byte take_bit_eq_mod)

lemma and_low_bits:
  "(ucast (of_nat n AND 0x3f :: u8) :: u32) = of_nat (n mod 64)"
  "(ucast (of_nat n AND 0xf :: u8) :: u32) = of_nat (n mod 16)" "(ucast (of_nat n AND 7 :: u8) :: u32) = of_nat (n mod 8)"
  "(ucast (of_nat n AND 0xf :: u8) :: u16) = of_nat (n mod 16)"
proof -
  have masks: "(0x3f :: u8) = mask 6" "(0xf :: u8) = mask 4" "(7 :: u8) = mask 3"
    by (simp_all add: mask_eq_exp_minus_1)
  have "unat (of_nat n AND 0x3f :: u8) = n mod 64" "unat (of_nat n AND 0xf :: u8) = n mod 16"
      "unat (of_nat n AND 7 :: u8) = n mod 8"
    unfolding masks unat_and_mask by (simp_all add: unat_of_nat mod_mod_cancel)
  then show "(ucast (of_nat n AND 0x3f :: u8) :: u32) = of_nat (n mod 64)"
      "(ucast (of_nat n AND 0xf :: u8) :: u32) = of_nat (n mod 16)" "(ucast (of_nat n AND 7 :: u8) :: u32) = of_nat (n mod 8)"
      "(ucast (of_nat n AND 0xf :: u8) :: u16) = of_nat (n mod 16)"
    by (simp_all add: unsigned_ucast_eq word_unat_eq_iff unat_of_nat take_bit_eq_mod)
qed

lemma and_not_7: "n < 256 \<Longrightarrow> (of_nat n AND NOT 7 :: u8) = of_nat (n div 8 * 8)"
proof -
  have "list_all (\<lambda>n. (of_nat n AND NOT 7 :: u8) = of_nat (n div 8 * 8)) [0..<256]"
    by code_simp
  then show "n < 256 \<Longrightarrow> (of_nat n AND NOT 7 :: u8) = of_nat (n div 8 * 8)"
    by (simp only: list_all_iff set_upt) simp
qed

lemma bit_byte_of_nat: "k < 8 \<Longrightarrow> bit (of_nat n :: u8) k \<longleftrightarrow> bit n k"
  by (simp add: bit_of_nat_iff)

lemma mask_registers:
  assumes "m < 4096"
  shows "(push_bit 8 (ucast (of_nat (128 + m div 256) AND 0xf :: u8)) OR ucast (of_nat (m mod 256) :: u8) :: u16) = of_nat m"
proof -
  have "(ucast (of_nat (128 + m div 256) AND 0xf :: u8) :: u16) = of_nat (m div 256)"
  proof -
    have "m div 256 < 16"
      using assms by (simp add: div_less_iff_less_mult)
    then have "(128 + m div 256) mod 16 = m div 256"
      using mod_mult_self4 [of 16 8 "m div 256"] by simp
    then show ?thesis
      by (simp only: and_low_bits)
  qed
  moreover have "(ucast (of_nat (m mod 256) :: u8) :: u16) = of_nat (m mod 256)"
    by (simp add: word_unat_eq_iff unsigned_ucast_eq unat_of_nat take_bit_eq_mod)
  moreover have "(push_bit 8 (of_nat (m div 256)) OR of_nat (m mod 256) :: u16) = of_nat m"
  proof -
    have "m div 256 = drop_bit 8 m" "m mod 256 = take_bit 8 m"
      by (simp_all add: drop_bit_eq_div take_bit_eq_mod)
    then show ?thesis
      by (intro bit_word_eqI)
        (auto simp: bit_or_iff bit_push_bit_iff bit_of_nat_iff bit_drop_bit_eq bit_take_bit_iff not_less)
  qed
  ultimately show ?thesis
    by simp
qed

section \<open>Refinement\<close>

definition frame_of :: "arm_exidx \<Rightarrow> vframe" where
  "frame_of s = \<lparr>vsp = exidx_cfa s, core = reg_vals (exidx_regs s), pc_popped = pc_set s\<rparr>"

definition with_frame :: "vframe \<Rightarrow> arm_exidx \<Rightarrow> arm_exidx" where
  "with_frame f s = s\<lparr>exidx_cfa := vsp f, exidx_regs := (exidx_regs s)\<lparr>reg_vals := core f\<rparr>, pc_set := pc_popped f\<rparr>"

definition load_of :: "arm_exidx \<Rightarrow> u32 \<Rightarrow> u32 option" where
  "load_of s addr = read_word (exidx_process_memory s) (ucast addr)"

text \<open>A call started in \<open>s\<close> ends in the given frame, or with a failed read if there is none.\<close>

fun reaches :: "arm_exidx \<Rightarrow> vframe option \<Rightarrow> unit outcome \<times> arm_exidx \<Rightarrow> bool" where
  "reaches s (Some f) (r, t) = (r = Ok () \<and> t = with_frame f s)"
| "reaches s None (r, t) = (r = Fail \<and> exidx_status t = ARM_STATUS_READ_FAILED)"

lemma frame_of_with_frame [simp]: "frame_of (with_frame f s) = f"
  by (simp add: frame_of_def with_frame_def)

lemma with_frame_frame_of [simp]: "with_frame (frame_of s) s = s"
  by (simp add: frame_of_def with_frame_def)

lemma with_frame_twice [simp]: "with_frame f (with_frame g s) = with_frame f s"
  by (simp add: with_frame_def)

lemma load_of_with_frame [simp]: "load_of (with_frame f s) = load_of s"
  by (simp add: load_of_def with_frame_def fun_eq_iff)

lemma frame_of_updates [simp]:
  "frame_of (s\<lparr>exidx_data := bs\<rparr>) = frame_of s" "frame_of (s\<lparr>exidx_status := st\<rparr>) = frame_of s"
  "load_of (s\<lparr>exidx_data := bs\<rparr>) = load_of s" "load_of (s\<lparr>exidx_status := st\<rparr>) = load_of s"
  by (simp_all add: frame_of_def load_of_def fun_eq_iff)

lemma reaches_skip: "n = of_nat k \<Longrightarrow> reaches s (skip k (frame_of s)) (add_cfa n s)"
  by (simp add: skip_def add_cfa_def with_frame_def frame_of_def)

lemma reaches_skip_doubles [simp]:
  "reaches s (skip (12 + 8 * n) (frame_of s)) (add_cfa (of_nat n * 8 + 12) s)"
  "reaches s (skip (8 + 8 * n) (frame_of s)) (add_cfa (of_nat n * 8 + 8) s)"
  by (simp_all add: reaches_skip)

lemma reaches_pop_reg:
  assumes "r < length (reg_vals (exidx_regs s))"
  shows "reaches s (pop_all (load_of s) [r] (frame_of s)) (pop_reg r s)"
proof -
  let ?bs = "exidx_process_memory s (ucast (exidx_cfa s)) 4"
  have "sizeof TYPE(32) = 4"
    by (simp add: sizeof_def)
  then show ?thesis
    using assms overlay_full [of ?bs "reg_vals (exidx_regs s) ! r"]
    by (auto simp: pop_reg_def load_of_def frame_of_def with_frame_def read_word_def ReadFully_def read_into_def Let_def
        set_read_failed_def)
qed

lemma length_pop_all: "pop_all load rs f = Some g \<Longrightarrow> length (core g) = length (core f)"
  by (induction rs arbitrary: f) (auto split: option.splits)

lemma reaches_pop_regs:
  "\<forall>r \<in> set rs. r < length (reg_vals (exidx_regs s)) \<Longrightarrow> reaches s (pop_all (load_of s) rs (frame_of s)) (pop_regs rs s)"
proof (induction rs arbitrary: s)
  case (Cons r rs)
  let ?f = "pop_all (load_of s) [r] (frame_of s)"
  obtain res t where run: "pop_reg r s = (res, t)"
    by fastforce
  have step: "reaches s ?f (res, t)"
    using reaches_pop_reg [of r s] Cons.prems run by simp
  show ?case
  proof (cases ?f)
    case None
    with step run show ?thesis
      by (auto simp: bnd_def split: option.splits)
  next
    case (Some g)
    then have t: "res = Ok ()" "t = with_frame g s" "length (reg_vals (exidx_regs t)) = length (reg_vals (exidx_regs s))"
      using step length_pop_all [OF Some] by (auto simp: with_frame_def frame_of_def)
    have "reaches t (pop_all (load_of t) rs (frame_of t)) (pop_regs rs t)"
      using Cons t(3) by auto
    then have "reaches s (pop_all (load_of s) rs g) (pop_regs rs t)"
      by (cases "pop_all (load_of s) rs g"; cases "pop_regs rs t") (auto simp: t(2))
    then show ?thesis
      using Some run t(1) by (auto simp: bnd_def split: option.splits)
  qed
qed simp

lemma or_push_bit: "unat (r :: u32) < 2 ^ k \<Longrightarrow> r OR push_bit k x = r + push_bit k x"
proof -
  assume small: "unat r < 2 ^ k"
  have "\<not> bit r n" if "k \<le> n" for n
  proof -
    have "unat r < 2 ^ n"
      using small that by (meson order.strict_trans2 power_increasing one_le_numeral)
    then show ?thesis
      using bit_unsigned_iff [of r n, where ?'a = nat] by (simp add: bit_nat_def)
  qed
  then show ?thesis
    by (intro disjunctive_add [symmetric]) (auto simp: bit_push_bit_iff)
qed

lemma decode_uleb_step:
  assumes "d = unat b mod 128" and "unat r + d * 2 ^ k < 2 ^ 32" and "unat r < 2 ^ k" and "k < 32"
  shows "decode_uleb (b # bs) r k =
    (if unat b < 128 then (Ok (r + of_nat (d * 2 ^ k)), bs) else decode_uleb bs (r + of_nat (d * 2 ^ k)) (k + 7))"
proof -
  have bits: "(ucast (b AND 0x7f) :: u32) = of_nat d"
    using byte_and_7f [of b] assms(1) by (simp add: word_unat_eq_iff unat_of_nat unsigned_ucast_eq take_bit_eq_mod)
  have "d < 2 ^ (32 - k)"
  proof -
    have "d * 2 ^ k < 2 ^ (32 - k) * 2 ^ k"
      using assms(2,4) by (simp flip: power_add)
    then show ?thesis
      by simp
  qed
  then have "drop_bit (32 - k) (of_nat d :: u32) = 0"
    unfolding word_unat_eq_iff unsigned_drop_bit_eq
    by (simp add: unat_of_nat take_bit_eq_mod drop_bit_eq_div less_imp_diff_less)
  moreover have "bit b 7 \<longleftrightarrow> \<not> unat b < 128"
    using byte_and_80 [of b] and_exp_eq_0_iff_not_bit [of b 7] by auto
  moreover have "r OR push_bit k (of_nat d) = r + of_nat (d * 2 ^ k)"
    using or_push_bit [OF assms(3)] by (simp add: push_bit_eq_mult mult.commute)
  ultimately show ?thesis
    using assms(4) by (simp add: bits Let_def)
qed

lemma decode_uleb_encoded:
  assumes "unat r + n * 2 ^ k < 2 ^ 32" and "unat r < 2 ^ k" and "k < 32"
  shows "decode_uleb (uleb128 n @ rest) r k = (Ok (r + of_nat (n * 2 ^ k)), rest)"
  using assms
proof (induction n arbitrary: r k rule: uleb128.induct)
  case (1 n)
  show ?case
  proof (cases "n < 128")
    case True
    then show ?thesis
      using "1.prems" by (subst uleb128.simps, simp only: if_True append.simps, subst decode_uleb_step [where d = n])
        (simp_all add: unat_byte)
  next
    case False
    let ?d = "n mod 128" and ?r = "r + of_nat (n mod 128 * 2 ^ k)"
    have le: "?d * 2 ^ k \<le> n * 2 ^ k"
      by (simp add: mult_le_mono)
    have k: "k + 7 < 32"
    proof -
      have "128 * 2 ^ k \<le> n * 2 ^ k"
        using False by (intro mult_le_mono) simp_all
      moreover have "(2 :: nat) ^ (k + 7) = 128 * 2 ^ k"
        by (simp add: power_add)
      ultimately have "(2 :: nat) ^ (k + 7) < 2 ^ 32"
        using "1.prems"(1) by linarith
      then show ?thesis
        by (metis nat_power_less_imp_less zero_less_numeral)
    qed
    have b: "unat (of_nat (?d + 128) :: u8) = ?d + 128"
      by (rule unat_byte) simp
    have r: "unat ?r = unat r + ?d * 2 ^ k"
    proof (rule unat_add_of_nat)
      have "unat r + ?d * 2 ^ k < 2 ^ 32"
        using "1.prems"(1) le by linarith
      then show "unat r + ?d * 2 ^ k < 2 ^ LENGTH(32)"
        by simp
    qed
    have sum: "unat ?r + n div 128 * 2 ^ (k + 7) = unat r + n * 2 ^ k"
    proof -
      have "?d * 2 ^ k + n div 128 * 128 * 2 ^ k = n * 2 ^ k"
        by (metis add.commute add_mult_distrib div_mult_mod_eq)
      then show ?thesis
        unfolding r by (simp add: power_add algebra_simps)
    qed
    have "unat ?r < 2 ^ (k + 7)"
    proof -
      have "?d * 2 ^ k \<le> 127 * 2 ^ k"
        by (intro mult_le_mono) simp_all
      moreover have "(2 :: nat) ^ (k + 7) = 128 * 2 ^ k"
        by (simp add: power_add)
      ultimately show ?thesis
        using "1.prems"(2) unfolding r by linarith
    qed
    then have "decode_uleb (uleb128 (n div 128) @ rest) ?r (k + 7) = (Ok (?r + of_nat (n div 128 * 2 ^ (k + 7))), rest)"
      using "1.prems" sum k False by (intro "1.IH") simp_all
    moreover have "?r + of_nat (n div 128 * 2 ^ (k + 7)) = r + of_nat (n * 2 ^ k)"
      using sum r by (metis (no_types, opaque_lifting) add.assoc add_left_cancel of_nat_add)
    moreover have "decode_uleb (of_nat (?d + 128) # uleb128 (n div 128) @ rest) r k =
        decode_uleb (uleb128 (n div 128) @ rest) ?r (k + 7)"
    proof (subst decode_uleb_step [where d = ?d])
      show "unat r + ?d * 2 ^ k < 2 ^ 32"
        using "1.prems"(1) le by linarith
    qed (use "1.prems" b in simp_all)
    ultimately show ?thesis
      using False by (subst uleb128.simps) simp
  qed
qed

lemma not_logged [simp]: "log_type s = ARM_LOG_NONE \<Longrightarrow> logged p q r s = r s"
  by (simp add: logged_def)

lemma Decode_byte_run: "exidx_data s = b # bs \<Longrightarrow> Exidx_Decode s = Decode_byte b (s\<lparr>exidx_data := bs, exidx_status := ARM_STATUS_NONE\<rparr>)"
  by (cases s) (simp add: Exidx_Decode_def bnd_def GetByte_def set_status_def)

lemma GetByte_run: "exidx_data s = b # bs \<Longrightarrow> bnd GetByte p s = p b (s\<lparr>exidx_data := bs\<rparr>)"
  by (simp add: bnd_def GetByte_def)

text \<open>The instruction spaces of the ABI by the first byte.\<close>

lemma Decode_byte_switch:
  assumes "k < 256" and "log_type s = ARM_LOG_NONE"
  shows "k < 64 \<Longrightarrow> Decode_byte (of_nat k) s = add_cfa (of_nat (4 * k + 4)) s"
    "64 \<le> k \<Longrightarrow> k < 128 \<Longrightarrow> Decode_byte (of_nat k) s = add_cfa (- of_nat (4 * (k - 64) + 4)) s"
    "128 \<le> k \<Longrightarrow> k < 192 \<Longrightarrow> Decode_byte (of_nat k) s = DecodePrefix_10 (of_nat k) s"
    "192 \<le> k \<Longrightarrow> Decode_byte (of_nat k) s = DecodePrefix_11 (of_nat k) s"
proof -
  have high: "high_bits 6 (of_nat k) = k div 64"
    using assms(1) by (simp add: high_bits_of_nat)
  have off: "push_bit 2 (of_nat j :: u32) + 4 = of_nat (4 * j + 4)" for j
    by (simp add: push_bit_eq_mult)
  show "k < 64 \<Longrightarrow> Decode_byte (of_nat k) s = add_cfa (of_nat (4 * k + 4)) s"
    using assms by (simp only: Decode_byte_def Let_def high and_low_bits off) simp
  show "64 \<le> k \<Longrightarrow> k < 128 \<Longrightarrow> Decode_byte (of_nat k) s = add_cfa (- of_nat (4 * (k - 64) + 4)) s"
  proof -
    assume "64 \<le> k" "k < 128"
    then have "k div 64 = 1"
      by (intro div_nat_eqI) simp_all
    then have "k mod 64 = k - 64"
      using div_mult_mod_eq [of k 64] by simp
    note div = this \<open>k div 64 = 1\<close>
    then show ?thesis
      using assms by (simp only: Decode_byte_def Let_def high and_low_bits off div) simp
  qed
  show "Decode_byte (of_nat k) s = DecodePrefix_10 (of_nat k) s" if "128 \<le> k" "k < 192"
  proof -
    have "k div 64 = 2"
      using that by (intro div_nat_eqI) simp_all
    then show ?thesis
      by (simp only: Decode_byte_def Let_def high) simp
  qed
  show "Decode_byte (of_nat k) s = DecodePrefix_11 (of_nat k) s" if "192 \<le> k"
  proof -
    have "k div 64 = 3"
      using that assms(1) by (intro div_nat_eqI) simp_all
    then show ?thesis
      by (simp only: Decode_byte_def Let_def high) simp
  qed
qed

lemma DecodePrefix_10_switch:
  assumes "128 \<le> k" and "k < 192"
  shows "k < 144 \<Longrightarrow> DecodePrefix_10 (of_nat k) = DecodePrefix_10_00 (of_nat k)"
    "144 \<le> k \<Longrightarrow> k < 160 \<Longrightarrow> DecodePrefix_10 (of_nat k) = DecodePrefix_10_01 (of_nat k)"
    "160 \<le> k \<Longrightarrow> k < 176 \<Longrightarrow> DecodePrefix_10 (of_nat k) = DecodePrefix_10_10 (of_nat k)"
    "k = 176 \<Longrightarrow> DecodePrefix_10 (of_nat k) = DecodePrefix_10_11_0000"
    "k = 177 \<Longrightarrow> DecodePrefix_10 (of_nat k) = DecodePrefix_10_11_0001"
    "k = 178 \<Longrightarrow> DecodePrefix_10 (of_nat k) = DecodePrefix_10_11_0010"
    "k = 179 \<Longrightarrow> DecodePrefix_10 (of_nat k) = DecodePrefix_10_11_0011"
    "184 \<le> k \<Longrightarrow> DecodePrefix_10 (of_nat k) = DecodePrefix_10_11_1nnn (of_nat k)"
proof -
  have fields: "high_bits 6 (of_nat k) = k div 64" "high_bits 4 (of_nat k) = k div 16" "low_bits 4 (of_nat k) = k mod 16"
      "bit (of_nat k :: u8) 3 \<longleftrightarrow> odd (k div 8)"
    using assms(2) by (simp_all add: high_bits_of_nat low_bits_of_nat bit_byte_of_nat bit_nat_def)
  have two: "k div 64 = 2"
    using assms by (intro div_nat_eqI) simp_all
  note switch = DecodePrefix_10_def [of "of_nat k", unfolded fields two Let_def, simplified]
  show "k < 144 \<Longrightarrow> DecodePrefix_10 (of_nat k) = DecodePrefix_10_00 (of_nat k)"
    "144 \<le> k \<Longrightarrow> k < 160 \<Longrightarrow> DecodePrefix_10 (of_nat k) = DecodePrefix_10_01 (of_nat k)"
    "160 \<le> k \<Longrightarrow> k < 176 \<Longrightarrow> DecodePrefix_10 (of_nat k) = DecodePrefix_10_10 (of_nat k)"
    "184 \<le> k \<Longrightarrow> DecodePrefix_10 (of_nat k) = DecodePrefix_10_11_1nnn (of_nat k)"
  proof -
    have "k div 16 = 8" if "k < 144"
      using that assms by (intro div_nat_eqI) simp_all
    then show "k < 144 \<Longrightarrow> DecodePrefix_10 (of_nat k) = DecodePrefix_10_00 (of_nat k)"
      by (simp add: switch)
    have "k div 16 = 9" if "144 \<le> k" "k < 160"
      using that assms by (intro div_nat_eqI) simp_all
    then show "144 \<le> k \<Longrightarrow> k < 160 \<Longrightarrow> DecodePrefix_10 (of_nat k) = DecodePrefix_10_01 (of_nat k)"
      by (simp add: switch)
    have "k div 16 = 10" if "160 \<le> k" "k < 176"
      using that assms by (intro div_nat_eqI) simp_all
    then show "160 \<le> k \<Longrightarrow> k < 176 \<Longrightarrow> DecodePrefix_10 (of_nat k) = DecodePrefix_10_10 (of_nat k)"
      by (simp add: switch)
    have "k div 16 = 11" "k div 8 = 23" if "184 \<le> k"
      using that assms by (intro div_nat_eqI; simp)+
    moreover from this have "k mod 16 \<ge> 8" if "184 \<le> k"
      using div_mult_mod_eq [of k 16] that by simp
    ultimately show "184 \<le> k \<Longrightarrow> DecodePrefix_10 (of_nat k) = DecodePrefix_10_11_1nnn (of_nat k)"
      by (force simp: switch)
  qed
  show "k = 176 \<Longrightarrow> DecodePrefix_10 (of_nat k) = DecodePrefix_10_11_0000"
    "k = 177 \<Longrightarrow> DecodePrefix_10 (of_nat k) = DecodePrefix_10_11_0001"
    "k = 178 \<Longrightarrow> DecodePrefix_10 (of_nat k) = DecodePrefix_10_11_0010"
    "k = 179 \<Longrightarrow> DecodePrefix_10 (of_nat k) = DecodePrefix_10_11_0011"
    by (subst switch, simp)+
qed

lemma DecodePrefix_11_switch:
  assumes "192 \<le> k" and "k < 256"
  shows "k < 200 \<Longrightarrow> DecodePrefix_11 (of_nat k) = DecodePrefix_11_000 (of_nat k)"
    "200 \<le> k \<Longrightarrow> k < 208 \<Longrightarrow> DecodePrefix_11 (of_nat k) = DecodePrefix_11_001 (of_nat k)"
    "208 \<le> k \<Longrightarrow> k < 216 \<Longrightarrow> DecodePrefix_11 (of_nat k) = DecodePrefix_11_010 (of_nat k)"
proof -
  have fields: "high_bits 6 (of_nat k) = k div 64" "high_bits 3 (of_nat k) = k div 8"
    using assms(2) by (simp_all add: high_bits_of_nat)
  have three: "k div 64 = 3"
    using assms by (intro div_nat_eqI) simp_all
  note switch = DecodePrefix_11_def [of "of_nat k", unfolded fields three Let_def, simplified]
  have "k div 8 = 24" if "k < 200"
    using that assms by (intro div_nat_eqI) simp_all
  then show "k < 200 \<Longrightarrow> DecodePrefix_11 (of_nat k) = DecodePrefix_11_000 (of_nat k)"
    by (simp add: switch)
  have "k div 8 = 25" if "200 \<le> k" "k < 208"
    using that assms by (intro div_nat_eqI) simp_all
  then show "200 \<le> k \<Longrightarrow> k < 208 \<Longrightarrow> DecodePrefix_11 (of_nat k) = DecodePrefix_11_001 (of_nat k)"
    by (simp add: switch)
  have "k div 8 = 26" if "208 \<le> k" "k < 216"
    using that assms by (intro div_nat_eqI) simp_all
  then show "208 \<le> k \<Longrightarrow> k < 216 \<Longrightarrow> DecodePrefix_11 (of_nat k) = DecodePrefix_11_010 (of_nat k)"
    by (simp add: switch)
qed

text \<open>The instructions with their operands in the first byte.\<close>

lemma base_plus:
  "n < 8 \<Longrightarrow> (8 * b + n) div 8 * 8 = 8 * b" "n < 8 \<Longrightarrow> (8 * b + n) mod 8 = n"
  "n < 16 \<Longrightarrow> (16 * b + n) div 16 = b" "n < 16 \<Longrightarrow> (16 * b + n) mod 16 = n" for b n :: nat
  by simp_all

lemma reaches_one_byte:
  assumes "log_type s = ARM_LOG_NONE"
  shows "n < 64 \<Longrightarrow> reaches s (skip (4 * n + 4) (frame_of s)) (Decode_byte (of_nat n) s)"
    "n < 64 \<Longrightarrow> reaches s (Some ((frame_of s)\<lparr>vsp := vsp (frame_of s) - of_nat (4 * n + 4)\<rparr>)) (Decode_byte (of_nat (64 + n)) s)"
    "n < 16 \<Longrightarrow> n \<noteq> 13 \<Longrightarrow> n \<noteq> 15 \<Longrightarrow> n < length (reg_vals (exidx_regs s)) \<Longrightarrow>
       reaches s (Some ((frame_of s)\<lparr>vsp := core (frame_of s) ! n\<rparr>)) (Decode_byte (of_nat (144 + n)) s)"
    "n < 8 \<Longrightarrow> reaches s (skip (8 * (n + 1) + 4) (frame_of s)) (Decode_byte (of_nat (184 + n)) s)"
    "n < 6 \<Longrightarrow> reaches s (skip (8 * (n + 1)) (frame_of s)) (Decode_byte (of_nat (192 + n)) s)"
    "n < 8 \<Longrightarrow> reaches s (skip (8 * (n + 1)) (frame_of s)) (Decode_byte (of_nat (208 + n)) s)"
proof -
  show "reaches s (skip (4 * n + 4) (frame_of s)) (Decode_byte (of_nat n) s)" if "n < 64"
    using that assms Decode_byte_switch(1) [of n s] by (simp add: reaches_skip)
  show "reaches s (Some ((frame_of s)\<lparr>vsp := vsp (frame_of s) - of_nat (4 * n + 4)\<rparr>)) (Decode_byte (of_nat (64 + n)) s)"
    if "n < 64"
    using that assms Decode_byte_switch(2) [of "64 + n" s] by (simp add: add_cfa_def with_frame_def frame_of_def)
  show "reaches s (Some ((frame_of s)\<lparr>vsp := core (frame_of s) ! n\<rparr>)) (Decode_byte (of_nat (144 + n)) s)"
    if "n < 16" "n \<noteq> 13" "n \<noteq> 15" "n < length (reg_vals (exidx_regs s))"
  proof -
    have "high_bits 4 (of_nat (144 + n)) = 9" "low_bits 4 (of_nat (144 + n)) = n"
      using that(1) base_plus(3,4) [of n 9] by (simp_all add: high_bits_of_nat low_bits_of_nat del: of_nat_add)
    then show ?thesis
      using that assms Decode_byte_switch(3) [of "144 + n" s] DecodePrefix_10_switch(2) [of "144 + n"]
      by (simp add: DecodePrefix_10_01_def Let_def get_exidx_reg_def bnd_def with_frame_def frame_of_def del: of_nat_add)
  qed
  show "reaches s (skip (8 * (n + 1) + 4) (frame_of s)) (Decode_byte (of_nat (184 + n)) s)" if "n < 8"
    using that assms Decode_byte_switch(3) [of "184 + n" s] DecodePrefix_10_switch(8) [of "184 + n"]
      base_plus(1,2) [of n 23] and_not_7 [of "184 + n"] and_low_bits(3) [of "184 + n"]
    by (simp add: DecodePrefix_10_11_1nnn_def del: of_nat_add)
  show "reaches s (skip (8 * (n + 1)) (frame_of s)) (Decode_byte (of_nat (192 + n)) s)" if "n < 6"
    using that assms Decode_byte_switch(4) [of "192 + n" s] DecodePrefix_11_switch(1) [of "192 + n"]
      base_plus(1,2) [of n 24] and_not_7 [of "192 + n"] and_low_bits(3) [of "192 + n"]
    by (simp add: DecodePrefix_11_000_def Let_def low_bits_of_nat del: of_nat_add)
  show "reaches s (skip (8 * (n + 1)) (frame_of s)) (Decode_byte (of_nat (208 + n)) s)" if "n < 8"
    using that assms Decode_byte_switch(4) [of "208 + n" s] DecodePrefix_11_switch(3) [of "208 + n"]
      base_plus(1,2) [of n 26] and_not_7 [of "208 + n"] and_low_bits(3) [of "208 + n"]
    by (simp add: DecodePrefix_11_010_def del: of_nat_add)
qed

text \<open>The instructions with a second byte.\<close>

lemma reaches_skip_updated:
  "reaches (s\<lparr>exidx_data := bs\<rparr>) (skip (8 + 8 * n) (frame_of s)) (add_cfa (of_nat n * 8 + 8) (s\<lparr>exidx_data := bs\<rparr>))"
  "reaches (s\<lparr>exidx_data := bs\<rparr>) (skip (12 + 8 * n) (frame_of s)) (add_cfa (of_nat n * 8 + 12) (s\<lparr>exidx_data := bs\<rparr>))"
  using reaches_skip_doubles [of "s\<lparr>exidx_data := bs\<rparr>" n] by simp_all

lemma reaches_range_byte:
  assumes "log_type s = ARM_LOG_NONE" and "exidx_data s = of_nat (16 * start + n) # rest" and "start < 16" and "n < 16"
  shows "reaches (s\<lparr>exidx_data := rest\<rparr>) (skip (8 * (n + 1) + 4) (frame_of s)) (Decode_byte 0xb3 s)"
    "reaches (s\<lparr>exidx_data := rest\<rparr>) (skip (8 * (n + 1)) (frame_of s)) (Decode_byte 0xc6 s)"
    "reaches (s\<lparr>exidx_data := rest\<rparr>) (skip (8 * (n + 1)) (frame_of s)) (Decode_byte 0xc8 s)"
    "reaches (s\<lparr>exidx_data := rest\<rparr>) (skip (8 * (n + 1)) (frame_of s)) (Decode_byte 0xc9 s)"
proof -
  have low: "(ucast (of_nat (16 * start + n) AND 0xf :: u8) :: u32) = of_nat n"
    using assms(4) by (simp only: and_low_bits base_plus)
  note GetByte = GetByte_run [OF assms(2)]
  have "Decode_byte 0xb3 s = DecodePrefix_10_11_0011 s"
    using Decode_byte_switch(3) [of 179 s] DecodePrefix_10_switch(7) [of 179] assms(1) by simp
  then show "reaches (s\<lparr>exidx_data := rest\<rparr>) (skip (8 * (n + 1) + 4) (frame_of s)) (Decode_byte 0xb3 s)"
    using assms(1) by (simp add: DecodePrefix_10_11_0011_def GetByte Let_def low reaches_skip_updated del: of_nat_add)
  have "Decode_byte 0xc6 s = DecodePrefix_11_000 0xc6 s"
    using Decode_byte_switch(4) [of 198 s] DecodePrefix_11_switch(1) [of 198] assms(1) by simp
  moreover have "0xc6 AND NOT 7 = (0xc0 :: u8)" "low_bits 3 0xc6 = 6"
    using and_not_7 [of 198] low_bits_of_nat [of 198 3] by simp_all
  ultimately show "reaches (s\<lparr>exidx_data := rest\<rparr>) (skip (8 * (n + 1)) (frame_of s)) (Decode_byte 0xc6 s)"
    using assms(1) by (simp add: DecodePrefix_11_000_def GetByte Let_def low reaches_skip_updated del: of_nat_add)
  have "Decode_byte 0xc8 s = DecodePrefix_11_001 0xc8 s" "Decode_byte 0xc9 s = DecodePrefix_11_001 0xc9 s"
    using Decode_byte_switch(4) [of 200 s] DecodePrefix_11_switch(2) [of 200]
      Decode_byte_switch(4) [of 201 s] DecodePrefix_11_switch(2) [of 201] assms(1) by simp_all
  moreover have "0xc8 AND NOT 7 = (0xc8 :: u8)" "low_bits 3 0xc8 = 0" "0xc9 AND NOT 7 = (0xc8 :: u8)" "low_bits 3 0xc9 = 1"
    using and_not_7 [of 200] low_bits_of_nat [of 200 3] and_not_7 [of 201] low_bits_of_nat [of 201 3] by simp_all
  ultimately show "reaches (s\<lparr>exidx_data := rest\<rparr>) (skip (8 * (n + 1)) (frame_of s)) (Decode_byte 0xc8 s)"
    "reaches (s\<lparr>exidx_data := rest\<rparr>) (skip (8 * (n + 1)) (frame_of s)) (Decode_byte 0xc9 s)"
    using assms(1) by (simp_all add: DecodePrefix_11_001_def GetByte Let_def low reaches_skip_updated del: of_nat_add)
qed

lemma filter_bits: "k \<le> 8 \<Longrightarrow> filter (bit (of_nat m :: u8)) [0..<k] = filter (bit m) [0..<k]"
  by (rule filter_cong) (auto simp: bit_byte_of_nat)

lemma popcount_low: "m < 16 \<Longrightarrow> popcount (of_nat m) = length (filter (bit m) [0..<4])"
proof -
  assume "m < 16"
  then have "\<not> bit m k" if "4 \<le> k" for k
  proof -
    have "16 \<le> (2 :: nat) ^ k"
      using power_increasing [OF that, of "2 :: nat"] by simp
    with \<open>m < 16\<close> have "m < 2 ^ k"
      by linarith
    then show ?thesis
      by (simp add: bit_nat_def)
  qed
  then have "filter (bit m) [4..<8] = []"
    by (simp add: filter_empty_conv)
  then have "filter (bit m) [0..<8] = filter (bit m) [0..<4]"
    using upt_add_eq_append [of 0 4 4] by (metis add.left_neutral append_Nil2 filter_append le0 numeral_Bit0)
  then show ?thesis
    by (simp only: popcount_def filter_bits order_refl)
qed

lemma reaches_mask_byte:
  assumes "log_type s = ARM_LOG_NONE" and "exidx_data s = of_nat m # rest" and "0 < m" and "m < 16"
    and "16 \<le> length (reg_vals (exidx_regs s))"
  shows "reaches (s\<lparr>exidx_data := rest\<rparr>) (pop_all (load_of s) (filter (bit m) [0..<4]) (frame_of s)) (Decode_byte 0xb1 s)"
    "reaches (s\<lparr>exidx_data := rest\<rparr>) (skip (4 * length (filter (bit m) [0..<4])) (frame_of s)) (Decode_byte 0xc7 s)"
proof -
  note GetByte = GetByte_run [OF assms(2)]
  have m: "(of_nat m :: u8) \<noteq> 0" "high_bits 4 (of_nat m) = 0"
    using assms(3,4) by (simp_all add: high_bits_of_nat word_unat_eq_iff unat_byte)
  have "Decode_byte 0xb1 s = DecodePrefix_10_11_0001 s"
    using Decode_byte_switch(3) [of 177 s] DecodePrefix_10_switch(5) [of 177] assms(1) by simp
  moreover have "\<forall>r \<in> set (filter (bit m) [0..<4]). r < length (reg_vals (exidx_regs (s\<lparr>exidx_data := rest\<rparr>)))"
    using assms(5) by auto
  ultimately show "reaches (s\<lparr>exidx_data := rest\<rparr>) (pop_all (load_of s) (filter (bit m) [0..<4]) (frame_of s)) (Decode_byte 0xb1 s)"
    using assms(1) m reaches_pop_regs [of "filter (bit m) [0..<4]" "s\<lparr>exidx_data := rest\<rparr>"]
    by (simp add: DecodePrefix_10_11_0001_def GetByte Let_def filter_bits)
  have "Decode_byte 0xc7 s = DecodePrefix_11_000 0xc7 s"
    using Decode_byte_switch(4) [of 199 s] DecodePrefix_11_switch(1) [of 199] assms(1) by simp
  moreover have "0xc7 AND NOT 7 = (0xc0 :: u8)" "low_bits 3 0xc7 = 7"
    using and_not_7 [of 199] low_bits_of_nat [of 199 3] by simp_all
  ultimately show "reaches (s\<lparr>exidx_data := rest\<rparr>) (skip (4 * length (filter (bit m) [0..<4])) (frame_of s)) (Decode_byte 0xc7 s)"
    using assms(1,4) m reaches_skip [of "of_nat (length (filter (bit m) [0..<4])) * 4" "4 * length (filter (bit m) [0..<4])"
        "s\<lparr>exidx_data := rest\<rparr>"]
    by (simp add: DecodePrefix_11_000_def GetByte Let_def popcount_low)
qed

lemma reaches_pop_range:
  assumes "log_type s = ARM_LOG_NONE" and "n < 8" and "16 \<le> length (reg_vals (exidx_regs s))"
  shows "reaches s (pop_all (load_of s) ([4..<5 + n] @ (if lr then [14] else [])) (frame_of s))
    (Decode_byte (of_nat (160 + n + (if lr then 8 else 0))) s)"
proof -
  let ?k = "160 + n + (if lr then 8 else 0)" and ?rs = "[4..<5 + n] @ (if lr then [14] else [])"
  have k: "?k < 176" "?k div 8 = 20 + (if lr then 1 else 0)" "?k mod 8 = n" "?k div 16 = 10"
    using assms(2) base_plus(2) [of n 20] base_plus(2) [of n 21]
    by (auto intro: div_nat_eqI simp: add.commute)
  have "Decode_byte (of_nat ?k) s = DecodePrefix_10_10 (of_nat ?k) s"
    using Decode_byte_switch(3) [of ?k s] DecodePrefix_10_switch(3) [of ?k] assms(1) k(1) by simp
  moreover have "high_bits 4 (of_nat ?k) = 10" "low_bits 3 (of_nat ?k) = n" "bit (of_nat ?k :: u8) 3 \<longleftrightarrow> lr"
    using k by (simp_all add: high_bits_of_nat low_bits_of_nat bit_byte_of_nat bit_nat_def del: of_nat_add)
  moreover have "\<forall>r \<in> set ?rs. r < length (reg_vals (exidx_regs s))"
    using assms(2,3) by auto
  ultimately show ?thesis
    using assms(1) reaches_pop_regs [of ?rs s] by (simp add: DecodePrefix_10_10_def Let_def del: of_nat_add)
qed

lemma shifted_mask:
  "mask_regs (of_nat m) = map (\<lambda>i. i + 4) (filter (bit m) [0..<12])"
proof -
  have "[4..<16] = map (\<lambda>i. i + 4) [0..<12]"
    by (simp add: map_add_upt)
  moreover have "filter (bit (push_bit 4 (of_nat m :: u16))) (map (\<lambda>i. i + 4) [0..<12]) =
      map (\<lambda>i. i + 4) (filter (bit m) [0..<12])"
    by (auto simp: filter_map o_def bit_push_bit_iff bit_of_nat_iff intro!: arg_cong [where f = "map _"] filter_cong)
  ultimately show ?thesis
    by (simp only: mask_regs_def)
qed

lemma reaches_pop_mask:
  assumes "log_type s = ARM_LOG_NONE" and "exidx_data s = of_nat (m mod 256) # rest" and "0 < m" and "m < 4096"
    and "16 \<le> length (reg_vals (exidx_regs s))"
  shows "reaches (s\<lparr>exidx_data := rest\<rparr>) (pop_mask (load_of s) m (frame_of s)) (Decode_byte (of_nat (128 + m div 256)) s)"
proof -
  let ?k = "128 + m div 256" and ?rs = "map (\<lambda>i. i + 4) (filter (bit m) [0..<12])" and ?s = "s\<lparr>exidx_data := rest\<rparr>"
  have k: "?k < 144" "?k div 16 = 8"
  proof -
    have "m div 256 < 16"
      using assms(4) by (simp add: div_less_iff_less_mult)
    then show "?k < 144" "?k div 16 = 8"
      by (auto intro: div_nat_eqI)
  qed
  have "Decode_byte (of_nat ?k) s = DecodePrefix_10_00 (of_nat ?k) s"
    using Decode_byte_switch(3) [of ?k s] DecodePrefix_10_switch(1) [of ?k] assms(1) k(1) by simp
  moreover have "high_bits 4 (of_nat ?k) = 8"
    using k by (simp add: high_bits_of_nat del: of_nat_add)
  moreover have "(of_nat m :: u16) \<noteq> 0"
    using assms(3,4) by (simp add: word_unat_eq_iff unat_of_nat)
  moreover have "bit (push_bit 4 (of_nat m :: u16)) 13 = bit m 9" "bit (push_bit 4 (of_nat m :: u16)) 15 = bit m 11"
    by (simp_all add: bit_push_bit_iff bit_of_nat_iff)
  ultimately have run: "Decode_byte (of_nat ?k) s =
      bnd (pop_regs ?rs) (\<lambda>_.
      bnd (if bit m 9 then bnd (get_exidx_reg 13) (\<lambda>v. modify (\<lambda>s. s\<lparr>exidx_cfa := v\<rparr>)) else ret ()) (\<lambda>_.
      if bit m 11 then modify (\<lambda>s. s\<lparr>pc_set := True\<rparr>) else ret ())) ?s"
    using assms(1) mask_registers [OF assms(4)]
    by (simp add: DecodePrefix_10_00_def Let_def GetByte_run [OF assms(2)] pop_masked_def shifted_mask del: of_nat_add upt.simps)
  have pops: "reaches ?s (pop_all (load_of s) ?rs (frame_of s)) (pop_regs ?rs ?s)"
    using reaches_pop_regs [of ?rs ?s] assms(5) by auto
  show ?thesis
  proof (cases "pop_all (load_of s) ?rs (frame_of s)")
    case None
    with pops run show ?thesis
      by (cases "pop_regs ?rs ?s") (simp add: pop_mask_def bnd_def)
  next
    case (Some g)
    moreover have "13 < length (core g)"
      using length_pop_all [OF Some] assms(5) by (simp add: frame_of_def)
    ultimately show ?thesis
      using pops run
      by (cases "pop_regs ?rs ?s") (simp add: pop_mask_def bnd_def get_exidx_reg_def with_frame_def)
  qed
qed

lemma reaches_uleb:
  assumes "log_type s = ARM_LOG_NONE" and "exidx_data s = uleb128 n @ rest" and "n < 2 ^ 32"
  shows "reaches (s\<lparr>exidx_data := rest\<rparr>) (skip (0x204 + 4 * n) (frame_of s)) (Decode_byte 0xb2 s)"
proof -
  have "Decode_byte 0xb2 s = DecodePrefix_10_11_0010 s"
    using Decode_byte_switch(3) [of 178 s] DecodePrefix_10_switch(6) [of 178] assms(1) by simp
  moreover have "decode_uleb_operand s = (Ok (of_nat n), s\<lparr>exidx_data := rest\<rparr>)"
    using decode_uleb_encoded [of 0 n 0 rest] assms(2,3) by (simp add: decode_uleb_operand_def)
  ultimately show ?thesis
    using assms(1) reaches_skip [of "0x204 + push_bit 2 (of_nat n)" "0x204 + 4 * n" "s\<lparr>exidx_data := rest\<rparr>"]
    by (simp add: DecodePrefix_10_11_0010_def bnd_def Let_def push_bit_eq_mult)
qed

lemma Decode_insn:
  assumes "exidx_data s = insn_bytes i @ rest" and "insn_ok i" and "log_type s = ARM_LOG_NONE"
    and "length (reg_vals (exidx_regs s)) = 16"
  shows "reaches (s\<lparr>exidx_data := rest, exidx_status := ARM_STATUS_NONE\<rparr>)
    (insn_effect (load_of s) i (frame_of s)) (Exidx_Decode s)"
proof -
  define u where "u = (\<lambda>bs. s\<lparr>exidx_data := bs, exidx_status := ARM_STATUS_NONE\<rparr>)"
  have u: "log_type (u bs) = ARM_LOG_NONE" "length (reg_vals (exidx_regs (u bs))) = 16" "exidx_data (u bs) = bs"
      "frame_of (u bs) = frame_of s" "load_of (u bs) = load_of s" "(u bs)\<lparr>exidx_data := cs\<rparr> = u cs" for bs cs
    using assms(3,4) by (simp_all add: u_def)
  have run: "Exidx_Decode s = Decode_byte b (u bs)" if "exidx_data s = b # bs" for b bs
    using Decode_byte_run [OF that] by (simp add: u_def)
  note facts = u run [unfolded assms(1)]
  have "reaches (u rest) (insn_effect (load_of s) i (frame_of s)) (Exidx_Decode s)"
    using assms(1,2)
  proof (cases i)
    case (VspAddUleb n)
    then show ?thesis
      using assms(1,2) run reaches_uleb [of "u (uleb128 n @ rest)" n rest] by (simp add: u)
  next
    case (PopMask m)
    then show ?thesis
      using assms(1,2) run reaches_pop_mask [of "u (of_nat (m mod 256) # rest)" m rest] by (simp add: u del: of_nat_add)
  next
    case (PopRange n lr)
    then show ?thesis
      using assms(1,2) run reaches_pop_range [of "u rest" n lr] by (simp add: u del: of_nat_add)
  next
    case (PopLow m)
    then show ?thesis
      using assms(1,2) run reaches_mask_byte(1) [of "u (of_nat m # rest)" m rest] by (simp add: u del: upt.simps)
  next
    case (PopWcgr m)
    then show ?thesis
      using assms(1,2) run reaches_mask_byte(2) [of "u (of_nat m # rest)" m rest] by (simp add: u del: upt.simps)
  next
    case (PopFstmfdx a n)
    then show ?thesis
      using assms(1,2) run reaches_range_byte(1) [of "u (of_nat (16 * a + n) # rest)" a n rest]
      by (simp add: u del: of_nat_add of_nat_mult)
  next
    case (PopWmmx a n)
    then show ?thesis
      using assms(1,2) run reaches_range_byte(2) [of "u (of_nat (16 * a + n) # rest)" a n rest]
      by (simp add: u del: of_nat_add of_nat_mult)
  next
    case (PopVpush16 a n)
    then show ?thesis
      using assms(1,2) run reaches_range_byte(3) [of "u (of_nat (16 * a + n) # rest)" a n rest]
      by (simp add: u del: of_nat_add of_nat_mult)
  next
    case (PopVpush a n)
    then show ?thesis
      using assms(1,2) run reaches_range_byte(4) [of "u (of_nat (16 * a + n) # rest)" a n rest]
      by (simp add: u del: of_nat_add of_nat_mult)
  qed (use assms(1,2) run reaches_one_byte [OF u(1) [of rest]] in \<open>simp add: u del: of_nat_add\<close>)+
  then show ?thesis
    by (simp add: u_def)
qed

lemma Decode_finish:
  "exidx_data s = ARM_OP_FINISH # rest \<Longrightarrow> log_type s = ARM_LOG_NONE \<Longrightarrow>
     Exidx_Decode s = (Fail, s\<lparr>exidx_data := rest, exidx_status := ARM_STATUS_FINISH\<rparr>)"
  using Decode_byte_run [of s "0xb0" rest] Decode_byte_switch(3) [of 176 "s\<lparr>exidx_data := rest, exidx_status := ARM_STATUS_NONE\<rparr>"]
    DecodePrefix_10_switch(4) [of 176]
  by (simp add: ARM_OP_FINISH_def DecodePrefix_10_11_0000_def bnd_def set_status_def)

lemma length_insn_effect:
  "insn_effect load i f = Some g \<Longrightarrow> length (core g) = length (core f)"
  by (cases i) (auto simp: skip_def pop_mask_def dest: length_pop_all)

lemma Eval_loop_insns:
  assumes "exidx_data s = concat (map insn_bytes is) @ ARM_OP_FINISH # rest" and "list_all insn_ok is"
    and "log_type s = ARM_LOG_NONE" and "length (reg_vals (exidx_regs s)) = 16"
  shows "case run_insns (load_of s) is (frame_of s) of
      Some f \<Rightarrow> Exidx_Eval_loop s = (Ok (), with_frame f (s\<lparr>exidx_data := rest, exidx_status := ARM_STATUS_FINISH\<rparr>))
    | None \<Rightarrow> fst (Exidx_Eval_loop s) = Ok () \<and> exidx_status (snd (Exidx_Eval_loop s)) = ARM_STATUS_READ_FAILED"
  using assms
proof (induction "is" arbitrary: s)
  case Nil
  then have "Exidx_Eval_loop s = (Ok (), s\<lparr>exidx_data := rest, exidx_status := ARM_STATUS_FINISH\<rparr>)"
    by (subst Exidx_Eval_loop.simps) (simp add: Decode_finish)
  then show ?case
    by (simp add: with_frame_def frame_of_def)
next
  case (Cons i "is")
  let ?bs = "concat (map insn_bytes is) @ ARM_OP_FINISH # rest"
  let ?s = "s\<lparr>exidx_data := ?bs, exidx_status := ARM_STATUS_NONE\<rparr>"
  obtain r t where t: "Exidx_Decode s = (r, t)"
    by fastforce
  have step: "reaches ?s (insn_effect (load_of s) i (frame_of s)) (r, t)"
    using Decode_insn [of s i ?bs] Cons.prems t by simp
  show ?case
  proof (cases "insn_effect (load_of s) i (frame_of s)")
    case None
    then show ?thesis
      using step t by (subst (1 2 3) Exidx_Eval_loop.simps) simp
  next
    case (Some g)
    then have g: "r = Ok ()" "t = with_frame g ?s"
      using step by simp_all
    then have "Exidx_Eval_loop s = Exidx_Eval_loop t"
      using t by (subst Exidx_Eval_loop.simps) simp
    moreover have "length (core g) = 16"
      using length_insn_effect [OF Some] Cons.prems(4) by (simp add: frame_of_def)
    then have "case run_insns (load_of t) is (frame_of t) of
        Some f \<Rightarrow> Exidx_Eval_loop t = (Ok (), with_frame f (t\<lparr>exidx_data := rest, exidx_status := ARM_STATUS_FINISH\<rparr>))
      | None \<Rightarrow> fst (Exidx_Eval_loop t) = Ok () \<and> exidx_status (snd (Exidx_Eval_loop t)) = ARM_STATUS_READ_FAILED"
      using Cons.prems by (intro Cons.IH) (simp_all add: g with_frame_def)
    moreover have "load_of t = load_of s" "frame_of t = g"
      by (simp_all add: g(2))
    moreover have "with_frame f (t\<lparr>exidx_data := rest, exidx_status := ARM_STATUS_FINISH\<rparr>) =
        with_frame f (s\<lparr>exidx_data := rest, exidx_status := ARM_STATUS_FINISH\<rparr>)" for f
      by (simp add: g(2) with_frame_def)
    ultimately show ?thesis
      using Some by (auto split: option.splits)
  qed
qed

text \<open>
  C3. \<^verbatim>\<open>Eval\<close> implements the instructions of the ARM exception handling ABI: on the encoding of a list of
  instructions and a finish instruction it computes the stack pointer and the registers that the instructions
  define, whatever the registers and the memory are, and fails with a read error exactly if a popped word
  cannot be read. The unsigned offsets are those up to \<open>2^32 - 1\<close>; longer encodings shift out of range.
\<close>

theorem Exidx_Eval_assembled:
  assumes "exidx_data s = concat (map insn_bytes is) @ ARM_OP_FINISH # rest" and "list_all insn_ok is"
    and "log_type s = ARM_LOG_NONE" and "length (reg_vals (exidx_regs s)) = 16"
  shows "case run_insns (load_of s) is ((frame_of s)\<lparr>pc_popped := False\<rparr>) of
      Some f \<Rightarrow> Exidx_Eval s = (Ok (), with_frame f (s\<lparr>exidx_data := rest, exidx_status := ARM_STATUS_FINISH\<rparr>))
    | None \<Rightarrow> fst (Exidx_Eval s) = Fail \<and> exidx_status (snd (Exidx_Eval s)) = ARM_STATUS_READ_FAILED"
proof -
  let ?s = "s\<lparr>pc_set := False\<rparr>"
  have s: "load_of ?s = load_of s" "frame_of ?s = (frame_of s)\<lparr>pc_popped := False\<rparr>"
    by (simp_all add: load_of_def frame_of_def fun_eq_iff)
  have loop: "case run_insns (load_of s) is ((frame_of s)\<lparr>pc_popped := False\<rparr>) of
      Some f \<Rightarrow> Exidx_Eval_loop ?s = (Ok (), with_frame f (?s\<lparr>exidx_data := rest, exidx_status := ARM_STATUS_FINISH\<rparr>))
    | None \<Rightarrow> fst (Exidx_Eval_loop ?s) = Ok () \<and> exidx_status (snd (Exidx_Eval_loop ?s)) = ARM_STATUS_READ_FAILED"
    using Eval_loop_insns [of ?s "is" rest] assms by (simp add: s)
  have "with_frame f (?s\<lparr>exidx_data := rest, exidx_status := ARM_STATUS_FINISH\<rparr>) =
      with_frame f (s\<lparr>exidx_data := rest, exidx_status := ARM_STATUS_FINISH\<rparr>)" for f
    by (simp add: with_frame_def)
  then show ?thesis
    using loop by (cases "Exidx_Eval_loop ?s") (auto simp: Exidx_Eval_def bnd_def with_frame_def split: option.splits)
qed

text \<open>\<^verbatim>\<open>pop {r4, r14}\<close> after a move of the stack pointer, from memory with two words.\<close>

definition example_exidx :: arm_exidx where
  "example_exidx = (ArmExidx (new_regs RegsArm_class) (\<lambda>_ _. []) (MemoryBuffer_Read [0, 0, 0, 0, 1, 2, 0, 0, 3, 4, 0, 0]))
     \<lparr>exidx_data := [0x00, 0xa8, 0xb0]\<rparr>"

theorem Exidx_Eval_assembled_witness:
  "exidx_cfa (snd (Exidx_Eval example_exidx)) = 12 \<and> reg_vals (exidx_regs (snd (Exidx_Eval example_exidx))) ! 4 = 0x201 \<and>
   reg_vals (exidx_regs (snd (Exidx_Eval example_exidx))) ! 14 = 0x403"
proof -
  let ?f = "\<lparr>vsp = 12, core = (replicate 16 0)[4 := 0x201, 14 := 0x403], pc_popped = False\<rparr>"
  have "run_insns (load_of example_exidx) [VspAdd 0, PopRange 0 True] ((frame_of example_exidx)\<lparr>pc_popped := False\<rparr>) = Some ?f"
    by code_simp
  moreover have "exidx_data example_exidx = concat (map insn_bytes [VspAdd 0, PopRange 0 True]) @ ARM_OP_FINISH # []"
    by code_simp
  moreover have "log_type example_exidx = ARM_LOG_NONE" "length (reg_vals (exidx_regs example_exidx)) = 16"
    by code_simp+
  ultimately have "Exidx_Eval example_exidx =
      (Ok (), with_frame ?f (example_exidx\<lparr>exidx_data := [], exidx_status := ARM_STATUS_FINISH\<rparr>))"
    using Exidx_Eval_assembled [of example_exidx "[VspAdd 0, PopRange 0 True]" "[]"] by simp
  then show ?thesis
    by (simp add: with_frame_def)
qed

end
