(* ===== verification/Elf_Types.thy ===== *)
theory Elf_Types
  imports Memory
begin

text \<open>
  The structures of \<^verbatim>\<open>elf.h\<close> that the templates of \<^verbatim>\<open>ElfInterface.cpp\<close> and \<^verbatim>\<open>Symbols.cpp\<close> are instantiated
  with, for both file classes. The members that are used are widened to the larger class.
\<close>

datatype elf_class = ELFCLASS32 | ELFCLASS64

text \<open>The member at an offset of a structure.\<close>

definition member_at :: "nat \<Rightarrow> u8 list \<Rightarrow> 'a::len word" where
  "member_at off bs = le_word (take (sizeof TYPE('a)) (drop off bs))"

text \<open>A member that has 4 bytes in one class and 8 bytes in the other.\<close>

definition class_member :: "elf_class \<Rightarrow> nat \<Rightarrow> nat \<Rightarrow> u8 list \<Rightarrow> u64" where
  "class_member cls off32 off64 bs =
     (case cls of ELFCLASS32 \<Rightarrow> ucast (member_at off32 bs :: u32) | ELFCLASS64 \<Rightarrow> member_at off64 bs)"

definition class_offset :: "elf_class \<Rightarrow> nat \<Rightarrow> nat \<Rightarrow> nat" where
  "class_offset cls off32 off64 = (case cls of ELFCLASS32 \<Rightarrow> off32 | ELFCLASS64 \<Rightarrow> off64)"

section \<open>Symbols\<close>

record elf_sym =
  st_name :: u32
  st_info :: u8
  st_shndx :: u16
  st_value :: u64
  st_size :: u64

definition sizeof_sym :: "elf_class \<Rightarrow> nat" where
  "sizeof_sym cls = class_offset cls 16 24"

definition parse_sym :: "elf_class \<Rightarrow> u8 list \<Rightarrow> elf_sym" where
  "parse_sym cls bs =
     \<lparr>st_name = member_at 0 bs, st_info = member_at (class_offset cls 12 4) bs,
      st_shndx = member_at (class_offset cls 14 6) bs, st_value = class_member cls 4 8 bs,
      st_size = class_member cls 8 16 bs\<rparr>"

definition read_sym :: "elf_class \<Rightarrow> memory \<Rightarrow> u64 \<Rightarrow> elf_sym option" where
  "read_sym cls mem addr = map_option (parse_sym cls) (ReadFully mem addr (sizeof_sym cls))"

definition ELF32_ST_TYPE :: "u8 \<Rightarrow> nat" where "ELF32_ST_TYPE info = unat (take_bit 4 info)"
definition ELF32_ST_BIND :: "u8 \<Rightarrow> nat" where "ELF32_ST_BIND info = unat (drop_bit 4 info)"

definition SHN_UNDEF :: u16 where "SHN_UNDEF = 0"
definition STT_OBJECT :: nat where "STT_OBJECT = 1"
definition STT_FUNC :: nat where "STT_FUNC = 2"
definition STB_GLOBAL :: nat where "STB_GLOBAL = 1"

section \<open>Headers\<close>

record elf_ehdr =
  e_phoff :: u64
  e_shoff :: u64
  e_phentsize :: u16
  e_phnum :: u16
  e_shentsize :: u16
  e_shnum :: u16
  e_shstrndx :: u16

definition sizeof_ehdr :: "elf_class \<Rightarrow> nat" where
  "sizeof_ehdr cls = class_offset cls 52 64"

definition parse_ehdr :: "elf_class \<Rightarrow> u8 list \<Rightarrow> elf_ehdr" where
  "parse_ehdr cls bs =
     \<lparr>e_phoff = class_member cls 28 32 bs, e_shoff = class_member cls 32 40 bs,
      e_phentsize = member_at (class_offset cls 42 54) bs, e_phnum = member_at (class_offset cls 44 56) bs,
      e_shentsize = member_at (class_offset cls 46 58) bs, e_shnum = member_at (class_offset cls 48 60) bs,
      e_shstrndx = member_at (class_offset cls 50 62) bs\<rparr>"

definition read_ehdr :: "elf_class \<Rightarrow> memory \<Rightarrow> u64 \<Rightarrow> elf_ehdr option" where
  "read_ehdr cls mem addr = map_option (parse_ehdr cls) (ReadFully mem addr (sizeof_ehdr cls))"

record elf_phdr =
  p_type :: u32
  p_flags :: u32
  p_offset :: u64
  p_vaddr :: u64
  p_filesz :: u64
  p_memsz :: u64

definition sizeof_phdr :: "elf_class \<Rightarrow> nat" where
  "sizeof_phdr cls = class_offset cls 32 56"

definition parse_phdr :: "elf_class \<Rightarrow> u8 list \<Rightarrow> elf_phdr" where
  "parse_phdr cls bs =
     \<lparr>p_type = member_at 0 bs, p_flags = member_at (class_offset cls 24 4) bs,
      p_offset = class_member cls 4 8 bs, p_vaddr = class_member cls 8 16 bs,
      p_filesz = class_member cls 16 32 bs, p_memsz = class_member cls 20 40 bs\<rparr>"

definition read_phdr :: "elf_class \<Rightarrow> memory \<Rightarrow> u64 \<Rightarrow> elf_phdr option" where
  "read_phdr cls mem addr = map_option (parse_phdr cls) (ReadFully mem addr (sizeof_phdr cls))"

definition PT_LOAD :: u32 where "PT_LOAD = 1"
definition PT_DYNAMIC :: u32 where "PT_DYNAMIC = 2"
definition PT_GNU_EH_FRAME :: u32 where "PT_GNU_EH_FRAME = 0x6474e550"
definition PF_X :: u32 where "PF_X = 1"

record elf_shdr =
  sh_name :: u32
  sh_type :: u32
  sh_addr :: u64
  sh_offset :: u64
  sh_size :: u64
  sh_link :: u32
  sh_entsize :: u64

definition sizeof_shdr :: "elf_class \<Rightarrow> nat" where
  "sizeof_shdr cls = class_offset cls 40 64"

definition parse_shdr :: "elf_class \<Rightarrow> u8 list \<Rightarrow> elf_shdr" where
  "parse_shdr cls bs =
     \<lparr>sh_name = member_at 0 bs, sh_type = member_at 4 bs, sh_addr = class_member cls 12 16 bs,
      sh_offset = class_member cls 16 24 bs, sh_size = class_member cls 20 32 bs,
      sh_link = member_at (class_offset cls 24 40) bs, sh_entsize = class_member cls 36 56 bs\<rparr>"

definition read_shdr :: "elf_class \<Rightarrow> memory \<Rightarrow> u64 \<Rightarrow> elf_shdr option" where
  "read_shdr cls mem addr = map_option (parse_shdr cls) (ReadFully mem addr (sizeof_shdr cls))"

definition SHT_PROGBITS :: u32 where "SHT_PROGBITS = 1"
definition SHT_SYMTAB :: u32 where "SHT_SYMTAB = 2"
definition SHT_STRTAB :: u32 where "SHT_STRTAB = 3"
definition SHT_NOTE :: u32 where "SHT_NOTE = 7"
definition SHT_DYNSYM :: u32 where "SHT_DYNSYM = 11"

section \<open>The dynamic section and notes\<close>

record elf_dyn =
  d_tag :: u64
  d_val :: u64

definition sizeof_dyn :: "elf_class \<Rightarrow> nat" where
  "sizeof_dyn cls = class_offset cls 8 16"

definition parse_dyn :: "elf_class \<Rightarrow> u8 list \<Rightarrow> elf_dyn" where
  "parse_dyn cls bs = \<lparr>d_tag = class_member cls 0 0 bs, d_val = class_member cls 4 8 bs\<rparr>"

definition read_dyn :: "elf_class \<Rightarrow> memory \<Rightarrow> u64 \<Rightarrow> elf_dyn option" where
  "read_dyn cls mem addr = map_option (parse_dyn cls) (ReadFully mem addr (sizeof_dyn cls))"

definition DT_NULL :: u64 where "DT_NULL = 0"
definition DT_STRTAB :: u64 where "DT_STRTAB = 5"
definition DT_STRSZ :: u64 where "DT_STRSZ = 10"
definition DT_SONAME :: u64 where "DT_SONAME = 14"

text \<open>The header of a note has the same layout in both classes.\<close>

record elf_nhdr =
  n_namesz :: u32
  n_descsz :: u32
  n_type :: u32

definition sizeof_nhdr :: nat where
  "sizeof_nhdr = 12"

definition read_nhdr :: "memory \<Rightarrow> u64 \<Rightarrow> elf_nhdr option" where
  "read_nhdr mem addr =
     map_option (\<lambda>bs. \<lparr>n_namesz = member_at 0 bs, n_descsz = member_at 4 bs, n_type = member_at 8 bs\<rparr>)
       (ReadFully mem addr sizeof_nhdr)"

definition NT_GNU_BUILD_ID :: u32 where "NT_GNU_BUILD_ID = 3"

text \<open>A string literal as the bytes of its characters.\<close>

definition ascii :: "string \<Rightarrow> u8 list" where
  "ascii = map (\<lambda>c. of_nat (of_char c))"

end
