(* ===== verification/Interval_Search.thy ===== *)
theory Interval_Search
  imports Unwind_Prelude
begin

text \<open>
  The contract of the binary searches of \<^verbatim>\<open>Symbols::GetInfoFromCache\<close> and \<^verbatim>\<open>Maps::Find\<close>: they look for the
  element of a sorted vector whose half-open interval contains an address.
\<close>

locale interval_search =
  fixes lo hi :: "'e \<Rightarrow> u64" and search :: "'e list \<Rightarrow> u64 \<Rightarrow> nat \<Rightarrow> nat \<Rightarrow> 'e option"
  assumes search_step: "first < last_index \<Longrightarrow> \<exists>mid. first \<le> mid \<and> mid < last_index \<and>
      search xs addr first last_index =
        (if addr < lo (xs ! mid) then search xs addr first mid
         else if addr < hi (xs ! mid) then Some (xs ! mid)
         else search xs addr (mid + 1) last_index)"
    and search_end: "last_index \<le> first \<Longrightarrow> search xs addr first last_index = None"
begin

definition inside :: "u64 \<Rightarrow> 'e \<Rightarrow> bool" where
  "inside addr e \<longleftrightarrow> lo e \<le> addr \<and> addr < hi e"

text \<open>The elements are ascending, and two of them are disjoint or cover the same addresses.\<close>

definition ordered :: "'e list \<Rightarrow> bool" where
  "ordered xs \<longleftrightarrow> sorted_wrt (\<lambda>a b. lo a \<le> lo b \<and> (hi a \<le> lo b \<or> lo a = lo b \<and> hi a = hi b)) xs"

lemma search_sound: "search xs addr first last_index = Some e \<Longrightarrow> last_index \<le> length xs \<Longrightarrow> e \<in> set xs \<and> inside addr e"
proof (induction "last_index - first" arbitrary: first last_index rule: less_induct)
  case less
  then have "first < last_index"
    using search_end by (metis leI option.distinct(1))
  from search_step [OF this, of xs addr] obtain mid where mid: "first \<le> mid" "mid < last_index"
      "search xs addr first last_index =
        (if addr < lo (xs ! mid) then search xs addr first mid
         else if addr < hi (xs ! mid) then Some (xs ! mid)
         else search xs addr (mid + 1) last_index)"
    by blast
  show ?case
    using less.hyps [of mid first] less.hyps [of last_index "mid + 1"] less.prems mid
    by (auto simp: inside_def not_less split: if_splits)
qed

lemma search_complete:
  assumes "ordered xs" and "last_index \<le> length xs" and "first \<le> i" and "i < last_index" and "inside addr (xs ! i)"
  shows "search xs addr first last_index \<noteq> None"
  using assms(2-)
proof (induction "last_index - first" arbitrary: first last_index rule: less_induct)
  case less
  then have "first < last_index"
    by simp
  from search_step [OF this, of xs addr] obtain mid where mid: "first \<le> mid" "mid < last_index"
      "search xs addr first last_index =
        (if addr < lo (xs ! mid) then search xs addr first mid
         else if addr < hi (xs ! mid) then Some (xs ! mid)
         else search xs addr (mid + 1) last_index)"
    by blast
  have order: "lo (xs ! j) \<le> lo (xs ! k) \<and> (hi (xs ! j) \<le> lo (xs ! k) \<or> lo (xs ! j) = lo (xs ! k) \<and> hi (xs ! j) = hi (xs ! k))"
    if "j < k" "k < length xs" for j k
    using assms(1) that by (simp add: ordered_def sorted_wrt_iff_nth_less)
  consider "addr < lo (xs ! mid)" | "\<not> addr < lo (xs ! mid)" "addr < hi (xs ! mid)"
    | "\<not> addr < lo (xs ! mid)" "\<not> addr < hi (xs ! mid)"
    by blast
  then show ?case
  proof cases
    case 1
    have "i < mid"
    proof (rule ccontr)
      assume "\<not> i < mid"
      then have "lo (xs ! mid) \<le> lo (xs ! i)"
        using order [of mid i] less.prems by (cases "i = mid") auto
      then show False
        using 1 less.prems(4) by (auto simp: inside_def)
    qed
    then show ?thesis
      using less.hyps [of mid first] less.prems mid 1 by simp
  next
    case 2
    then show ?thesis
      using mid by simp
  next
    case 3
    have "i \<noteq> mid"
      using 3 less.prems(4) by (auto simp: inside_def)
    moreover have "\<not> i < mid"
      using order [of i mid] less.prems mid(2) 3 by (auto simp: inside_def)
    ultimately show ?thesis
      using less.hyps [of last_index "mid + 1"] less.prems mid 3 by simp
  qed
qed

lemma search_None_iff:
  assumes "ordered xs"
  shows "search xs addr 0 (length xs) = None \<longleftrightarrow> (\<forall>e \<in> set xs. \<not> inside addr e)"
  using search_complete [OF assms order_refl, of 0 _ addr] search_sound [of xs addr 0 "length xs"]
  by (cases "search xs addr 0 (length xs)") (auto simp: in_set_conv_nth Bex_def)

end

end
