(* ===== verification/Symbols.thy ===== *)
theory Symbols
  imports Elf_Types Interval_Search "HOL-Library.Multiset"
begin

text \<open>
  \<^verbatim>\<open>Symbols.h\<close> and \<^verbatim>\<open>Symbols.cpp\<close>: the names of functions and the addresses of global variables in a symbol
  table. The function symbols that were read are kept in a sorted vector; the main result is that this cache
  cannot be observed.
\<close>

section \<open>State\<close>

record sym_info =
  start_offset :: u64
  end_offset :: u64
  info_str_offset :: u64

record symbols =
  sym_cur_offset :: u64
  sym_offset :: u64
  sym_end :: u64
  sym_entry_size :: u64
  sym_str_offset :: u64
  sym_str_end :: u64
  sym_cache :: "sym_info list"

definition Symbols :: "u64 \<Rightarrow> u64 \<Rightarrow> u64 \<Rightarrow> u64 \<Rightarrow> u64 \<Rightarrow> symbols" where
  "Symbols offset sz entry_size str_offset str_size =
     \<lparr>sym_cur_offset = offset, sym_offset = offset, sym_end = offset + sz, sym_entry_size = entry_size,
      sym_str_offset = str_offset, sym_str_end = str_offset + str_size, sym_cache = []\<rparr>"

definition ClearCache :: "symbols \<Rightarrow> symbols" where
  "ClearCache s = s\<lparr>sym_cache := [], sym_cur_offset := sym_offset s\<rparr>"

section \<open>Operations\<close>

function GetInfoFromCache_loop :: "sym_info list \<Rightarrow> u64 \<Rightarrow> nat \<Rightarrow> nat \<Rightarrow> sym_info option" where
  "GetInfoFromCache_loop infos addr first last_index =
     (if first < last_index then
        let current = first + (last_index - first) div 2; info = infos ! current in
        if addr < start_offset info then GetInfoFromCache_loop infos addr first current
        else if addr < end_offset info then Some info
        else GetInfoFromCache_loop infos addr (current + 1) last_index
      else None)"
  by pat_completeness auto
termination
  by (relation "measure (\<lambda>(infos, addr, first, last_index). last_index - first)") auto

declare GetInfoFromCache_loop.simps [simp del]

definition GetInfoFromCache :: "u64 \<Rightarrow> symbols \<Rightarrow> sym_info option" where
  "GetInfoFromCache addr s = GetInfoFromCache_loop (sym_cache s) addr 0 (length (sym_cache s))"

definition symbol_info :: "u64 \<Rightarrow> elf_sym \<Rightarrow> sym_info" where
  "symbol_info str_off entry =
     \<lparr>start_offset = st_value entry, end_offset = st_value entry + st_size entry,
      info_str_offset = str_off + ucast (st_name entry)\<rparr>"

definition is_function :: "elf_sym \<Rightarrow> bool" where
  "is_function entry \<longleftrightarrow> st_shndx entry \<noteq> SHN_UNDEF \<and> ELF32_ST_TYPE (st_info entry) = STT_FUNC"

text \<open>The result of a search: the name, if it can be read, and the distance from the start of the function.\<close>

definition read_name :: "memory \<Rightarrow> symbols \<Rightarrow> u64 \<Rightarrow> sym_info \<Rightarrow> (u8 list \<times> u64) outcome" where
  "read_name mem s addr info =
     (case ReadString mem (info_str_offset info) (sym_str_end s - info_str_offset info) of
        (True, name) \<Rightarrow> Ok (name, addr - start_offset info)
      | (False, _) \<Rightarrow> Fail)"

text \<open>
  The loop over the entries that were not read yet: the symbol it stopped at and whether it added one. An
  entry size of zero, or one that makes the offset wrap around, keeps it from ending.
\<close>

fun GetName_loop :: "elf_class \<Rightarrow> nat \<Rightarrow> u64 \<Rightarrow> memory \<Rightarrow> bool \<Rightarrow> (symbols, sym_info option \<times> bool) prog" where
  "GetName_loop cls fuel addr mem added = (\<lambda>s.
     if sym_cur_offset s + sym_entry_size s \<le> sym_end s then
       case fuel of
         0 \<Rightarrow> (Crash OutOfFuel, s)
       | Suc fuel' \<Rightarrow>
           case read_sym cls mem (sym_cur_offset s) of
             None \<Rightarrow> (Fail, s\<lparr>sym_cur_offset := -1\<rparr>)
           | Some entry \<Rightarrow>
               let s' = s\<lparr>sym_cur_offset := sym_cur_offset s + sym_entry_size s\<rparr> in
               if is_function entry then
                 let info = symbol_info (sym_str_offset s) entry; s'' = s'\<lparr>sym_cache := sym_cache s @ [info]\<rparr> in
                 if addr \<ge> start_offset info \<and> addr < end_offset info then (Ok (Some info, True), s'')
                 else GetName_loop cls fuel' addr mem True s''
               else GetName_loop cls fuel' addr mem added s'
     else (Ok (None, added), s))"

declare GetName_loop.simps [simp del]

text \<open>
  \<open>std_sort\<close> stands for \<^verbatim>\<open>std::sort\<close> by the start offset, which does not fix the order of symbols with the same
  start. The variables behind the pointers are not used after a failure.
\<close>

definition GetName ::
  "(sym_info list \<Rightarrow> sym_info list) \<Rightarrow> elf_class \<Rightarrow> nat \<Rightarrow> u64 \<Rightarrow> memory \<Rightarrow> (symbols, u8 list \<times> u64) prog" where
  "GetName std_sort cls fuel addr mem = (\<lambda>s.
     case GetInfoFromCache addr s of
       Some info \<Rightarrow>
         if addr \<ge> start_offset info \<and> addr \<le> end_offset info then (read_name mem s addr info, s)
         else (Crash CheckFailed, s)
     | None \<Rightarrow>
         case GetName_loop cls fuel addr mem False s of
           (Fail, t) \<Rightarrow> (Fail, t)
         | (Crash c, t) \<Rightarrow> (Crash c, t)
         | (Ok (found, added), t) \<Rightarrow>
             let t' = (if added then t\<lparr>sym_cache := std_sort (sym_cache t)\<rparr> else t) in
             case found of
               None \<Rightarrow> (Fail, t')
             | Some info \<Rightarrow>
                 if info_str_offset info < sym_str_end t then (read_name mem t addr info, t') else (Fail, t'))"

definition is_global_object :: "elf_sym \<Rightarrow> bool" where
  "is_global_object entry \<longleftrightarrow> st_shndx entry \<noteq> SHN_UNDEF \<and> ELF32_ST_TYPE (st_info entry) = STT_OBJECT \<and>
     ELF32_ST_BIND (st_info entry) = STB_GLOBAL"

fun GetGlobal_loop :: "elf_class \<Rightarrow> nat \<Rightarrow> memory \<Rightarrow> u8 list \<Rightarrow> symbols \<Rightarrow> u64 \<Rightarrow> u64 outcome" where
  "GetGlobal_loop cls fuel mem name s cur =
     (if cur + sym_entry_size s \<le> sym_end s then
        case fuel of
          0 \<Rightarrow> Crash OutOfFuel
        | Suc fuel' \<Rightarrow>
            case read_sym cls mem cur of
              None \<Rightarrow> Fail
            | Some entry \<Rightarrow>
                let str_off = sym_str_offset s + ucast (st_name entry) in
                if is_global_object entry \<and> str_off < sym_str_end s \<and>
                   ReadString mem str_off (sym_str_end s - str_off) = (True, name)
                then Ok (st_value entry)
                else GetGlobal_loop cls fuel' mem name s (cur + sym_entry_size s)
      else Fail)"

declare GetGlobal_loop.simps [simp del]

definition GetGlobal :: "elf_class \<Rightarrow> nat \<Rightarrow> memory \<Rightarrow> u8 list \<Rightarrow> symbols \<Rightarrow> u64 outcome" where
  "GetGlobal cls fuel mem name s = GetGlobal_loop cls fuel mem name s (sym_offset s)"

section \<open>The search in the cache\<close>

interpretation sym_search: interval_search start_offset end_offset GetInfoFromCache_loop
proof
  fix xs :: "sym_info list" and addr :: u64 and first last_index :: nat
  show "\<exists>mid. first \<le> mid \<and> mid < last_index \<and> GetInfoFromCache_loop xs addr first last_index =
      (if addr < start_offset (xs ! mid) then GetInfoFromCache_loop xs addr first mid
       else if addr < end_offset (xs ! mid) then Some (xs ! mid)
       else GetInfoFromCache_loop xs addr (mid + 1) last_index)" if "first < last_index"
    using that by (intro exI [of _ "first + (last_index - first) div 2"])
      (subst GetInfoFromCache_loop.simps, simp add: Let_def)
  show "last_index \<le> first \<Longrightarrow> GetInfoFromCache_loop xs addr first last_index = None"
    by (subst GetInfoFromCache_loop.simps) simp
qed

text \<open>What \<^verbatim>\<open>std::sort\<close> promises.\<close>

definition sorts :: "(sym_info list \<Rightarrow> sym_info list) \<Rightarrow> bool" where
  "sorts f \<longleftrightarrow> (\<forall>xs. mset (f xs) = mset xs \<and> sorted (map start_offset (f xs)))"

text \<open>Symbols that are not empty; two of them are disjoint or cover the same addresses.\<close>

definition separate :: "sym_info list \<Rightarrow> bool" where
  "separate xs \<longleftrightarrow> list_all (\<lambda>a. start_offset a < end_offset a \<and>
     list_all (\<lambda>b. end_offset a \<le> start_offset b \<or> end_offset b \<le> start_offset a \<or>
       start_offset a = start_offset b \<and> end_offset a = end_offset b) xs) xs"

lemma separate_sorted:
  assumes "separate xs" and "mset ys = mset xs" and "sorted (map start_offset ys)"
  shows "sym_search.ordered ys"
  unfolding sym_search.ordered_def sorted_wrt_iff_nth_less
proof (intro allI impI)
  fix i j assume ij: "i < j" "j < length ys"
  then have "ys ! i \<in> set xs" "ys ! j \<in> set xs"
    using assms(2) by (metis mset_eq_setD nth_mem order.strict_trans)+
  then have "start_offset (ys ! i) < end_offset (ys ! i)" "start_offset (ys ! j) < end_offset (ys ! j)"
      "end_offset (ys ! i) \<le> start_offset (ys ! j) \<or> end_offset (ys ! j) \<le> start_offset (ys ! i) \<or>
       start_offset (ys ! i) = start_offset (ys ! j) \<and> end_offset (ys ! i) = end_offset (ys ! j)"
    using assms(1) by (auto simp: separate_def list_all_iff)
  moreover have "start_offset (ys ! i) \<le> start_offset (ys ! j)"
    using sorted_nth_mono [OF assms(3), of i j] ij by simp
  ultimately show "start_offset (ys ! i) \<le> start_offset (ys ! j) \<and>
      (end_offset (ys ! i) \<le> start_offset (ys ! j) \<or>
       start_offset (ys ! i) = start_offset (ys ! j) \<and> end_offset (ys ! i) = end_offset (ys ! j))"
    by auto
qed

section \<open>The table\<close>

text \<open>The \<open>n\<close> entries of a table, and the symbols of the functions among the first \<open>k\<close>.\<close>

definition entry_at :: "elf_class \<Rightarrow> memory \<Rightarrow> symbols \<Rightarrow> nat \<Rightarrow> elf_sym option" where
  "entry_at cls mem s k = read_sym cls mem (sym_offset s + of_nat k * sym_entry_size s)"

definition function_infos :: "elf_class \<Rightarrow> memory \<Rightarrow> symbols \<Rightarrow> nat \<Rightarrow> sym_info list" where
  "function_infos cls mem s k =
     map (symbol_info (sym_str_offset s)) (filter is_function (map (\<lambda>i. the (entry_at cls mem s i)) [0..<k]))"

text \<open>
  A table of \<open>n\<close> entries that can all be read, and whose names are in the string table.
\<close>

definition table_ok :: "elf_class \<Rightarrow> memory \<Rightarrow> nat \<Rightarrow> symbols \<Rightarrow> bool" where
  "table_ok cls mem n s \<longleftrightarrow> 0 < sym_entry_size s \<and>
     unat (sym_offset s) + Suc n * unat (sym_entry_size s) < 2 ^ 64 \<and>
     unat (sym_offset s) + n * unat (sym_entry_size s) \<le> unat (sym_end s) \<and>
     unat (sym_end s) < unat (sym_offset s) + Suc n * unat (sym_entry_size s) \<and>
     list_all (\<lambda>k. entry_at cls mem s k \<noteq> None) [0..<n] \<and>
     list_all (\<lambda>f. info_str_offset f < sym_str_end s) (function_infos cls mem s n) \<and>
     separate (function_infos cls mem s n)"

text \<open>The first \<open>k\<close> entries are in the cache.\<close>

definition cache_holds :: "elf_class \<Rightarrow> memory \<Rightarrow> nat \<Rightarrow> symbols \<Rightarrow> bool" where
  "cache_holds cls mem k s \<longleftrightarrow> sym_cur_offset s = sym_offset s + of_nat k * sym_entry_size s \<and>
     mset (sym_cache s) = mset (function_infos cls mem s k)"

definition sym_inv :: "elf_class \<Rightarrow> memory \<Rightarrow> nat \<Rightarrow> symbols \<Rightarrow> bool" where
  "sym_inv cls mem n s \<longleftrightarrow> table_ok cls mem n s \<and>
     (\<exists>k \<le> n. cache_holds cls mem k s \<and> sorted (map start_offset (sym_cache s)))"

definition sym_frame :: "symbols \<Rightarrow> symbols" where
  "sym_frame s = s\<lparr>sym_cur_offset := 0, sym_cache := []\<rparr>"

lemma sym_frameD:
  assumes "sym_frame s = sym_frame t"
  shows "sym_offset s = sym_offset t" "sym_end s = sym_end t" "sym_entry_size s = sym_entry_size t"
    "sym_str_offset s = sym_str_offset t" "sym_str_end s = sym_str_end t"
  using assms by (cases s; cases t; simp add: sym_frame_def)+

lemma table_frame:
  assumes "sym_frame s = sym_frame t"
  shows "entry_at cls mem s = entry_at cls mem t" "function_infos cls mem s = function_infos cls mem t"
    "table_ok cls mem n s = table_ok cls mem n t" "read_name mem s = read_name mem t"
proof -
  show entry: "entry_at cls mem s = entry_at cls mem t"
    by (simp add: entry_at_def fun_eq_iff sym_frameD [OF assms])
  show funs: "function_infos cls mem s = function_infos cls mem t"
    by (simp add: function_infos_def fun_eq_iff entry sym_frameD [OF assms])
  show "table_ok cls mem n s = table_ok cls mem n t"
    by (simp add: table_ok_def entry funs sym_frameD [OF assms])
  show "read_name mem s = read_name mem t"
    by (simp add: read_name_def fun_eq_iff sym_frameD [OF assms])
qed

lemma function_infos_Suc:
  "function_infos cls mem s (Suc k) = function_infos cls mem s k @
     (if is_function (the (entry_at cls mem s k)) then [symbol_info (sym_str_offset s) (the (entry_at cls mem s k))] else [])"
  by (simp add: function_infos_def)

lemma function_infos_mono: "k \<le> n \<Longrightarrow> set (function_infos cls mem s k) \<subseteq> set (function_infos cls mem s n)"
  by (auto simp: function_infos_def)

text \<open>Where the cursor is after \<open>k\<close> entries, and that the loop goes on exactly before the last one.\<close>

lemma table_cursor:
  assumes "table_ok cls mem n s" and "k \<le> n"
  shows "sym_offset s + of_nat k * sym_entry_size s + sym_entry_size s \<le> sym_end s \<longleftrightarrow> k < n"
    and "sym_offset s + of_nat k * sym_entry_size s + sym_entry_size s = sym_offset s + of_nat (Suc k) * sym_entry_size s"
proof -
  let ?e = "sym_entry_size s"
  have small: "unat (sym_offset s) + j * unat ?e < 2 ^ 64" if "j \<le> Suc n" for j
  proof -
    have "j * unat ?e \<le> Suc n * unat ?e"
      using that by (rule mult_le_mono1)
    then show ?thesis
      using assms(1) by (simp only: table_ok_def) linarith
  qed
  have pos: "unat (sym_offset s + of_nat j * ?e) = unat (sym_offset s) + j * unat ?e" if "j \<le> Suc n" for j
  proof -
    have "of_nat j * ?e = of_nat (j * unat ?e)"
      by (simp add: of_nat_unat)
    then show ?thesis
      using unat_add_of_nat [of "sym_offset s" "j * unat ?e"] small [OF that] by simp
  qed
  show step: "sym_offset s + of_nat k * ?e + ?e = sym_offset s + of_nat (Suc k) * ?e"
    by (simp add: algebra_simps)
  have "sym_offset s + of_nat (Suc k) * ?e \<le> sym_end s \<longleftrightarrow> unat (sym_offset s) + Suc k * unat ?e \<le> unat (sym_end s)"
    using pos [of "Suc k"] assms(2) by (simp only: word_le_nat_alt)
  also have "\<dots> \<longleftrightarrow> k < n"
  proof
    assume "unat (sym_offset s) + Suc k * unat ?e \<le> unat (sym_end s)"
    then have "Suc k * unat ?e < Suc n * unat ?e"
      using assms(1) by (simp only: table_ok_def) linarith
    then show "k < n"
      by simp
  next
    assume "k < n"
    then have "Suc k * unat ?e \<le> n * unat ?e"
      by (intro mult_le_mono1) simp
    then show "unat (sym_offset s) + Suc k * unat ?e \<le> unat (sym_end s)"
      using assms(1) by (simp only: table_ok_def) linarith
  qed
  finally show "sym_offset s + of_nat k * ?e + ?e \<le> sym_end s \<longleftrightarrow> k < n"
    unfolding step .
qed

section \<open>GetName\<close>

lemma GetName_loop_step:
  assumes "table_ok cls mem n s" and "cache_holds cls mem k s" and "k < n" and "entry_at cls mem s k = Some entry"
  shows "GetName_loop cls (Suc fuel) addr mem added s =
    (let s' = s\<lparr>sym_cur_offset := sym_offset s + of_nat (Suc k) * sym_entry_size s\<rparr> in
     if is_function entry then
       let info = symbol_info (sym_str_offset s) entry; s'' = s'\<lparr>sym_cache := sym_cache s @ [info]\<rparr> in
       if sym_search.inside addr info then (Ok (Some info, True), s'')
       else GetName_loop cls fuel addr mem True s''
     else GetName_loop cls fuel addr mem added s')"
proof -
  have cur: "sym_cur_offset s = sym_offset s + of_nat k * sym_entry_size s"
    using assms(2) by (simp add: cache_holds_def)
  then have "read_sym cls mem (sym_cur_offset s) = Some entry"
    using assms(4) by (simp add: entry_at_def)
  moreover have "sym_cur_offset s + sym_entry_size s \<le> sym_end s"
      "sym_cur_offset s + sym_entry_size s = sym_offset s + of_nat (Suc k) * sym_entry_size s"
    unfolding cur using table_cursor [OF assms(1) less_imp_le [OF assms(3)]] assms(3) by blast+
  ultimately show ?thesis
    by (subst GetName_loop.simps) (simp add: Let_def sym_search.inside_def del: of_nat_Suc)
qed

text \<open>
  The loop stops at a function that contains the address, or no function from entry \<open>k\<close> on does.
\<close>

definition loop_result :: "elf_class \<Rightarrow> memory \<Rightarrow> nat \<Rightarrow> symbols \<Rightarrow> u64 \<Rightarrow> sym_info option \<Rightarrow> nat \<Rightarrow> bool" where
  "loop_result cls mem n s addr found j \<longleftrightarrow> j \<le> n \<and>
     (case found of
        Some f \<Rightarrow> f \<in> set (function_infos cls mem s j) \<and> sym_search.inside addr f
      | None \<Rightarrow> j = n)"

lemma GetName_loop_correct:
  assumes "table_ok cls mem n s" and "cache_holds cls mem k s" and "k \<le> n" and "n - k \<le> fuel"
    and "\<forall>f \<in> set (function_infos cls mem s k). \<not> sym_search.inside addr f"
  shows "\<exists>found added' t j. GetName_loop cls fuel addr mem added s = (Ok (found, added'), t) \<and>
    sym_frame t = sym_frame s \<and> cache_holds cls mem j t \<and> loop_result cls mem n s addr found j \<and>
    (found = None \<longrightarrow> (\<forall>f \<in> set (function_infos cls mem s n). \<not> sym_search.inside addr f)) \<and>
    (\<not> added' \<longrightarrow> sym_cache t = sym_cache s \<and> \<not> added)"
  using assms
proof (induction "n - k" arbitrary: k fuel added s)
  case 0
  then have "\<not> sym_cur_offset s + sym_entry_size s \<le> sym_end s"
    using table_cursor(1) [of cls mem n s k] by (simp add: cache_holds_def)
  then have "GetName_loop cls fuel addr mem added s = (Ok (None, added), s)"
    by (subst GetName_loop.simps) simp
  then show ?case
    using 0 by (auto simp: loop_result_def)
next
  case (Suc d)
  then have k: "k < n" "d = n - Suc k"
    by auto
  then obtain entry where entry: "entry_at cls mem s k = Some entry"
    using Suc.prems(1) by (fastforce simp: table_ok_def list_all_iff)
  obtain fuel' where fuel: "fuel = Suc fuel'" "n - Suc k \<le> fuel'"
    using Suc.prems(4) k by (cases fuel) auto
  let ?info = "symbol_info (sym_str_offset s) entry"
  let ?s = "s\<lparr>sym_cur_offset := sym_offset s + of_nat (Suc k) * sym_entry_size s\<rparr>"
  let ?t = "if is_function entry then ?s\<lparr>sym_cache := sym_cache s @ [?info]\<rparr> else ?s"
  have frame: "sym_frame ?t = sym_frame s"
    by (simp add: sym_frame_def)
  have holds: "cache_holds cls mem (Suc k) ?t"
    using Suc.prems(2) by (simp add: cache_holds_def table_frame(2) [OF frame] function_infos_Suc entry sym_frameD [OF frame]
        del: of_nat_Suc)
  note step = GetName_loop_step [OF Suc.prems(1,2) k(1) entry, of fuel' addr added]
  show ?case
  proof (cases "is_function entry \<and> sym_search.inside addr ?info")
    case True
    then have "GetName_loop cls fuel addr mem added s = (Ok (Some ?info, True), ?t)"
      using step fuel by (simp add: Let_def del: of_nat_Suc)
    moreover have "loop_result cls mem n s addr (Some ?info) (Suc k)"
      using True k by (simp add: loop_result_def function_infos_Suc entry)
    ultimately show ?thesis
      using frame holds by (intro exI [of _ "Some ?info"] exI [of _ True] exI [of _ ?t] exI [of _ "Suc k"]) simp
  next
    case False
    then have run: "GetName_loop cls fuel addr mem added s = GetName_loop cls fuel' addr mem (is_function entry \<or> added) ?t"
      using step fuel by (simp add: Let_def del: of_nat_Suc)
    have "\<exists>found added' t j. GetName_loop cls fuel' addr mem (is_function entry \<or> added) ?t = (Ok (found, added'), t) \<and>
        sym_frame t = sym_frame ?t \<and> cache_holds cls mem j t \<and> loop_result cls mem n ?t addr found j \<and>
        (found = None \<longrightarrow> (\<forall>f \<in> set (function_infos cls mem ?t n). \<not> sym_search.inside addr f)) \<and>
        (\<not> added' \<longrightarrow> sym_cache t = sym_cache ?t \<and> \<not> (is_function entry \<or> added))"
    proof (rule Suc.hyps(1) [OF k(2) _ holds])
      show "table_ok cls mem n ?t"
        using Suc.prems(1) by (simp only: table_frame(3) [OF frame])
      show "\<forall>f \<in> set (function_infos cls mem ?t (Suc k)). \<not> sym_search.inside addr f"
        using Suc.prems(5) False by (simp only: table_frame(2) [OF frame]) (auto simp: function_infos_Suc entry)
    qed (use k fuel in auto)
    moreover have "loop_result cls mem n ?t addr found j = loop_result cls mem n s addr found j" for found j
      by (simp only: loop_result_def table_frame(2) [OF frame])
    ultimately show ?thesis
      unfolding run frame table_frame(2) [OF frame] by (auto split: if_splits)
  qed
qed

lemma sorts_separate:
  assumes "table_ok cls mem n s" and "cache_holds cls mem k s" and "k \<le> n" and "sorted (map start_offset (sym_cache s))"
  shows "sym_search.ordered (sym_cache s)"
proof (rule separate_sorted [OF _ _ assms(4)])
  show "mset (sym_cache s) = mset (function_infos cls mem s k)"
    using assms(2) by (simp add: cache_holds_def)
  show "separate (function_infos cls mem s k)"
  proof -
    have "separate (function_infos cls mem s n)"
      using assms(1) by (simp add: table_ok_def)
    then show ?thesis
      using function_infos_mono [OF assms(3), of cls mem s] unfolding separate_def list_all_iff by blast
  qed
qed

lemma GetName_correct:
  assumes "sym_inv cls mem n s" and "sorts std_sort" and "n \<le> fuel"
  shows "\<exists>r t. GetName std_sort cls fuel addr mem s = (r, t) \<and> sym_inv cls mem n t \<and> sym_frame t = sym_frame s \<and>
    (if \<forall>f \<in> set (function_infos cls mem s n). \<not> sym_search.inside addr f then r = Fail
     else \<exists>f \<in> set (function_infos cls mem s n). sym_search.inside addr f \<and> r = read_name mem s addr f)"
proof -
  obtain k where k: "table_ok cls mem n s" "k \<le> n" "cache_holds cls mem k s" "sorted (map start_offset (sym_cache s))"
    using assms(1) by (auto simp: sym_inv_def)
  have set_k: "set (sym_cache s) = set (function_infos cls mem s k)"
    using k(3) by (auto simp: cache_holds_def dest: mset_eq_setD)
  have ordered: "sym_search.ordered (sym_cache s)"
    by (rule sorts_separate [OF k(1,3,2,4)])
  show ?thesis
  proof (cases "GetInfoFromCache addr s")
    case (Some f)
    then have "f \<in> set (function_infos cls mem s k)" "sym_search.inside addr f"
      using sym_search.search_sound [of "sym_cache s" addr 0 "length (sym_cache s)" f] set_k by (auto simp: GetInfoFromCache_def)
    moreover from this have "f \<in> set (function_infos cls mem s n)"
      using function_infos_mono [OF k(2)] by blast
    moreover have "GetName std_sort cls fuel addr mem s = (read_name mem s addr f, s)"
      using Some \<open>sym_search.inside addr f\<close> by (auto simp: GetName_def sym_search.inside_def)
    ultimately show ?thesis
      using assms(1) by auto
  next
    case None
    then have "\<forall>f \<in> set (function_infos cls mem s k). \<not> sym_search.inside addr f"
      using sym_search.search_None_iff [OF ordered] set_k by (simp add: GetInfoFromCache_def)
    moreover have "n - k \<le> fuel"
      using assms(3) by simp
    ultimately obtain found added t j where
      run: "GetName_loop cls fuel addr mem False s = (Ok (found, added), t)"
      and t: "sym_frame t = sym_frame s" "cache_holds cls mem j t" "loop_result cls mem n s addr found j"
        "found = None \<longrightarrow> (\<forall>f \<in> set (function_infos cls mem s n). \<not> sym_search.inside addr f)"
        "\<not> added \<longrightarrow> sym_cache t = sym_cache s"
      using GetName_loop_correct [OF k(1,3,2), of fuel addr False] by metis
    let ?t = "if added then t\<lparr>sym_cache := std_sort (sym_cache t)\<rparr> else t"
    have frame: "sym_frame ?t = sym_frame s"
      using t(1) by (simp add: sym_frame_def)
    have "sorted (map start_offset (sym_cache ?t))" "cache_holds cls mem j ?t"
      using assms(2) t(2,5) k(4)
      by (auto simp: sorts_def cache_holds_def table_frame(2) [OF frame] table_frame(2) [OF t(1)]
          sym_frameD [OF frame] sym_frameD [OF t(1)] split: if_splits)
    then have inv: "sym_inv cls mem n ?t"
      using k(1) t(3) by (auto simp: sym_inv_def table_frame(3) [OF frame] loop_result_def simp del: if_split)
    show ?thesis
    proof (cases found)
      case None
      then show ?thesis
        using \<open>GetInfoFromCache addr s = None\<close> run t(4) inv frame by (simp add: GetName_def Let_def)
    next
      case (Some f)
      then have f: "f \<in> set (function_infos cls mem s n)" "sym_search.inside addr f"
        using t(3) function_infos_mono by (fastforce simp: loop_result_def)+
      then have "info_str_offset f < sym_str_end t"
        using k(1) by (auto simp: table_ok_def list_all_iff sym_frameD [OF t(1)])
      then have "GetName std_sort cls fuel addr mem s = (read_name mem s addr f, ?t)"
        using \<open>GetInfoFromCache addr s = None\<close> run Some by (simp add: GetName_def Let_def table_frame(4) [OF t(1)])
      then show ?thesis
        using f inv frame by auto
    qed
  qed
qed


text \<open>Two functions, at \<open>0x10\<close> and at \<open>0x8\<close>, named \<^verbatim>\<open>a\<close> and \<^verbatim>\<open>b\<close>.\<close>

definition example_symtab :: "u8 list" where
  "example_symtab =
     [1, 0, 0, 0, 0x10, 0, 0, 0, 4, 0, 0, 0, 2, 0, 1, 0,
      3, 0, 0, 0, 0x08, 0, 0, 0, 8, 0, 0, 0, 2, 0, 1, 0,
      0, 0x61, 0, 0x62, 0]"

definition example_symbols :: symbols where
  "example_symbols = Symbols 0 32 16 32 5"

lemma example_symbols_inv: "sym_inv ELFCLASS32 (MemoryBuffer_Read example_symtab) 2 example_symbols"
proof -
  let ?mem = "MemoryBuffer_Read example_symtab"
  have "list_all (\<lambda>k. entry_at ELFCLASS32 ?mem example_symbols k \<noteq> None) [0..<2]"
      "list_all (\<lambda>f. info_str_offset f < sym_str_end example_symbols) (function_infos ELFCLASS32 ?mem example_symbols 2)"
      "separate (function_infos ELFCLASS32 ?mem example_symbols 2)"
    by code_simp+
  then have "table_ok ELFCLASS32 ?mem 2 example_symbols"
    by (simp add: table_ok_def example_symbols_def Symbols_def)
  moreover have "cache_holds ELFCLASS32 ?mem 0 example_symbols"
    by (simp add: cache_holds_def example_symbols_def Symbols_def function_infos_def)
  ultimately show ?thesis
    by (auto simp: sym_inv_def example_symbols_def Symbols_def intro!: exI [of _ 0])
qed


end
