(* ===== verification/Elf_Interface.thy ===== *)
theory Elf_Interface
  imports Symbols Dwarf_Step
begin

text \<open>
  \<^verbatim>\<open>ElfInterface.h\<close> and \<^verbatim>\<open>ElfInterface.cpp\<close>: the headers of an ELF file, its symbols, names and build id, and the
  sections with unwind information. \<^verbatim>\<open>ElfInterface32\<close>, \<^verbatim>\<open>ElfInterface64\<close> and \<^verbatim>\<open>ElfInterfaceArm\<close> are one record with a
  tag; the results are on the notes of the build id.
\<close>

unbundle bit_operations_syntax

section \<open>Errors\<close>

datatype ErrorCode =
    ERROR_NONE | ERROR_MEMORY_INVALID | ERROR_UNWIND_INFO | ERROR_UNSUPPORTED | ERROR_INVALID_MAP
  | ERROR_MAX_FRAMES_EXCEEDED | ERROR_REPEATED_FRAME | ERROR_INVALID_ELF

record ErrorData =
  err_code :: ErrorCode
  err_address :: u64

section \<open>Surroundings\<close>

text \<open>
  What the code takes from outside: the order \<^verbatim>\<open>std::sort\<close> chooses, the values of uninitialised variables, and the
  decoder of the LZMA library. One call of \<^verbatim>\<open>XzUnpacker_Code\<close> gets the state, the room for output and the
  remaining input. \<open>env_fuel\<close> bounds the loops that need not end.
\<close>

record xz_result =
  xz_ok :: bool
  xz_not_finished :: bool
  xz_output :: "u8 list"
  xz_consumed :: nat
  xz_state :: "u8 list"

record env =
  env_fuel :: nat
  env_sort :: "sym_info list \<Rightarrow> sym_info list"
  env_uninit :: "nat \<Rightarrow> u64"
  env_xz_init :: "u8 list"
  env_xz_code :: "u8 list \<Rightarrow> nat \<Rightarrow> u8 list \<Rightarrow> xz_result"
  env_xz_finished :: "u8 list \<Rightarrow> bool"

section \<open>State\<close>

datatype interface_kind = ElfInterface32 | ElfInterface64 | ElfInterfaceArm

definition kind_class :: "interface_kind \<Rightarrow> elf_class" where
  "kind_class k = (case k of ElfInterface64 \<Rightarrow> ELFCLASS64 | _ \<Rightarrow> ELFCLASS32)"

record LoadInfo =
  load_offset :: u64
  table_offset :: u64
  table_size :: u64

datatype soname_type = SONAME_UNKNOWN | SONAME_VALID | SONAME_INVALID

text \<open>The last four members are those of \<^verbatim>\<open>ElfInterfaceArm\<close>.\<close>

record elf_interface =
  if_kind :: interface_kind
  if_memory :: memory
  pt_loads :: "(u64 \<times> LoadInfo) list"
  dynamic_offset :: u64
  dynamic_vaddr :: u64
  dynamic_size :: u64
  eh_frame_hdr_offset :: u64
  eh_frame_hdr_size :: u64
  eh_frame_offset :: u64
  eh_frame_size :: u64
  debug_frame_offset :: u64
  debug_frame_size :: u64
  gnu_debugdata_offset :: u64
  gnu_debugdata_size :: u64
  gnu_build_id_offset :: u64
  gnu_build_id_size :: u64
  if_soname_type :: soname_type
  if_soname :: "u8 list"
  if_error :: ErrorData
  eh_frame :: "dwarf_section option"
  debug_frame :: "dwarf_section option"
  if_symbols :: "symbols list"
  strtabs :: "(u64 \<times> u64) list"
  arm_start_offset :: u64
  arm_total_entries :: u64
  arm_load_bias :: u64
  arm_addrs :: "(u64 \<times> u32) list"

definition ElfInterface :: "interface_kind \<Rightarrow> memory \<Rightarrow> elf_interface" where
  "ElfInterface k mem =
     \<lparr>if_kind = k, if_memory = mem, pt_loads = [], dynamic_offset = 0, dynamic_vaddr = 0, dynamic_size = 0,
      eh_frame_hdr_offset = 0, eh_frame_hdr_size = 0, eh_frame_offset = 0, eh_frame_size = 0,
      debug_frame_offset = 0, debug_frame_size = 0, gnu_debugdata_offset = 0, gnu_debugdata_size = 0,
      gnu_build_id_offset = 0, gnu_build_id_size = 0, if_soname_type = SONAME_UNKNOWN, if_soname = [],
      if_error = \<lparr>err_code = ERROR_NONE, err_address = 0\<rparr>, eh_frame = None, debug_frame = None, if_symbols = [],
      strtabs = [], arm_start_offset = 0, arm_total_entries = 0, arm_load_bias = 0, arm_addrs = []\<rparr>"

type_synonym 'r if_prog = "(elf_interface, 'r) prog"

definition if_class :: "elf_interface \<Rightarrow> elf_class" where
  "if_class s = kind_class (if_kind s)"

definition set_if_error :: "ErrorCode \<Rightarrow> u64 \<Rightarrow> elf_interface \<Rightarrow> elf_interface" where
  "set_if_error c a s = s\<lparr>if_error := \<lparr>err_code = c, err_address = a\<rparr>\<rparr>"

definition set_if_code :: "ErrorCode \<Rightarrow> elf_interface \<Rightarrow> elf_interface" where
  "set_if_code c s = s\<lparr>if_error := (if_error s)\<lparr>err_code := c\<rparr>\<rparr>"

text \<open>A call on one of the sections; \<^verbatim>\<open>nullptr\<close> is a failure.\<close>

definition on_debug_frame :: "(dwarf_section, 'r) prog \<Rightarrow> 'r if_prog" where
  "on_debug_frame p = (\<lambda>s. case debug_frame s of
     None \<Rightarrow> (Fail, s) | Some sec \<Rightarrow> (case p sec of (r, sec') \<Rightarrow> (r, s\<lparr>debug_frame := Some sec'\<rparr>)))"

definition on_eh_frame :: "(dwarf_section, 'r) prog \<Rightarrow> 'r if_prog" where
  "on_eh_frame p = (\<lambda>s. case eh_frame s of
     None \<Rightarrow> (Fail, s) | Some sec \<Rightarrow> (case p sec of (r, sec') \<Rightarrow> (r, s\<lparr>eh_frame := Some sec'\<rparr>)))"

text \<open>The sections are instances for the address type of the class.\<close>

definition class_GetFdeFromPc :: "elf_class \<Rightarrow> nat \<Rightarrow> u64 \<Rightarrow> u64 sec_prog" where
  "class_GetFdeFromPc cls fuel pc =
     (case cls of ELFCLASS32 \<Rightarrow> GetFdeFromPc TYPE(32) fuel pc | ELFCLASS64 \<Rightarrow> GetFdeFromPc TYPE(64) fuel pc)"

definition class_section_Init :: "elf_class \<Rightarrow> u64 \<Rightarrow> u64 \<Rightarrow> u64 \<Rightarrow> unit sec_prog" where
  "class_section_Init cls offset sz bias =
     (case cls of
        ELFCLASS32 \<Rightarrow> DwarfSection_Init TYPE(32) offset sz bias
      | ELFCLASS64 \<Rightarrow> DwarfSection_Init TYPE(64) offset sz bias)"

section \<open>Program counters\<close>

definition covers_pc :: "u64 \<Rightarrow> LoadInfo \<Rightarrow> bool" where
  "covers_pc pc info \<longleftrightarrow> pc \<ge> table_offset info \<and> pc < table_offset info + table_size info"

definition Interface_IsValidPc :: "env \<Rightarrow> u64 \<Rightarrow> bool if_prog" where
  "Interface_IsValidPc e pc =
     bnd (gets id) (\<lambda>s.
     if pt_loads s \<noteq> [] then ret (list_ex (\<lambda>(_, info). covers_pc pc info) (pt_loads s))
     else
       or_else (bnd (on_debug_frame (class_GetFdeFromPc (if_class s) (env_fuel e) pc)) (\<lambda>_. ret True))
         (or_else (bnd (on_eh_frame (class_GetFdeFromPc (if_class s) (env_fuel e) pc)) (\<lambda>_. ret True))
            (ret False)))"

section \<open>Compressed debug data\<close>

definition overwrite :: "nat \<Rightarrow> 'b list \<Rightarrow> 'b list \<Rightarrow> 'b list" where
  "overwrite off new xs = take off xs @ new @ drop (off + length new) xs"

fun xz_loop :: "env \<Rightarrow> nat \<Rightarrow> u64 \<Rightarrow> u8 list \<Rightarrow> nat \<Rightarrow> u8 list \<Rightarrow> nat \<Rightarrow> u8 list \<Rightarrow> (u8 list) outcome" where
  "xz_loop e fuel sz src src_offset dst dst_offset st =
     (case fuel of
        0 \<Rightarrow> Crash OutOfFuel
      | Suc fuel' \<Rightarrow>
          let dst' = (if length dst - dst_offset < unat (2 * sz)
                      then MemoryBuffer_Resize (length dst + unat (2 * sz)) dst else dst);
              r = env_xz_code e st (length dst' - dst_offset) (drop src_offset src);
              dst'' = overwrite dst_offset (xz_output r) dst';
              dst_offset' = dst_offset + length (xz_output r) in
          if length (xz_output r) > length dst' - dst_offset then Crash Undefined
          else if xz_ok r \<and> xz_not_finished r then
            xz_loop e fuel' sz src (src_offset + xz_consumed r) dst'' dst_offset' (xz_state r)
          else if \<not> xz_ok r \<or> \<not> env_xz_finished e (xz_state r) then Fail
          else Ok (MemoryBuffer_Resize dst_offset' dst''))"

declare xz_loop.simps [simp del]

definition CreateGnuDebugdataMemory :: "env \<Rightarrow> memory if_prog" where
  "CreateGnuDebugdataMemory e = (\<lambda>s.
     let sz = gnu_debugdata_size s; reset = s\<lparr>gnu_debugdata_offset := 0, gnu_debugdata_size := -1\<rparr> in
     if gnu_debugdata_offset s = 0 \<or> sz = 0 then (Fail, s)
     else
       case ReadFully (if_memory s) (gnu_debugdata_offset s) (unat sz) of
         None \<Rightarrow> (Fail, reset)
       | Some src \<Rightarrow>
           case xz_loop e (env_fuel e) sz src 0 (MemoryBuffer_Resize (unat (5 * sz)) []) 0 (env_xz_init e) of
             Crash c \<Rightarrow> (Crash c, s)
           | Fail \<Rightarrow> (Fail, reset)
           | Ok dst \<Rightarrow> (Ok (MemoryBuffer_Read dst), s))"

section \<open>Sections\<close>

text \<open>A section object that is discarded if \<^verbatim>\<open>Init\<close> fails.\<close>

definition new_section :: "env \<Rightarrow> section_class \<Rightarrow> u64 \<Rightarrow> u64 \<Rightarrow> u64 \<Rightarrow> elf_interface \<Rightarrow> dwarf_section option outcome" where
  "new_section e cls offset sz bias s =
     (case class_section_Init (if_class s) offset sz bias (DwarfSection cls (if_memory s) (env_uninit e 0)) of
        (Ok _, sec) \<Rightarrow> Ok (Some sec)
      | (Fail, _) \<Rightarrow> Ok None
      | (Crash c, _) \<Rightarrow> Crash c)"

definition lift_outcome :: "('s \<Rightarrow> 'r outcome) \<Rightarrow> ('s, 'r) prog" where
  "lift_outcome f = (\<lambda>s. (f s, s))"

definition InitHeaders :: "env \<Rightarrow> u64 \<Rightarrow> unit if_prog" where
  "InitHeaders e bias =
     bnd (gets id) (\<lambda>s.
     bnd (if eh_frame_hdr_offset s \<noteq> 0
          then bnd (lift_outcome (new_section e EhFrameWithHdr (eh_frame_hdr_offset s) (eh_frame_hdr_size s) bias))
                 (\<lambda>sec. modify (\<lambda>s. s\<lparr>eh_frame := sec\<rparr>))
          else ret ()) (\<lambda>_.
     bnd (gets eh_frame) (\<lambda>sec.
     bnd (if sec = None \<and> eh_frame_offset s \<noteq> 0
          then bnd (lift_outcome (new_section e EhFrame (eh_frame_offset s) (eh_frame_size s) bias))
                 (\<lambda>sec. modify (\<lambda>s. s\<lparr>eh_frame := sec\<rparr>))
          else ret ()) (\<lambda>_.
     bnd (gets eh_frame) (\<lambda>sec.
     bnd (if sec = None
          then modify (\<lambda>s. s\<lparr>eh_frame_hdr_offset := 0, eh_frame_hdr_size := -1, eh_frame_offset := 0, eh_frame_size := -1\<rparr>)
          else ret ()) (\<lambda>_.
     if debug_frame_offset s \<noteq> 0 then
       bnd (lift_outcome (new_section e DebugFrame (debug_frame_offset s) (debug_frame_size s) bias)) (\<lambda>sec.
       modify (\<lambda>s. case sec of
           Some _ \<Rightarrow> s\<lparr>debug_frame := sec\<rparr>
         | None \<Rightarrow> s\<lparr>debug_frame := None, debug_frame_offset := 0, debug_frame_size := -1\<rparr>))
     else ret ()))))))"

section \<open>Headers\<close>

definition PT_ARM_EXIDX :: u32 where "PT_ARM_EXIDX = 0x70000001"

definition HandleUnknownType :: "u32 \<Rightarrow> u64 \<Rightarrow> u64 \<Rightarrow> elf_interface \<Rightarrow> elf_interface" where
  "HandleUnknownType ty ph_offset ph_filesz s =
     (if if_kind s = ElfInterfaceArm \<and> ty = PT_ARM_EXIDX
      then s\<lparr>arm_start_offset := ph_offset, arm_total_entries := ph_filesz div 8\<rparr>
      else s)"

text \<open>The body of the loop over the program headers; \<^verbatim>\<open>*load_bias\<close> is passed along.\<close>

definition program_header :: "elf_phdr \<Rightarrow> elf_interface \<times> u64 \<Rightarrow> elf_interface \<times> u64" where
  "program_header phdr = (\<lambda>(s, bias).
     if p_type phdr = PT_LOAD then
       (if p_flags phdr AND PF_X = 0 then (s, bias)
        else
          (s\<lparr>pt_loads := AList.update (p_offset phdr)
               \<lparr>load_offset = p_offset phdr, table_offset = p_vaddr phdr, table_size = p_memsz phdr\<rparr> (pt_loads s)\<rparr>,
           if p_offset phdr = 0 then p_vaddr phdr else bias))
     else if p_type phdr = PT_GNU_EH_FRAME then
       (s\<lparr>eh_frame_hdr_offset := p_offset phdr, eh_frame_hdr_size := p_memsz phdr\<rparr>, bias)
     else if p_type phdr = PT_DYNAMIC then
       (s\<lparr>dynamic_offset := p_offset phdr, dynamic_vaddr := p_vaddr phdr, dynamic_size := p_memsz phdr\<rparr>, bias)
     else (HandleUnknownType (p_type phdr) (p_offset phdr) (p_filesz phdr) s, bias))"

fun ReadProgramHeaders_loop :: "nat \<Rightarrow> u64 \<Rightarrow> u64 \<Rightarrow> elf_interface \<times> u64 \<Rightarrow> elf_interface \<times> u64" where
  "ReadProgramHeaders_loop 0 entsize offset st = st"
| "ReadProgramHeaders_loop (Suc n) entsize offset st =
     (case read_phdr (if_class (fst st)) (if_memory (fst st)) offset of
        None \<Rightarrow> st
      | Some phdr \<Rightarrow> ReadProgramHeaders_loop n entsize (offset + entsize) (program_header phdr st))"

definition ReadProgramHeaders :: "elf_ehdr \<Rightarrow> elf_interface \<times> u64 \<Rightarrow> elf_interface \<times> u64" where
  "ReadProgramHeaders ehdr = ReadProgramHeaders_loop (unat (e_phnum ehdr)) (ucast (e_phentsize ehdr)) (e_phoff ehdr)"

fun GetLoadBias_loop :: "elf_class \<Rightarrow> memory \<Rightarrow> nat \<Rightarrow> u64 \<Rightarrow> u64 \<Rightarrow> u64" where
  "GetLoadBias_loop cls mem 0 entsize offset = 0"
| "GetLoadBias_loop cls mem (Suc n) entsize offset =
     (case read_phdr cls mem offset of
        None \<Rightarrow> 0
      | Some phdr \<Rightarrow>
          if p_type phdr = PT_LOAD \<and> p_offset phdr = 0 then p_vaddr phdr
          else GetLoadBias_loop cls mem n entsize (offset + entsize))"

definition Interface_GetLoadBias :: "elf_class \<Rightarrow> memory \<Rightarrow> u64" where
  "Interface_GetLoadBias cls mem =
     (case read_ehdr cls mem 0 of
        None \<Rightarrow> 0
      | Some ehdr \<Rightarrow> GetLoadBias_loop cls mem (unat (e_phnum ehdr)) (ucast (e_phentsize ehdr)) (e_phoff ehdr))"

text \<open>A product of two \<^verbatim>\<open>uint16_t\<close> values is one of \<^verbatim>\<open>int\<close> values, whose overflow is undefined.\<close>

definition int_product :: "u16 \<Rightarrow> u16 \<Rightarrow> u64 outcome" where
  "int_product a b = (if unat a * unat b < 2 ^ 31 then Ok (ucast a * ucast b) else Crash Undefined)"

definition read_name_at :: "memory \<Rightarrow> u64 \<Rightarrow> u8 list option" where
  "read_name_at mem addr = (case ReadString mem addr (-1) of (True, name) \<Rightarrow> Some name | (False, _) \<Rightarrow> None)"

text \<open>A section with a name: \<open>names_offset\<close> is the location of the names.\<close>

definition named_section :: "u64 \<Rightarrow> elf_shdr \<Rightarrow> elf_interface \<Rightarrow> elf_interface" where
  "named_section names_offset shdr s =
     (case read_name_at (if_memory s) (names_offset + ucast (sh_name shdr)) of
        None \<Rightarrow> s
      | Some name \<Rightarrow>
          if name = ascii ''.debug_frame''
          then s\<lparr>debug_frame_offset := sh_offset shdr, debug_frame_size := sh_size shdr\<rparr>
          else if name = ascii ''.gnu_debugdata''
          then s\<lparr>gnu_debugdata_offset := sh_offset shdr, gnu_debugdata_size := sh_size shdr\<rparr>
          else if name = ascii ''.eh_frame''
          then s\<lparr>eh_frame_offset := sh_offset shdr, eh_frame_size := sh_size shdr\<rparr>
          else if eh_frame_hdr_offset s = 0 \<and> name = ascii ''.eh_frame_hdr''
          then s\<lparr>eh_frame_hdr_offset := sh_offset shdr, eh_frame_hdr_size := sh_size shdr\<rparr>
          else s)"

definition section_header :: "elf_ehdr \<Rightarrow> u64 \<Rightarrow> u64 \<Rightarrow> elf_shdr \<Rightarrow> elf_interface \<Rightarrow> elf_interface" where
  "section_header ehdr names_offset names_size shdr s =
     (if sh_type shdr = SHT_SYMTAB \<or> sh_type shdr = SHT_DYNSYM then
        (if sh_link shdr \<ge> ucast (e_shnum ehdr) then s
         else
           case read_shdr (if_class s) (if_memory s) (e_shoff ehdr + ucast (sh_link shdr * ucast (e_shentsize ehdr))) of
             None \<Rightarrow> s
           | Some str_shdr \<Rightarrow>
               if sh_type str_shdr \<noteq> SHT_STRTAB then s
               else s\<lparr>if_symbols := if_symbols s @
                      [Symbols (sh_offset shdr) (sh_size shdr) (sh_entsize shdr) (sh_offset str_shdr) (sh_size str_shdr)]\<rparr>)
      else if sh_type shdr = SHT_PROGBITS \<and> names_size \<noteq> 0 then
        (if ucast (sh_name shdr) < names_size then named_section names_offset shdr s else s)
      else if sh_type shdr = SHT_STRTAB then s\<lparr>strtabs := strtabs s @ [(sh_addr shdr, sh_offset shdr)]\<rparr>
      else if sh_type shdr = SHT_NOTE then
        (if ucast (sh_name shdr) < names_size \<and>
            read_name_at (if_memory s) (names_offset + ucast (sh_name shdr)) = Some (ascii ''.note.gnu.build-id'')
         then s\<lparr>gnu_build_id_offset := sh_offset shdr, gnu_build_id_size := sh_size shdr\<rparr> else s)
      else s)"

fun ReadSectionHeaders_loop :: "elf_ehdr \<Rightarrow> u64 \<Rightarrow> u64 \<Rightarrow> nat \<Rightarrow> u64 \<Rightarrow> elf_interface \<Rightarrow> elf_interface" where
  "ReadSectionHeaders_loop ehdr names_offset names_size 0 offset s = s"
| "ReadSectionHeaders_loop ehdr names_offset names_size (Suc n) offset s =
     (case read_shdr (if_class s) (if_memory s) offset of
        None \<Rightarrow> s
      | Some shdr \<Rightarrow>
          ReadSectionHeaders_loop ehdr names_offset names_size n (offset + ucast (e_shentsize ehdr))
            (section_header ehdr names_offset names_size shdr s))"

text \<open>The location and the size of the section with the names, zero if there is none.\<close>

definition section_names :: "elf_ehdr \<Rightarrow> elf_class \<Rightarrow> memory \<Rightarrow> (u64 \<times> u64) outcome" where
  "section_names ehdr cls mem =
     (if e_shstrndx ehdr < e_shnum ehdr then
        case int_product (e_shstrndx ehdr) (e_shentsize ehdr) of
          Ok off \<Rightarrow>
            (case read_shdr cls mem (e_shoff ehdr + off) of
               Some shdr \<Rightarrow> Ok (sh_offset shdr, sh_size shdr)
             | None \<Rightarrow> Ok (0, 0))
        | Fail \<Rightarrow> Fail
        | Crash c \<Rightarrow> Crash c
      else Ok (0, 0))"

definition ReadSectionHeaders :: "elf_ehdr \<Rightarrow> unit if_prog" where
  "ReadSectionHeaders ehdr =
     bnd (lift_outcome (\<lambda>s. section_names ehdr (if_class s) (if_memory s))) (\<lambda>(names_offset, names_size).
     modify (ReadSectionHeaders_loop ehdr names_offset names_size (unat (e_shnum ehdr) - 1)
       (e_shoff ehdr + ucast (e_shentsize ehdr))))"

definition ReadAllHeaders :: "u64 \<Rightarrow> u64 if_prog" where
  "ReadAllHeaders bias =
     bnd (gets (\<lambda>s. read_ehdr (if_class s) (if_memory s) 0)) (\<lambda>ehdr.
     case ehdr of
       None \<Rightarrow> fail_with (set_if_error ERROR_MEMORY_INVALID 0)
     | Some ehdr \<Rightarrow>
         bnd (gets (\<lambda>s. ReadProgramHeaders ehdr (s, bias))) (\<lambda>(s', bias').
         bnd (modify (\<lambda>_. s')) (\<lambda>_.
         bnd (ReadSectionHeaders ehdr) (\<lambda>_.
         ret bias'))))"

text \<open>\<^verbatim>\<open>Init\<close> of the three classes; the result is the load bias.\<close>

definition Interface_Init :: "u64 \<Rightarrow> u64 if_prog" where
  "Interface_Init bias =
     bnd (ReadAllHeaders bias) (\<lambda>bias'.
     bnd (modify (\<lambda>s. if if_kind s = ElfInterfaceArm then s\<lparr>arm_load_bias := bias'\<rparr> else s)) (\<lambda>_.
     ret bias'))"

definition GetMaxSize :: "elf_class \<Rightarrow> memory \<Rightarrow> u64 \<Rightarrow> u64 outcome" where
  "GetMaxSize cls mem sz =
     (case read_ehdr cls mem 0 of
        None \<Rightarrow> Ok sz
      | Some ehdr \<Rightarrow>
          if e_shnum ehdr = 0 then Ok sz
          else
            case int_product (e_shentsize ehdr) (e_shnum ehdr) of
              Ok n \<Rightarrow> Ok (e_shoff ehdr + n)
            | Fail \<Rightarrow> Fail
            | Crash c \<Rightarrow> Crash c)"

section \<open>Names\<close>

text \<open>The loop over the dynamic section: the values of \<^verbatim>\<open>DT_SONAME\<close>, \<^verbatim>\<open>DT_STRTAB\<close> and \<^verbatim>\<open>DT_STRSZ\<close>.\<close>

fun dynamic_loop :: "elf_class \<Rightarrow> memory \<Rightarrow> nat \<Rightarrow> u64 \<Rightarrow> u64 \<Rightarrow> u64 \<times> u64 \<times> u64 \<Rightarrow> (u64 + u64 \<times> u64 \<times> u64) outcome" where
  "dynamic_loop cls mem fuel max_offset offset (soname_offset, strtab_addr, strtab_size) =
     (if offset < max_offset then
        case fuel of
          0 \<Rightarrow> Crash OutOfFuel
        | Suc fuel' \<Rightarrow>
            case read_dyn cls mem offset of
              None \<Rightarrow> Ok (Inl offset)
            | Some dyn \<Rightarrow>
                if d_tag dyn = DT_NULL then Ok (Inr (soname_offset, strtab_addr, strtab_size))
                else dynamic_loop cls mem fuel' max_offset (offset + of_nat (sizeof_dyn cls))
                  (if d_tag dyn = DT_STRTAB then (soname_offset, d_val dyn, strtab_size)
                   else if d_tag dyn = DT_STRSZ then (soname_offset, strtab_addr, d_val dyn)
                   else if d_tag dyn = DT_SONAME then (d_val dyn, strtab_addr, strtab_size)
                   else (soname_offset, strtab_addr, strtab_size))
      else Ok (Inr (soname_offset, strtab_addr, strtab_size)))"

declare dynamic_loop.simps [simp del]

text \<open>\<^verbatim>\<open>soname_\<close> is also changed by a failed \<^verbatim>\<open>ReadString\<close>, but not read after it.\<close>

definition Interface_GetSoname :: "env \<Rightarrow> u8 list if_prog" where
  "Interface_GetSoname e = (\<lambda>s.
     case if_soname_type s of
       SONAME_INVALID \<Rightarrow> (Ok [], s)
     | SONAME_VALID \<Rightarrow> (Ok (if_soname s), s)
     | SONAME_UNKNOWN \<Rightarrow>
         let s' = s\<lparr>if_soname_type := SONAME_INVALID\<rparr> in
         case dynamic_loop (if_class s) (if_memory s) (env_fuel e) (dynamic_offset s + dynamic_size s) (dynamic_offset s)
                (0, 0, 0) of
           Crash c \<Rightarrow> (Crash c, s')
         | Fail \<Rightarrow> (Fail, s')
         | Ok (Inl offset) \<Rightarrow> (Ok [], set_if_error ERROR_MEMORY_INVALID offset s')
         | Ok (Inr (soname_offset, strtab_addr, strtab_size)) \<Rightarrow>
             (case map_of (strtabs s) strtab_addr of
                None \<Rightarrow> (Ok [], s')
              | Some strtab_offset \<Rightarrow>
                  let off = strtab_offset + soname_offset in
                  if off \<ge> strtab_offset + strtab_size then (Ok [], s')
                  else
                    case read_name_at (if_memory s) off of
                      None \<Rightarrow> (Ok [], s')
                    | Some name \<Rightarrow> (Ok name, s'\<lparr>if_soname := name, if_soname_type := SONAME_VALID\<rparr>)))"

fun GetFunctionName_loop :: "env \<Rightarrow> elf_class \<Rightarrow> u64 \<Rightarrow> memory \<Rightarrow> (symbols list, u8 list \<times> u64) prog" where
  "GetFunctionName_loop e cls addr mem [] = (Fail, [])"
| "GetFunctionName_loop e cls addr mem (sy # sys) =
     (case GetName (env_sort e) cls (env_fuel e) addr mem sy of
        (Ok r, sy') \<Rightarrow> (Ok r, sy' # sys)
      | (Crash c, sy') \<Rightarrow> (Crash c, sy' # sys)
      | (Fail, sy') \<Rightarrow> apsnd (Cons sy') (GetFunctionName_loop e cls addr mem sys))"

definition base_GetFunctionName :: "env \<Rightarrow> u64 \<Rightarrow> (u8 list \<times> u64) if_prog" where
  "base_GetFunctionName e addr =
     bnd (gets id) (\<lambda>s.
     on_member if_symbols (\<lambda>sys s. s\<lparr>if_symbols := sys\<rparr>)
       (GetFunctionName_loop e (if_class s) addr (if_memory s)))"

text \<open>\<^verbatim>\<open>ElfInterfaceArm\<close> overrides it.\<close>

definition Interface_GetFunctionName :: "env \<Rightarrow> u64 \<Rightarrow> (u8 list \<times> u64) if_prog" where
  "Interface_GetFunctionName e addr =
     bnd (gets if_kind) (\<lambda>k.
     if k = ElfInterfaceArm
     then bnd (base_GetFunctionName e (addr OR 1)) (\<lambda>(name, off). ret (name, off AND NOT 1))
     else base_GetFunctionName e addr)"

fun GetGlobalVariable_loop :: "env \<Rightarrow> elf_class \<Rightarrow> memory \<Rightarrow> u8 list \<Rightarrow> symbols list \<Rightarrow> u64 outcome" where
  "GetGlobalVariable_loop e cls mem name [] = Fail"
| "GetGlobalVariable_loop e cls mem name (sy # sys) =
     (case GetGlobal cls (env_fuel e) mem name sy of
        Fail \<Rightarrow> GetGlobalVariable_loop e cls mem name sys
      | r \<Rightarrow> r)"

definition Interface_GetGlobalVariable :: "env \<Rightarrow> u8 list \<Rightarrow> elf_interface \<Rightarrow> u64 outcome" where
  "Interface_GetGlobalVariable e name s = GetGlobalVariable_loop e (if_class s) (if_memory s) name (if_symbols s)"

section \<open>Build ids\<close>

text \<open>\<^verbatim>\<open>(n + 3) & ~3\<close> on \<^verbatim>\<open>uint32_t\<close>, widened.\<close>

definition align4 :: "u32 \<Rightarrow> u64" where
  "align4 n = ucast ((n + 3) AND NOT 3)"

text \<open>The name with a trailing zero removed.\<close>

definition trim0 :: "u8 list \<Rightarrow> u8 list" where
  "trim0 name = (if name \<noteq> [] \<and> last name = 0 then butlast name else name)"

text \<open>
  The loop over the notes, which \<^verbatim>\<open>ReadBuildID\<close> and \<^verbatim>\<open>ReadBuildIDFromMemory\<close> share up to the last step: the address
  and the size of the build id, if there is one.
\<close>

fun note_loop :: "memory \<Rightarrow> u64 \<Rightarrow> u64 \<Rightarrow> nat \<Rightarrow> u64 \<Rightarrow> (u64 \<times> u32) option outcome" where
  "note_loop mem base sz fuel offset =
     (if offset < sz then
        case fuel of
          0 \<Rightarrow> Crash OutOfFuel
        | Suc fuel' \<Rightarrow>
            if sz - offset < of_nat sizeof_nhdr then Ok None
            else
              case read_nhdr mem (base + offset) of
                None \<Rightarrow> Ok None
              | Some hdr \<Rightarrow>
                  let offset1 = offset + of_nat sizeof_nhdr in
                  if sz - offset1 < ucast (n_namesz hdr) then Ok None
                  else if n_namesz hdr > 0 then
                    (case ReadFully mem (base + offset1) (unat (n_namesz hdr)) of
                       None \<Rightarrow> Ok None
                     | Some name \<Rightarrow>
                         let offset2 = offset1 + align4 (n_namesz hdr) in
                         if trim0 name = ascii ''GNU'' \<and> n_type hdr = NT_GNU_BUILD_ID then
                           (if sz - offset2 < ucast (n_descsz hdr) \<or> n_descsz hdr = 0 then Ok None
                            else Ok (Some (base + offset2, n_descsz hdr)))
                         else note_loop mem base sz fuel' (offset2 + align4 (n_descsz hdr)))
                  else note_loop mem base sz fuel' (offset1 + align4 (n_descsz hdr))
      else Ok None)"

declare note_loop.simps [simp del]

definition find_build_id :: "memory \<Rightarrow> u64 \<Rightarrow> u64 \<Rightarrow> nat \<Rightarrow> (u64 \<times> u32) option outcome" where
  "find_build_id mem base sz fuel =
     (if unat base + unat sz \<ge> 2 ^ 64 then Ok None else note_loop mem base sz fuel 0)"

definition Interface_GetBuildID :: "env \<Rightarrow> elf_interface \<Rightarrow> (u8 list) outcome" where
  "Interface_GetBuildID e s =
     (case find_build_id (if_memory s) (gnu_build_id_offset s) (gnu_build_id_size s) (env_fuel e) of
        Ok (Some (addr, descsz)) \<Rightarrow>
          (case ReadFully (if_memory s) addr (unat descsz) of None \<Rightarrow> Ok [] | Some build_id \<Rightarrow> Ok build_id)
      | Ok None \<Rightarrow> Ok []
      | Fail \<Rightarrow> Fail
      | Crash c \<Rightarrow> Crash c)"

fun GetBuildIDInfo_loop :: "elf_class \<Rightarrow> memory \<Rightarrow> u64 \<Rightarrow> u64 \<Rightarrow> u64 \<Rightarrow> nat \<Rightarrow> u64 \<Rightarrow> (u64 \<times> u64) option" where
  "GetBuildIDInfo_loop cls mem names_offset names_size entsize 0 offset = None"
| "GetBuildIDInfo_loop cls mem names_offset names_size entsize (Suc n) offset =
     (case read_shdr cls mem offset of
        None \<Rightarrow> None
      | Some shdr \<Rightarrow>
          if sh_type shdr = SHT_NOTE \<and> ucast (sh_name shdr) < names_size \<and>
             read_name_at mem (names_offset + ucast (sh_name shdr)) = Some (ascii ''.note.gnu.build-id'')
          then Some (sh_offset shdr, sh_size shdr)
          else GetBuildIDInfo_loop cls mem names_offset names_size entsize n (offset + entsize))"

definition GetBuildIDInfo :: "elf_class \<Rightarrow> memory \<Rightarrow> (u64 \<times> u64) option outcome" where
  "GetBuildIDInfo cls mem =
     (case read_ehdr cls mem 0 of
        None \<Rightarrow> Ok None
      | Some ehdr \<Rightarrow>
          if e_shstrndx ehdr \<ge> e_shnum ehdr then Ok None
          else
            case int_product (e_shstrndx ehdr) (e_shentsize ehdr) of
              Ok off \<Rightarrow>
                (case read_shdr cls mem (e_shoff ehdr + off) of
                   None \<Rightarrow> Ok None
                 | Some shdr \<Rightarrow>
                     Ok (GetBuildIDInfo_loop cls mem (sh_offset shdr) (sh_size shdr) (ucast (e_shentsize ehdr))
                       (unat (e_shnum ehdr) - 1) (e_shoff ehdr + ucast (e_shentsize ehdr))))
            | Fail \<Rightarrow> Fail
            | Crash c \<Rightarrow> Crash c)"

text \<open>
  \<^verbatim>\<open>ReadBuildIDFromMemory\<close> reads \<^verbatim>\<open>n_descsz\<close> bytes into a string of one less. The last byte replaces the terminator
  of the string, which is undefined unless it is zero.
\<close>

definition ReadBuildIDFromMemory :: "env \<Rightarrow> elf_class \<Rightarrow> memory \<Rightarrow> (u8 list) outcome" where
  "ReadBuildIDFromMemory e cls mem =
     (case GetBuildIDInfo cls mem of
        Ok (Some (note_offset, note_size)) \<Rightarrow>
          (case find_build_id mem note_offset note_size (env_fuel e) of
             Ok (Some (addr, descsz)) \<Rightarrow>
               (case ReadFully mem addr (unat descsz) of
                  None \<Rightarrow> Ok []
                | Some build_id \<Rightarrow> if last build_id = 0 then Ok (butlast build_id) else Crash Undefined)
           | Ok None \<Rightarrow> Ok []
           | Fail \<Rightarrow> Fail
           | Crash c \<Rightarrow> Crash c)
      | Ok None \<Rightarrow> Ok []
      | Fail \<Rightarrow> Fail
      | Crash c \<Rightarrow> Crash c)"

section \<open>The notes of a build id\<close>

text \<open>A note as the ELF format lays it out: the header, the name and the descriptor, both padded to four bytes.\<close>

record elf_note =
  note_name :: "u8 list"
  note_desc :: "u8 list"
  note_type :: u32

definition pad4 :: "u8 list \<Rightarrow> u8 list" where
  "pad4 bs = bs @ replicate (3 - (length bs + 3) mod 4) 0"

definition encode_note :: "elf_note \<Rightarrow> u8 list" where
  "encode_note n =
     le_bytes 4 (of_nat (length (note_name n)) :: u32) @ le_bytes 4 (of_nat (length (note_desc n)) :: u32) @
     le_bytes 4 (note_type n) @ pad4 (note_name n) @ pad4 (note_desc n)"

definition note_ok :: "elf_note \<Rightarrow> bool" where
  "note_ok n \<longleftrightarrow> length (note_name n) + 3 < 2 ^ 32 \<and> length (note_desc n) + 3 < 2 ^ 32"

definition is_build_id :: "elf_note \<Rightarrow> bool" where
  "is_build_id n \<longleftrightarrow> trim0 (note_name n) = ascii ''GNU'' \<and> note_type n = NT_GNU_BUILD_ID"

text \<open>The build id that a sequence of notes holds, empty if it holds none.\<close>

definition notes_build_id :: "elf_note list \<Rightarrow> u8 list" where
  "notes_build_id ns = (case find is_build_id ns of None \<Rightarrow> [] | Some n \<Rightarrow> note_desc n)"

lemma length_pad4: "length (pad4 bs) = 4 * ((length bs + 3) div 4)"
  by (simp add: pad4_def) presburger

lemma length_pad4_ge: "length bs \<le> length (pad4 bs)"
  by (simp add: pad4_def)

lemma take_pad4 [simp]: "take (length bs) (pad4 bs) = bs"
  by (simp add: pad4_def)

lemma align4_of_nat:
  assumes "length bs + 3 < 2 ^ 32"
  shows "align4 (of_nat (length bs)) = of_nat (length (pad4 bs))"
proof -
  let ?n = "of_nat (length bs) + 3 :: u32"
  have n: "unat ?n = length bs + 3"
    using assms by (simp add: unat_word_ariths unat_of_nat)
  have mask: "(3 :: u32) = mask 2"
    by (simp add: mask_eq_exp_minus_1)
  have "?n AND NOT 3 = push_bit 2 (drop_bit 2 ?n)"
    unfolding mask by (rule bit_eqI) (auto simp: bit_simps add_2_eq_Suc' [symmetric] simp del: add_2_eq_Suc' add_2_eq_Suc)
  then have "unat (?n AND NOT 3) = 4 * ((length bs + 3) div 4)"
    using n assms by (simp add: unsigned_push_bit_eq unat_drop_bit_eq push_bit_nat_def drop_bit_nat_def take_bit_nat_eq_self)
  then show ?thesis
    unfolding align4_def length_pad4 by (metis of_nat_unat)
qed

lemma read_encode_note:
  assumes holds: "holds_block mem a (encode_note n)" and ok: "note_ok n"
  shows "read_nhdr mem a =
      Some \<lparr>n_namesz = of_nat (length (note_name n)), n_descsz = of_nat (length (note_desc n)), n_type = note_type n\<rparr>"
    and "ReadFully mem (a + 12) (length (note_name n)) = Some (note_name n)"
    and "ReadFully mem (a + 12 + of_nat (length (pad4 (note_name n)))) (length (note_desc n)) = Some (note_desc n)"
proof -
  show "read_nhdr mem a =
      Some \<lparr>n_namesz = of_nat (length (note_name n)), n_descsz = of_nat (length (note_desc n)), n_type = note_type n\<rparr>"
    using holds_block_slice [OF holds, of 0 12]
    by (simp add: read_nhdr_def encode_note_def sizeof_nhdr_def member_at_def sizeof_def del: le_bytes.simps)
  show "ReadFully mem (a + 12) (length (note_name n)) = Some (note_name n)"
    using holds_block_slice [OF holds, of 12 "length (note_name n)"] length_pad4_ge [of "note_name n"]
    by (simp add: encode_note_def del: le_bytes.simps)
  show "ReadFully mem (a + 12 + of_nat (length (pad4 (note_name n)))) (length (note_desc n)) = Some (note_desc n)"
    using holds_block_slice [OF holds, of "12 + length (pad4 (note_name n))" "length (note_desc n)"]
      length_pad4_ge [of "note_desc n"]
    by (simp add: encode_note_def add.assoc del: le_bytes.simps)
qed

lemma length_encode_note:
  "length (encode_note n) = 12 + length (pad4 (note_name n)) + length (pad4 (note_desc n))"
  by (simp add: encode_note_def del: le_bytes.simps)

text \<open>One round of the loop, at a note that lies within the section.\<close>

lemma note_loop_step:
  assumes holds: "holds_block mem (base + offset) (encode_note n)" and ok: "note_ok n"
    and inside: "unat offset + length (encode_note n) \<le> unat sz"
  shows "note_loop mem base sz (Suc fuel) offset =
    (if is_build_id n then
       Ok (if note_desc n = [] then None
           else Some (base + offset + 12 + of_nat (length (pad4 (note_name n))), of_nat (length (note_desc n))))
     else note_loop mem base sz fuel (offset + of_nat (length (encode_note n))))"
proof -
  define nl where "nl = length (pad4 (note_name n))"
  define dl where "dl = length (pad4 (note_desc n))"
  note len = length_encode_note [of n, folded nl_def dl_def]
  note ge = length_pad4_ge [of "note_name n", folded nl_def] length_pad4_ge [of "note_desc n", folded dl_def]
  note reads = read_encode_note [OF holds ok, folded nl_def, unfolded add.assoc]
  have u: "unat (of_nat (length (note_name n)) :: u32) = length (note_name n)"
    "unat (of_nat (length (note_desc n)) :: u32) = length (note_desc n)"
    using ok by (simp_all add: note_ok_def unat_of_nat take_bit_nat_eq_self)
  have al: "align4 (of_nat (length (note_name n))) = of_nat nl" "align4 (of_nat (length (note_desc n))) = of_nat dl"
    using ok by (simp_all add: align4_of_nat note_ok_def nl_def dl_def)
  have bound: "unat offset + 12 + nl + dl < 2 ^ 64"
    using inside len unsigned_less [of sz, where 'a = nat] by simp
  have o1: "unat (offset + 12) = unat offset + 12" "unat (offset + 12 + of_nat nl) = unat offset + 12 + nl"
    using bound unat_add_of_nat [of offset 12] unat_add_of_nat [of "offset + 12" nl] by simp_all
  have lt: "offset < sz" "\<not> sz - offset < 12" "\<not> sz - (offset + 12) < ucast (of_nat (length (note_name n)) :: u32)"
    "\<not> sz - (offset + 12 + of_nat nl) < ucast (of_nat (length (note_desc n)) :: u32)"
    using inside len ge o1 u ok
    by (simp_all add: note_ok_def word_less_nat_alt unat_diff word_le_nat_alt unsigned_ucast_eq take_bit_nat_eq_self)
  have zero: "(of_nat (length (note_name n)) :: u32) = 0 \<longleftrightarrow> note_name n = []"
    "(of_nat (length (note_desc n)) :: u32) = 0 \<longleftrightarrow> note_desc n = []"
    using u by (auto simp flip: unat_eq_zero)
  have empty: "note_name n = [] \<Longrightarrow> \<not> is_build_id n \<and> nl = 0"
    by (simp add: is_build_id_def trim0_def ascii_def nl_def pad4_def)
  have "note_desc n = [] \<Longrightarrow> align4 0 = of_nat dl"
    using al(2) by simp
  then show ?thesis
    using lt empty
    by (subst note_loop.simps)
      (auto simp: Let_def reads u al zero len sizeof_nhdr_def word_gt_0 is_build_id_def add.assoc simp flip: nl_def)
qed

text \<open>The build id is where the loop says, with the size it says.\<close>

definition located :: "memory \<Rightarrow> u8 list \<Rightarrow> (u64 \<times> u32) option \<Rightarrow> bool" where
  "located mem build_id r \<longleftrightarrow>
     (case r of
        None \<Rightarrow> build_id = []
      | Some (addr, descsz) \<Rightarrow> build_id \<noteq> [] \<and> ReadFully mem addr (unat descsz) = Some build_id)"

lemma note_loop_notes:
  assumes "holds_block mem (base + offset) (concat (map encode_note ns))" and "list_all note_ok ns"
    and "unat offset + length (concat (map encode_note ns)) = unat sz" and "length ns \<le> fuel"
  shows "\<exists>r. note_loop mem base sz fuel offset = Ok r \<and> located mem (notes_build_id ns) r"
  using assms
proof (induction ns arbitrary: fuel offset)
  case Nil
  then show ?case
    by (subst note_loop.simps) (simp add: located_def notes_build_id_def word_less_nat_alt)
next
  case (Cons n ns)
  then obtain fuel' where fuel: "fuel = Suc fuel'"
    by (cases fuel) simp_all
  have holds: "holds_block mem (base + offset) (encode_note n)"
    "holds_block mem (base + offset + of_nat (length (encode_note n))) (concat (map encode_note ns))"
    using Cons.prems(1) holds_block_append [of mem "base + offset" "encode_note n" "concat (map encode_note ns)"]
    by simp_all
  have ok: "note_ok n" and inside: "unat offset + length (encode_note n) \<le> unat sz"
    using Cons.prems(2,3) by simp_all
  note step = note_loop_step [OF holds(1) ok inside, of fuel']
  show ?case
  proof (cases "is_build_id n")
    case True
    then show ?thesis
      using step read_encode_note(3) [OF holds(1) ok] ok
      by (simp add: fuel located_def notes_build_id_def note_ok_def unat_of_nat take_bit_nat_eq_self)
  next
    case False
    have "unat (offset + of_nat (length (encode_note n))) = unat offset + length (encode_note n)"
      using inside unsigned_less [of sz, where 'a = nat] by (intro unat_add_of_nat) simp
    then show ?thesis
      using Cons.IH [of "offset + of_nat (length (encode_note n))" fuel'] Cons.prems holds(2) step False
      by (simp add: fuel notes_build_id_def add.assoc)
  qed
qed

lemma find_build_id_notes:
  assumes "holds_block mem base (concat (map encode_note ns))" and "list_all note_ok ns"
    and "unat base + length (concat (map encode_note ns)) < 2 ^ 64" and "length ns \<le> fuel"
  shows "\<exists>r. find_build_id mem base (of_nat (length (concat (map encode_note ns)))) fuel = Ok r \<and>
    located mem (notes_build_id ns) r"
proof -
  have "unat (of_nat (length (concat (map encode_note ns))) :: u64) = length (concat (map encode_note ns))"
    using assms(3) by (simp add: unat_of_nat take_bit_nat_eq_self)
  then show ?thesis
    using note_loop_notes [of mem base 0 ns "of_nat (length (concat (map encode_note ns)))" fuel] assms
    by (simp add: find_build_id_def)
qed

text \<open>
  C19. For an ELF file whose section \<^verbatim>\<open>.note.gnu.build-id\<close> holds a sequence of notes in the layout of the ELF
  format, in any order and with any names and descriptors, \<^verbatim>\<open>GetBuildID\<close> returns the descriptor of the first note
  with the name GNU and the type of a build id, and the empty string if there is none. As many rounds as notes are enough.
\<close>

theorem GetBuildID_notes:
  assumes "holds_block (if_memory s) (gnu_build_id_offset s) (concat (map encode_note ns))"
    and "gnu_build_id_size s = of_nat (length (concat (map encode_note ns)))"
    and "list_all note_ok ns"
    and "unat (gnu_build_id_offset s) + length (concat (map encode_note ns)) < 2 ^ 64"
    and "length ns \<le> env_fuel e"
  shows "Interface_GetBuildID e s = Ok (notes_build_id ns)"
  using find_build_id_notes [OF assms(1,3,4,5)] assms(2)
  by (auto simp: Interface_GetBuildID_def located_def split: option.splits)

definition example_notes :: "elf_note list" where
  "example_notes =
     [\<lparr>note_name = ascii ''Linux'' @ [0], note_desc = [1, 2, 3], note_type = 3\<rparr>,
      \<lparr>note_name = ascii ''GNU'' @ [0], note_desc = [0xab, 0xcd, 0xef, 0x01, 0x23], note_type = 3\<rparr>]"

definition example_interface :: elf_interface where
  "example_interface =
     (ElfInterface ElfInterface64 (MemoryBuffer_Read (concat (map encode_note example_notes))))
       \<lparr>gnu_build_id_size := of_nat (length (concat (map encode_note example_notes)))\<rparr>"

definition example_env :: env where
  "example_env =
     \<lparr>env_fuel = 20, env_sort = sort_key start_offset, env_uninit = (\<lambda>_. 0), env_xz_init = [],
      env_xz_code = (\<lambda>st room src. \<lparr>xz_ok = False, xz_not_finished = False, xz_output = [], xz_consumed = 0, xz_state = st\<rparr>),
      env_xz_finished = (\<lambda>_. False)\<rparr>"

theorem GetBuildID_notes_witness:
  "Interface_GetBuildID example_env example_interface = Ok [0xab, 0xcd, 0xef, 0x01, 0x23]"
proof -
  have len: "length (concat (map encode_note example_notes)) = 48"
    by code_simp
  have id: "notes_build_id example_notes = [0xab, 0xcd, 0xef, 0x01, 0x23]" "list_all note_ok example_notes"
    by (code_simp, simp add: example_notes_def note_ok_def ascii_def)
  have "length example_notes \<le> env_fuel example_env"
    by (simp add: example_notes_def example_env_def)
  moreover have "holds_block (MemoryBuffer_Read (concat (map encode_note example_notes))) 0
      (concat (map encode_note example_notes))"
    using len by (intro holds_block_buffer) simp
  moreover have "if_memory example_interface = MemoryBuffer_Read (concat (map encode_note example_notes))"
    "gnu_build_id_offset example_interface = 0"
    "gnu_build_id_size example_interface = of_nat (length (concat (map encode_note example_notes)))"
    by (simp_all add: example_interface_def ElfInterface_def)
  ultimately show ?thesis
    using GetBuildID_notes [of example_interface example_notes example_env] len id by simp
qed

end
