(* ===== verification/Elf_Interface_Arm.thy ===== *)
theory Elf_Interface_Arm
  imports Elf_Interface Arm_Exidx
begin

text \<open>
  \<^verbatim>\<open>ElfInterfaceArm.h\<close>, \<^verbatim>\<open>ElfInterfaceArm.cpp\<close> and the \<^verbatim>\<open>Step\<close> of the interfaces: the search for an entry of the
  exception index, the step with it, and the order in which the sections are tried.
\<close>

unbundle bit_operations_syntax

section \<open>The exception index\<close>

definition GetPrel31Addr :: "u32 \<Rightarrow> u32 if_prog" where
  "GetPrel31Addr offset =
     bnd (gets (\<lambda>s. read_word (if_memory s) (ucast offset) :: u32 option)) (\<lambda>data.
     case data of
       None \<Rightarrow> fail_with (set_if_error ERROR_MEMORY_INVALID (ucast offset))
     | Some data \<Rightarrow> ret (offset + sign_extend31 data))"

text \<open>An element of \<^verbatim>\<open>addrs_\<close>: zero stands for an address that has not been read.\<close>

definition cached_addr :: "nat \<Rightarrow> elf_interface \<Rightarrow> u32" where
  "cached_addr i s = (case map_of (arm_addrs s) (of_nat i) of None \<Rightarrow> 0 | Some a \<Rightarrow> a)"

definition index_entry :: "nat \<Rightarrow> elf_interface \<Rightarrow> u64" where
  "index_entry i s = arm_start_offset s + of_nat i * 8"

definition entry_addr :: "nat \<Rightarrow> u32 if_prog" where
  "entry_addr i =
     bnd (gets (cached_addr i)) (\<lambda>addr.
     if addr = 0 then
       bnd (gets (index_entry i)) (\<lambda>off.
       bnd (GetPrel31Addr (ucast off)) (\<lambda>addr.
       bnd (modify (\<lambda>s. s\<lparr>arm_addrs := AList.update (of_nat i) addr (arm_addrs s)\<rparr>)) (\<lambda>_.
       ret addr)))
     else ret addr)"

text \<open>\<^verbatim>\<open>*it\<close>.\<close>

definition iterator_value :: "nat \<Rightarrow> u32 if_prog" where
  "iterator_value i = or_else (entry_addr i) (ret 0)"

function FindEntry_loop :: "u32 \<Rightarrow> nat \<Rightarrow> nat \<Rightarrow> u64 if_prog" where
  "FindEntry_loop pc first last_index s =
     (if first < last_index then
        let current = (first + last_index) div 2 in
        case entry_addr current s of
          (Fail, t) \<Rightarrow> (Fail, t)
        | (Crash c, t) \<Rightarrow> (Crash c, t)
        | (Ok addr, t) \<Rightarrow>
            if pc = addr then (Ok (index_entry current t), t)
            else if pc < addr then FindEntry_loop pc first current t
            else FindEntry_loop pc (current + 1) last_index t
      else if last_index \<noteq> 0 then (Ok (index_entry (last_index - 1) s), s)
      else (Fail, set_if_code ERROR_UNWIND_INFO s))"
  by pat_completeness auto
termination
  by (relation "measure (\<lambda>(pc, first, last_index, s). last_index - first)") auto

declare FindEntry_loop.simps [simp del]

definition FindEntry :: "u32 \<Rightarrow> u64 if_prog" where
  "FindEntry pc =
     bnd (gets id) (\<lambda>s.
     if arm_start_offset s = 0 \<or> arm_total_entries s = 0 then fail_with (set_if_code ERROR_UNWIND_INFO)
     else FindEntry_loop pc 0 (unat (arm_total_entries s)))"

section \<open>Step\<close>

definition exidx_error :: "arm_exidx \<Rightarrow> elf_interface \<Rightarrow> elf_interface" where
  "exidx_error arm s =
     (if exidx_status arm \<in> {ARM_STATUS_NONE, ARM_STATUS_NO_UNWIND, ARM_STATUS_FINISH} then set_if_code ERROR_NONE s
      else if exidx_status arm = ARM_STATUS_READ_FAILED then set_if_error ERROR_MEMORY_INVALID (status_address arm) s
      else set_if_code ERROR_UNWIND_INFO s)"

text \<open>The registers after a successful \<^verbatim>\<open>Eval\<close>.\<close>

definition exidx_frame :: "arm_exidx \<Rightarrow> u32 cpu_regs" where
  "exidx_frame arm =
     (let r = exidx_regs arm;
          vals = (if pc_set arm then reg_vals r
                  else set_field ArmReg ''R15'' (get_field ArmReg ''R14'' (reg_vals r)) (reg_vals r)) in
      r\<lparr>reg_vals := set_field ArmReg ''R13'' (exidx_cfa arm) vals\<rparr>)"

text \<open>
  A step with the entry for the pc; the result is \<^verbatim>\<open>*finished\<close>. Registers that are not those of an
  ARM processor are used as if they were.
\<close>

definition StepExidx :: "u64 \<Rightarrow> memory \<Rightarrow> (elf_interface \<times> any_regs, bool) prog" where
  "StepExidx pc process_mem = (\<lambda>(s, r).
     if pc < arm_load_bias s then (Fail, (set_if_code ERROR_UNWIND_INFO s, r))
     else
       case FindEntry (ucast (pc - arm_load_bias s)) s of
         (Fail, t) \<Rightarrow> (Fail, (t, r))
       | (Crash c, t) \<Rightarrow> (Crash c, (t, r))
       | (Ok entry_offset, t) \<Rightarrow>
           case r of
             Regs64 _ \<Rightarrow> (Crash Undefined, (t, r))
           | Regs32 regs_arm \<Rightarrow>
               if class_arch (reg_class regs_arm) \<noteq> ARCH_ARM then (Crash Undefined, (t, r))
               else
                 case bnd (ExtractEntryData (ucast entry_offset)) (\<lambda>_. Exidx_Eval)
                        ((ArmExidx regs_arm (if_memory t) process_mem)\<lparr>exidx_cfa := ucast (reg_sp regs_arm)\<rparr>) of
                   (Crash c, arm) \<Rightarrow> (Crash c, (t, Regs32 (exidx_regs arm)))
                 | (Ok _, arm) \<Rightarrow>
                     let r' = exidx_frame arm in
                     if exidx_status arm = ARM_STATUS_NO_UNWIND then (Ok True, (t, Regs32 r'))
                     else (Ok (reg_pc r' = 0), (t, Regs32 r'))
                 | (Fail, arm) \<Rightarrow>
                     if exidx_status arm = ARM_STATUS_NO_UNWIND then (Ok True, (t, Regs32 (exidx_regs arm)))
                     else (Fail, (exidx_error arm t, Regs32 (exidx_regs arm))))"

text \<open>
  \<^verbatim>\<open>Step\<close> of a section, which is an instance for the address type of the class. It looks at the registers, as
  those of its address type, once it has a row.
\<close>

definition step_uninit :: "env \<Rightarrow> u8 \<times> 'a::len word list" where
  "step_uninit e = (ucast (env_uninit e 1), map (\<lambda>i. ucast (env_uninit e (i + 2))) [0..<MAX_REGISTERS])"

definition section_Step :: "env \<Rightarrow> elf_class \<Rightarrow> u64 \<Rightarrow> memory \<Rightarrow> (dwarf_section \<times> any_regs, bool) prog" where
  "section_Step e cls pc process_mem = (\<lambda>(sec, r).
     case (cls, r) of
       (ELFCLASS32, Regs32 r32) \<Rightarrow>
         (case DwarfSection_Step (env_fuel e) (step_uninit e) pc process_mem (sec, r32) of
            (x, (sec', r')) \<Rightarrow> (x, (sec', Regs32 r')))
     | (ELFCLASS64, Regs64 r64) \<Rightarrow>
         (case DwarfSection_Step (env_fuel e) (step_uninit e) pc process_mem (sec, r64) of
            (x, (sec', r')) \<Rightarrow> (x, (sec', Regs64 r')))
     | (ELFCLASS32, Regs64 _) \<Rightarrow>
         (case step_row TYPE(32) (env_fuel e) pc sec of
            (Ok _, sec') \<Rightarrow> (Crash Undefined, (sec', r))
          | (Fail, sec') \<Rightarrow> (Fail, (sec', r))
          | (Crash c, sec') \<Rightarrow> (Crash c, (sec', r)))
     | (ELFCLASS64, Regs32 _) \<Rightarrow>
         (case step_row TYPE(64) (env_fuel e) pc sec of
            (Ok _, sec') \<Rightarrow> (Crash Undefined, (sec', r))
          | (Fail, sec') \<Rightarrow> (Fail, (sec', r))
          | (Crash c, sec') \<Rightarrow> (Crash c, (sec', r))))"

text \<open>A step with one of the two sections.\<close>

definition step_with ::
  "(elf_interface \<Rightarrow> dwarf_section option) \<Rightarrow> (dwarf_section \<Rightarrow> elf_interface \<Rightarrow> elf_interface) \<Rightarrow>
   env \<Rightarrow> u64 \<Rightarrow> memory \<Rightarrow> (elf_interface \<times> any_regs, bool) prog" where
  "step_with get put e pc process_mem = (\<lambda>(s, r).
     case get s of
       None \<Rightarrow> (Fail, (s, r))
     | Some sec \<Rightarrow>
         case section_Step e (if_class s) pc process_mem (sec, r) of (x, (sec', r')) \<Rightarrow> (x, (put sec' s, r')))"

definition step_sections :: "env \<Rightarrow> u64 \<Rightarrow> memory \<Rightarrow> (elf_interface \<times> any_regs, bool) prog" where
  "step_sections e pc process_mem =
     or_else (step_with debug_frame (\<lambda>sec s. s\<lparr>debug_frame := Some sec\<rparr>) e pc process_mem)
       (step_with eh_frame (\<lambda>sec s. s\<lparr>eh_frame := Some sec\<rparr>) e pc process_mem)"

text \<open>The error of a failed step: that of the first section, or of the interface of the compressed data.\<close>

definition dwarf_error :: "DwarfErrorData \<Rightarrow> elf_interface \<Rightarrow> elf_interface" where
  "dwarf_error err s =
     (case code err of
        DWARF_ERROR_NONE \<Rightarrow> set_if_code ERROR_NONE s
      | DWARF_ERROR_MEMORY_INVALID \<Rightarrow> set_if_error ERROR_MEMORY_INVALID (address err) s
      | DWARF_ERROR_NOT_IMPLEMENTED \<Rightarrow> set_if_code ERROR_UNSUPPORTED s
      | DWARF_ERROR_UNSUPPORTED_VERSION \<Rightarrow> set_if_code ERROR_UNSUPPORTED s
      | _ \<Rightarrow> set_if_code ERROR_UNWIND_INFO s)"

definition step_error :: "elf_interface list \<Rightarrow> elf_interface \<Rightarrow> elf_interface" where
  "step_error gnu s =
     (case debug_frame s of
        Some sec \<Rightarrow> dwarf_error (sec_error sec) s
      | None \<Rightarrow>
          case eh_frame s of
            Some sec \<Rightarrow> dwarf_error (sec_error sec) s
          | None \<Rightarrow>
              case gnu of
                g # _ \<Rightarrow> s\<lparr>if_error := if_error g\<rparr>
              | [] \<Rightarrow> s)"

text \<open>
  \<^verbatim>\<open>Step\<close> of an interface and of those it reaches through \<^verbatim>\<open>gnu_debugdata_interface_\<close>, which follow it in the
  list. The exception index comes last.
\<close>

fun Interface_Step :: "env \<Rightarrow> u64 \<Rightarrow> memory \<Rightarrow> elf_interface list \<Rightarrow> any_regs \<Rightarrow> bool outcome \<times> elf_interface list \<times> any_regs" where
  "Interface_Step e pc process_mem [] r = (Fail, [], r)"
| "Interface_Step e pc process_mem (s # gnu) r =
     (case step_sections e pc process_mem (set_if_error ERROR_NONE 0 s, r) of
        (Ok finished, (s1, r1)) \<Rightarrow> (Ok finished, s1 # gnu, r1)
      | (Crash c, (s1, r1)) \<Rightarrow> (Crash c, s1 # gnu, r1)
      | (Fail, (s1, r1)) \<Rightarrow>
          case Interface_Step e pc process_mem gnu r1 of
            (Ok finished, gnu', r2) \<Rightarrow> (Ok finished, s1 # gnu', r2)
          | (Crash c, gnu', r2) \<Rightarrow> (Crash c, s1 # gnu', r2)
          | (Fail, gnu', r2) \<Rightarrow>
              let s2 = step_error gnu' s1 in
              if if_kind s = ElfInterfaceArm
              then case StepExidx pc process_mem (s2, r2) of (x, (s3, r3)) \<Rightarrow> (x, s3 # gnu', r3)
              else (Fail, s2 # gnu', r2))"

section \<open>The search\<close>

text \<open>The address of the function that an entry of the index is for, and the sorted indices.\<close>

definition table_addr :: "elf_interface \<Rightarrow> nat \<Rightarrow> u32 option" where
  "table_addr s i =
     (let off = ucast (index_entry i s) :: u32 in
      map_option (\<lambda>data. off + sign_extend31 data) (read_word (if_memory s) (ucast off)))"

definition sorted_index :: "elf_interface \<Rightarrow> (nat \<Rightarrow> u32) \<Rightarrow> bool" where
  "sorted_index s addr \<longleftrightarrow>
     (\<forall>i < unat (arm_total_entries s). table_addr s i = Some (addr i)) \<and>
     (\<forall>j < unat (arm_total_entries s). \<forall>i < j. addr i < addr j)"

text \<open>What has been read before is what the index holds.\<close>

definition addrs_coherent :: "elf_interface \<Rightarrow> bool" where
  "addrs_coherent s \<longleftrightarrow>
     (\<forall>i < unat (arm_total_entries s). cached_addr i s \<noteq> 0 \<longrightarrow> table_addr s i = Some (cached_addr i s))"

lemma addrs_frame [simp]:
  "index_entry i (s\<lparr>arm_addrs := m\<rparr>) = index_entry i s" "table_addr (s\<lparr>arm_addrs := m\<rparr>) i = table_addr s i"
  "sorted_index (s\<lparr>arm_addrs := m\<rparr>) addr = sorted_index s addr"
  by (simp_all add: index_entry_def table_addr_def sorted_index_def)

lemma cached_addr_update:
  assumes "i < 2 ^ 64" and "j < 2 ^ 64"
  shows "cached_addr j (s\<lparr>arm_addrs := AList.update (of_nat i) a (arm_addrs s)\<rparr>) = (if i = j then a else cached_addr j s)"
proof -
  have "(of_nat i :: u64) = of_nat j \<longleftrightarrow> i = j"
    using assms by (auto simp: word_unat_eq_iff unat_of_nat take_bit_nat_eq_self)
  then show ?thesis
    by (auto simp: cached_addr_def update_conv)
qed

lemma entry_addr_eq:
  assumes coherent: "addrs_coherent s" and index: "i < unat (arm_total_entries s)" and addr: "table_addr s i = Some a"
  obtains m where "entry_addr i s = (Ok a, s\<lparr>arm_addrs := m\<rparr>)" and "addrs_coherent (s\<lparr>arm_addrs := m\<rparr>)"
proof (cases "cached_addr i s = 0")
  case True
  let ?m = "AList.update (of_nat i) a (arm_addrs s)"
  have "addrs_coherent (s\<lparr>arm_addrs := ?m\<rparr>)"
    using coherent index addr unat_u64_less [of "arm_total_entries s"]
    by (auto simp: addrs_coherent_def cached_addr_update)
  moreover have "entry_addr i s = (Ok a, s\<lparr>arm_addrs := ?m\<rparr>)"
    using True addr by (auto simp: entry_addr_def GetPrel31Addr_def table_addr_def bnd_def Let_def)
  ultimately show thesis
    using that by blast
next
  case False
  then have "entry_addr i s = (Ok a, s\<lparr>arm_addrs := arm_addrs s\<rparr>)"
    using coherent index addr by (simp add: entry_addr_def addrs_coherent_def)
  then show thesis
    using that [of "arm_addrs s"] coherent by simp
qed

text \<open>The result of the search: the last entry that is not above the pc.\<close>

definition found_entry :: "elf_interface \<Rightarrow> (nat \<Rightarrow> u32) \<Rightarrow> u32 \<Rightarrow> u64 outcome \<Rightarrow> bool" where
  "found_entry s addr pc r \<longleftrightarrow>
     (if pc < addr 0 then r = Fail
      else \<exists>i < unat (arm_total_entries s). r = Ok (index_entry i s) \<and> addr i \<le> pc \<and>
             (\<forall>j < unat (arm_total_entries s). i < j \<longrightarrow> pc < addr j))"

lemma FindEntry_loop_correct:
  assumes "addrs_coherent s" and "sorted_index s addr" and "first \<le> last_index" and "last_index \<le> unat (arm_total_entries s)"
    and "0 < unat (arm_total_entries s)"
    and "\<And>i. i < first \<Longrightarrow> addr i < pc" and "\<And>i. last_index \<le> i \<Longrightarrow> i < unat (arm_total_entries s) \<Longrightarrow> pc < addr i"
  shows "case FindEntry_loop pc first last_index s of (r, t) \<Rightarrow>
    found_entry s addr pc r \<and> addrs_coherent t \<and>
    (\<exists>m. t = (if r = Fail then set_if_code ERROR_UNWIND_INFO (s\<lparr>arm_addrs := m\<rparr>) else s\<lparr>arm_addrs := m\<rparr>))"
  using assms
proof (induction "last_index - first" arbitrary: first last_index s rule: less_induct)
  case less
  show ?case
  proof (cases "first < last_index")
    case False
    then have eq: "first = last_index"
      using less.prems(3) by simp
    show ?thesis
    proof (cases "last_index = 0")
      case True
      then have "pc < addr 0"
        using less.prems(5,7) by simp
      then show ?thesis
        using True eq less.prems(1)
        by (auto simp: FindEntry_loop.simps found_entry_def set_if_code_def addrs_coherent_def cached_addr_def table_addr_def
            index_entry_def intro!: exI [of _ "arm_addrs s"])
    next
      case False
      then have last_le: "addr (last_index - 1) < pc" "last_index - 1 < unat (arm_total_entries s)"
        using less.prems(4,6) eq by simp_all
      have "addr 0 \<le> addr (last_index - 1)"
        using less.prems(2) last_le(2) by (cases "last_index - 1 = 0") (auto simp: sorted_index_def less_imp_le)
      then have "\<not> pc < addr 0"
        using last_le(1) by simp
      then show ?thesis
        using False eq last_le less.prems(1,7)
        by (auto simp: FindEntry_loop.simps found_entry_def intro!: exI [of _ "last_index - 1"] exI [of _ "arm_addrs s"])
    qed
  next
    case True
    define mid where "mid = (first + last_index) div 2"
    have mid: "first \<le> mid" "mid < last_index" "mid < unat (arm_total_entries s)"
      using True less.prems(4) by (auto simp: mid_def)
    have sorted: "table_addr s mid = Some (addr mid)" "\<And>i. i < mid \<Longrightarrow> addr i < addr mid"
      "\<And>j. mid < j \<Longrightarrow> j < unat (arm_total_entries s) \<Longrightarrow> addr mid < addr j"
      using less.prems(2) mid(3) by (auto simp: sorted_index_def)
    obtain m where m: "entry_addr mid s = (Ok (addr mid), s\<lparr>arm_addrs := m\<rparr>)" "addrs_coherent (s\<lparr>arm_addrs := m\<rparr>)"
      using entry_addr_eq [OF less.prems(1) mid(3) sorted(1)] by blast
    let ?t = "s\<lparr>arm_addrs := m\<rparr>"
    have run: "FindEntry_loop pc first last_index s =
        (if pc = addr mid then (Ok (index_entry mid ?t), ?t)
         else if pc < addr mid then FindEntry_loop pc first mid ?t
         else FindEntry_loop pc (mid + 1) last_index ?t)"
      using True m(1) by (subst FindEntry_loop.simps) (simp add: mid_def [symmetric])
    have same: "found_entry ?t addr pc = found_entry s addr pc"
      by (simp add: found_entry_def fun_eq_iff)
    consider "pc = addr mid" | "pc < addr mid" | "addr mid < pc"
      by fastforce
    then show ?thesis
    proof cases
      case 1
      then have "\<not> pc < addr 0"
        using sorted(2) [of 0] by (cases "mid = 0") auto
      then show ?thesis
        using 1 run m(2) sorted(3) mid(3) by (auto simp: found_entry_def intro!: exI [of _ mid])
    next
      case 2
      have below: "pc < addr i" if "mid \<le> i" "i < unat (arm_total_entries s)" for i
        using 2 sorted(3) [of i] that by (cases "i = mid") auto
      have "mid - first < last_index - first"
        using mid by simp
      note IH = less.hyps [OF this m(2)]
      have "FindEntry_loop pc first last_index s = FindEntry_loop pc first mid ?t"
        using run 2 by auto
      with IH show ?thesis
        using less.prems(2,5,6) mid below same by (auto split: prod.splits)
    next
      case 3
      have above: "addr i < pc" if "i < mid + 1" for i
        using 3 sorted(2) [of i] that by (cases "i = mid") auto
      have "last_index - (mid + 1) < last_index - first"
        using mid by simp
      note IH = less.hyps [OF this m(2)]
      have "FindEntry_loop pc first last_index s = FindEntry_loop pc (mid + 1) last_index ?t"
        using run 3 by auto
      with IH show ?thesis
        using less.prems(2,4,5,7) mid above same by (auto split: prod.splits)
    qed
  qed
qed

text \<open>
  C12. For an exception index whose addresses are readable and ascending, \<^verbatim>\<open>FindEntry\<close> finds the entry of the
  function that the pc is in: the last one whose address is not above the pc. It fails, with
  \<^verbatim>\<open>ERROR_UNWIND_INFO\<close>, exactly for a pc below the first address. The addresses that earlier searches have stored make no
  difference, and those it stores are again the ones of the index.
\<close>

theorem FindEntry_search:
  assumes "arm_start_offset s \<noteq> 0" and "arm_total_entries s \<noteq> 0" and "sorted_index s addr" and "addrs_coherent s"
  shows "case FindEntry pc s of (r, t) \<Rightarrow>
    (if pc < addr 0 then r = Fail \<and> err_code (if_error t) = ERROR_UNWIND_INFO
     else \<exists>i < unat (arm_total_entries s). r = Ok (arm_start_offset s + of_nat i * 8) \<and> addr i \<le> pc \<and>
            (\<forall>j < unat (arm_total_entries s). i < j \<longrightarrow> pc < addr j)) \<and>
    addrs_coherent t"
proof -
  have "FindEntry pc s = FindEntry_loop pc 0 (unat (arm_total_entries s)) s"
    using assms(1,2) by (simp add: FindEntry_def)
  then show ?thesis
    using FindEntry_loop_correct [of s addr 0 "unat (arm_total_entries s)" pc] assms
    by (auto simp: found_entry_def index_entry_def set_if_code_def unat_gt_0 split: prod.splits if_splits)
qed

definition example_index :: elf_interface where
  "example_index =
     (ElfInterface ElfInterfaceArm
        (MemoryBuffer_Read (replicate 8 0 @ concat (map (\<lambda>v. le_bytes 4 (v :: u32) @ [1, 0, 0, 0]) [0x100, 0x200, 0x300]))))
       \<lparr>arm_start_offset := 8, arm_total_entries := 3\<rparr>"

theorem FindEntry_search_witness: "fst (FindEntry 0x250 example_index) = Ok 16"
proof -
  define addr :: "nat \<Rightarrow> u32" where "addr = (\<lambda>i. [0x108, 0x210, 0x318] ! i)"
  have "table_addr example_index 0 = Some (addr 0)" "table_addr example_index 1 = Some (addr 1)"
    "table_addr example_index 2 = Some (addr 2)"
    unfolding addr_def by code_simp+
  then have "\<forall>i < 3. table_addr example_index i = Some (addr i)"
    by (simp add: numeral_3_eq_3 numeral_2_eq_2 All_less_Suc)
  moreover have members: "arm_start_offset example_index = 8" "arm_total_entries example_index = 3"
    by (simp_all add: example_index_def)
  moreover have "\<forall>j < 3. \<forall>i < j. addr i < addr j"
    by (simp add: addr_def numeral_3_eq_3 All_less_Suc)
  ultimately have "sorted_index example_index addr"
    by (simp add: sorted_index_def)
  moreover note members
  moreover have "addrs_coherent example_index"
    by (simp add: addrs_coherent_def cached_addr_def example_index_def ElfInterface_def)
  moreover have "\<not> 0x250 < addr 0"
    by (simp add: addr_def)
  ultimately obtain i where i: "i < 3" "fst (FindEntry 0x250 example_index) = Ok (8 + of_nat i * 8)"
    "addr i \<le> 0x250" "\<forall>j < 3. i < j \<longrightarrow> 0x250 < addr j"
    using FindEntry_search [of example_index addr "0x250"] by (auto split: prod.splits)
  consider "i = 0" | "i = 1" | "i = 2"
    using i(1) by linarith
  then show ?thesis
    using i(2-4) spec [OF i(4), of 1] by cases (simp_all add: addr_def)
qed

end
