(* ===== verification/Elf_Object.thy ===== *)
theory Elf_Object
  imports Elf_Interface_Arm
begin

text \<open>
  \<^verbatim>\<open>Elf.h\<close> and \<^verbatim>\<open>Elf.cpp\<close> without the cache of objects: an ELF file with its interface and the interface of its
  compressed debug data.
\<close>

unbundle bit_operations_syntax

section \<open>State\<close>

text \<open>
  The interface of the compressed data is the one that \<^verbatim>\<open>interface_\<close> refers to: it is set and reset together with that
  pointer. \<open>None\<close> stands for an architecture that has not been set.
\<close>

record elf_object =
  obj_valid :: bool
  obj_load_bias :: u64
  obj_interface :: "elf_interface option"
  obj_memory :: "memory option"
  obj_machine :: u32
  obj_class :: u8
  obj_arch :: "ArchEnum option"
  obj_gnu :: "elf_interface option"

definition Elf :: "memory option \<Rightarrow> elf_object" where
  "Elf mem =
     \<lparr>obj_valid = False, obj_load_bias = 0, obj_interface = None, obj_memory = mem, obj_machine = 0, obj_class = 0,
      obj_arch = None, obj_gnu = None\<rparr>"

type_synonym 'r elf_prog = "(elf_object, 'r) prog"

definition ELFMAG :: "u8 list" where "ELFMAG = 0x7f # ascii ''ELF''"
definition EI_CLASS :: u64 where "EI_CLASS = 4"
definition EI_NIDENT :: u64 where "EI_NIDENT = 16"
definition EM_386 :: u16 where "EM_386 = 3"
definition EM_MIPS :: u16 where "EM_MIPS = 8"
definition EM_ARM :: u16 where "EM_ARM = 40"
definition EM_X86_64 :: u16 where "EM_X86_64 = 62"
definition EM_AARCH64 :: u16 where "EM_AARCH64 = 183"

section \<open>Recognising files\<close>

definition IsValidElf :: "memory option \<Rightarrow> bool" where
  "IsValidElf m = (case m of None \<Rightarrow> False | Some mem \<Rightarrow> ReadFully mem 0 (length ELFMAG) = Some ELFMAG)"

definition class_of_byte :: "u8 \<Rightarrow> elf_class option" where
  "class_of_byte b = (if b = 1 then Some ELFCLASS32 else if b = 2 then Some ELFCLASS64 else None)"

text \<open>The class of a file that has the magic number.\<close>

definition file_class :: "memory option \<Rightarrow> elf_class option" where
  "file_class m =
     (if IsValidElf m then case ReadFully (the m) EI_CLASS 1 of None \<Rightarrow> None | Some bs \<Rightarrow> class_of_byte (hd bs)
      else None)"

text \<open>The result is \<^verbatim>\<open>*size\<close>; the variable is not used after a failure.\<close>

definition GetInfo :: "memory \<Rightarrow> u64 outcome" where
  "GetInfo mem = (case file_class (Some mem) of None \<Rightarrow> Fail | Some cls \<Rightarrow> GetMaxSize cls mem 0)"

definition static_GetLoadBias :: "memory option \<Rightarrow> u64" where
  "static_GetLoadBias m = (case file_class m of None \<Rightarrow> 0 | Some cls \<Rightarrow> Interface_GetLoadBias cls (the m))"

definition static_GetBuildID :: "env \<Rightarrow> memory option \<Rightarrow> (u8 list) outcome" where
  "static_GetBuildID e m = (case file_class m of None \<Rightarrow> Ok [] | Some cls \<Rightarrow> ReadBuildIDFromMemory e cls (the m))"

section \<open>Initialisation\<close>

definition machine_32 :: "u16 \<Rightarrow> (ArchEnum \<times> interface_kind) option" where
  "machine_32 mach =
     (if mach = EM_ARM then Some (ARCH_ARM, ElfInterfaceArm)
      else if mach = EM_386 then Some (ARCH_X86, ElfInterface32)
      else if mach = EM_MIPS then Some (ARCH_MIPS, ElfInterface32)
      else None)"

definition machine_64 :: "u16 \<Rightarrow> (ArchEnum \<times> interface_kind) option" where
  "machine_64 mach =
     (if mach = EM_AARCH64 then Some (ARCH_ARM64, ElfInterface64)
      else if mach = EM_X86_64 then Some (ARCH_X86_64, ElfInterface64)
      else if mach = EM_MIPS then Some (ARCH_MIPS64, ElfInterface64)
      else None)"

text \<open>\<^verbatim>\<open>nullptr\<close> is \<open>Fail\<close>. The members of the object change also if no interface is made.\<close>

definition CreateInterfaceFromMemory :: "memory option \<Rightarrow> elf_interface elf_prog" where
  "CreateInterfaceFromMemory m = (\<lambda>s.
     if \<not> IsValidElf m then (Fail, s)
     else
       let mem = the m in
       case ReadFully mem EI_CLASS 1 of
         None \<Rightarrow> (Fail, s)
       | Some bs \<Rightarrow>
           let s1 = s\<lparr>obj_class := hd bs\<rparr> in
           case class_of_byte (hd bs) of
             None \<Rightarrow> (Fail, s1)
           | Some cls \<Rightarrow>
               case read_word mem (EI_NIDENT + 2) of
                 None \<Rightarrow> (Fail, s1)
               | Some e_machine \<Rightarrow>
                   let s2 = s1\<lparr>obj_machine := ucast e_machine\<rparr> in
                   case (if cls = ELFCLASS32 then machine_32 e_machine else machine_64 e_machine) of
                     None \<Rightarrow> (Fail, s2)
                   | Some (arch, kind) \<Rightarrow> (Ok (ElfInterface kind mem), s2\<lparr>obj_arch := Some arch\<rparr>))"

text \<open>A call on an interface.\<close>

definition on_interface :: "'r if_prog \<Rightarrow> 'r elf_prog" where
  "on_interface p = (\<lambda>s. case obj_interface s of
     None \<Rightarrow> (Crash Undefined, s) | Some i \<Rightarrow> (case p i of (x, i') \<Rightarrow> (x, s\<lparr>obj_interface := Some i'\<rparr>)))"

definition on_gnu :: "'r if_prog \<Rightarrow> 'r elf_prog" where
  "on_gnu p = (\<lambda>s. case obj_gnu s of
     None \<Rightarrow> (Fail, s) | Some i \<Rightarrow> (case p i of (x, i') \<Rightarrow> (x, s\<lparr>obj_gnu := Some i'\<rparr>)))"

text \<open>
  The load bias that \<^verbatim>\<open>Init\<close> gets for the compressed data is an uninitialised variable, and it is used unless a
  program header sets it.
\<close>

definition init_gnu :: "env \<Rightarrow> elf_interface \<Rightarrow> unit elf_prog" where
  "init_gnu e gnu = (\<lambda>s.
     case Interface_Init (env_uninit e 0) gnu of
       (Fail, _) \<Rightarrow> (Ok (), s\<lparr>obj_gnu := None\<rparr>)
     | (Crash c, _) \<Rightarrow> (Crash c, s)
     | (Ok bias, gnu') \<Rightarrow> (case InitHeaders e bias gnu' of (x, gnu'') \<Rightarrow> (x, s\<lparr>obj_gnu := Some gnu''\<rparr>)))"

definition InitGnuDebugdata :: "env \<Rightarrow> unit elf_prog" where
  "InitGnuDebugdata e =
     bnd (gets (\<lambda>s. \<not> obj_valid s \<or> map_option gnu_debugdata_offset (obj_interface s) = Some 0)) (\<lambda>skip_it.
     if skip_it then ret ()
     else
       bnd (or_else (bnd (on_interface (CreateGnuDebugdataMemory e)) (\<lambda>mem. ret (Some mem))) (ret None)) (\<lambda>mem.
       bnd (or_else (bnd (CreateInterfaceFromMemory mem) (\<lambda>gnu. ret (Some gnu))) (ret None)) (\<lambda>gnu.
       case gnu of
         None \<Rightarrow> modify (\<lambda>s. s\<lparr>obj_gnu := None\<rparr>)
       | Some gnu \<Rightarrow> init_gnu e gnu)))"

definition Elf_Init :: "env \<Rightarrow> unit elf_prog" where
  "Elf_Init e =
     bnd (modify (\<lambda>s. s\<lparr>obj_load_bias := 0\<rparr>)) (\<lambda>_.
     bnd (gets obj_memory) (\<lambda>mem.
     if mem = None then fail_with id
     else
       bnd (on_fail (CreateInterfaceFromMemory mem) (\<lambda>s. s\<lparr>obj_interface := None\<rparr>)) (\<lambda>i.
       bnd (modify (\<lambda>s. s\<lparr>obj_interface := Some i\<rparr>)) (\<lambda>_.
       bnd (on_fail (on_interface (Interface_Init 0)) (\<lambda>s. s\<lparr>obj_valid := False, obj_interface := None\<rparr>)) (\<lambda>bias.
       bnd (modify (\<lambda>s. s\<lparr>obj_valid := True, obj_load_bias := bias\<rparr>)) (\<lambda>_.
       bnd (on_interface (InitHeaders e bias)) (\<lambda>_.
       InitGnuDebugdata e)))))))"

definition Invalidate :: "elf_object \<Rightarrow> elf_object" where
  "Invalidate s = s\<lparr>obj_interface := None, obj_valid := False\<rparr>"

section \<open>Operations\<close>

definition GetSoname :: "env \<Rightarrow> (u8 list) elf_prog" where
  "GetSoname e = bnd (gets obj_valid) (\<lambda>valid. if valid then on_interface (Interface_GetSoname e) else ret [])"

definition GetRelPc :: "u64 \<Rightarrow> u64 \<Rightarrow> u64 \<Rightarrow> elf_object \<Rightarrow> u64" where
  "GetRelPc pc map_start elf_offset s = pc - map_start + obj_load_bias s + elf_offset"

definition Elf_GetFunctionName :: "env \<Rightarrow> u64 \<Rightarrow> (u8 list \<times> u64) elf_prog" where
  "Elf_GetFunctionName e addr =
     bnd (gets obj_valid) (\<lambda>valid.
     if valid
     then or_else (on_interface (Interface_GetFunctionName e addr)) (on_gnu (Interface_GetFunctionName e addr))
     else fail_with id)"

text \<open>The correction for an address in the dynamic section.\<close>

definition adjust_dynamic :: "elf_interface \<Rightarrow> u64 \<Rightarrow> u64" where
  "adjust_dynamic i addr =
     (if addr \<ge> dynamic_vaddr i \<and> addr < dynamic_vaddr i + dynamic_size i then
        (if dynamic_vaddr i > dynamic_offset i then addr - (dynamic_vaddr i - dynamic_offset i)
         else addr + (dynamic_offset i - dynamic_vaddr i))
      else addr)"

definition GetGlobalVariable :: "env \<Rightarrow> u8 list \<Rightarrow> elf_object \<Rightarrow> u64 outcome" where
  "GetGlobalVariable e name s =
     (if \<not> obj_valid s then Fail
      else
        case obj_interface s of
          None \<Rightarrow> Crash Undefined
        | Some i \<Rightarrow>
            case (case Interface_GetGlobalVariable e name i of
                    Fail \<Rightarrow> (case obj_gnu s of None \<Rightarrow> Fail | Some gnu \<Rightarrow> Interface_GetGlobalVariable e name gnu)
                  | x \<Rightarrow> x) of
              Ok addr \<Rightarrow>
                if addr < obj_load_bias s then Fail else Ok (adjust_dynamic i (addr - obj_load_bias s))
            | x \<Rightarrow> x)"

definition Elf_GetBuildID :: "env \<Rightarrow> elf_object \<Rightarrow> (u8 list) outcome" where
  "Elf_GetBuildID e s =
     (if obj_valid s then
        case obj_interface s of None \<Rightarrow> Crash Undefined | Some i \<Rightarrow> Interface_GetBuildID e i
      else Ok [])"

text \<open>\<^verbatim>\<open>GetLastError\<close> leaves \<^verbatim>\<open>*data\<close> alone if the object is not valid.\<close>

definition GetLastError :: "elf_object \<Rightarrow> ErrorData \<Rightarrow> ErrorData" where
  "GetLastError s data = (case (obj_valid s, obj_interface s) of (True, Some i) \<Rightarrow> if_error i | _ \<Rightarrow> data)"

definition GetLastErrorCode :: "elf_object \<Rightarrow> ErrorCode" where
  "GetLastErrorCode s =
     (case (obj_valid s, obj_interface s) of (True, Some i) \<Rightarrow> err_code (if_error i) | _ \<Rightarrow> ERROR_INVALID_ELF)"

definition GetLastErrorAddress :: "elf_object \<Rightarrow> u64" where
  "GetLastErrorAddress s = (case (obj_valid s, obj_interface s) of (True, Some i) \<Rightarrow> err_address (if_error i) | _ \<Rightarrow> 0)"

text \<open>What the register sets see of the object.\<close>

definition view_of :: "elf_object \<Rightarrow> elf_view" where
  "view_of s =
     \<lparr>elf_valid = obj_valid s, elf_load_bias = obj_load_bias s,
      elf_memory = (case obj_memory s of None \<Rightarrow> (\<lambda>_ _. []) | Some mem \<Rightarrow> mem)\<rparr>"

definition Elf_StepIfSignalHandler :: "env \<Rightarrow> u64 \<Rightarrow> memory \<Rightarrow> elf_object \<Rightarrow> any_regs \<Rightarrow> bool \<times> any_regs" where
  "Elf_StepIfSignalHandler e rel_pc process_mem s r =
     (if obj_valid s then StepIfSignalHandler (env_uninit e 0) rel_pc (elf_memory (view_of s)) process_mem r else (False, r))"

text \<open>The interfaces that a step can use.\<close>

definition Elf_Step :: "env \<Rightarrow> u64 \<Rightarrow> memory \<Rightarrow> (elf_object \<times> any_regs, bool) prog" where
  "Elf_Step e rel_pc process_mem = (\<lambda>(s, r).
     if \<not> obj_valid s then (Fail, (s, r))
     else
       case obj_interface s of
         None \<Rightarrow> (Crash Undefined, (s, r))
       | Some i \<Rightarrow>
           case Interface_Step e rel_pc process_mem (i # (case obj_gnu s of None \<Rightarrow> [] | Some gnu \<Rightarrow> [gnu])) r of
             (x, is', r') \<Rightarrow>
               (x, (s\<lparr>obj_interface := Some (hd is'), obj_gnu := (case tl is' of [] \<Rightarrow> None | gnu # _ \<Rightarrow> Some gnu)\<rparr>, r')))"

definition Elf_IsValidPc :: "env \<Rightarrow> u64 \<Rightarrow> bool elf_prog" where
  "Elf_IsValidPc e pc =
     bnd (gets (\<lambda>s. \<not> obj_valid s \<or> pc < obj_load_bias s)) (\<lambda>invalid.
     if invalid then ret False
     else
       bnd (on_interface (Interface_IsValidPc e pc)) (\<lambda>valid.
       if valid then ret True else or_else (on_gnu (Interface_IsValidPc e pc)) (ret False)))"

end
