(* ===== verification/Map_Info.thy ===== *)
theory Map_Info
  imports Elf_Object
begin

text \<open>
  \<^verbatim>\<open>MapInfo.h\<close>, \<^verbatim>\<open>MapInfo.cpp\<close> and the cache of \<^verbatim>\<open>Elf.cpp\<close>: the maps of a process and the ELF objects that are made for
  them. Maps refer to each other and share ELF objects, so both live in a heap; the result is that \<^verbatim>\<open>GetElf\<close> keeps the heap
  sound, and the object it has made for a map.
\<close>

unbundle bit_operations_syntax

section \<open>State\<close>

text \<open>Pointers are indices. A map that has been destroyed is \<open>None\<close> in the heap; \<^verbatim>\<open>build_id\<close> is the string behind the pointer.\<close>

record map_info =
  mi_start :: u64
  mi_end :: u64
  mi_offset :: u64
  mi_flags :: u16
  mi_name :: "u8 list"
  mi_elf :: "nat option"
  mi_elf_offset :: u64
  mi_elf_start_offset :: u64
  mi_prev :: "nat option"
  mi_load_bias :: u64
  mi_build_id :: "u8 list option"
  mi_memory_backed_elf :: bool

definition MapInfo :: "nat option \<Rightarrow> u64 \<Rightarrow> u64 \<Rightarrow> u64 \<Rightarrow> u64 \<Rightarrow> u8 list \<Rightarrow> map_info" where
  "MapInfo prev start stop offset flags name =
     \<lparr>mi_start = start, mi_end = stop, mi_offset = offset, mi_flags = ucast flags, mi_name = name, mi_elf = None,
      mi_elf_offset = 0, mi_elf_start_offset = 0, mi_prev = prev, mi_load_bias = -1, mi_build_id = None,
      mi_memory_backed_elf = False\<rparr>"

text \<open>
  \<open>w_maps\<close> and \<open>w_saved\<close> are the vectors of \<^verbatim>\<open>Maps\<close>, \<open>w_cache\<close> is \<^verbatim>\<open>Elf::cache_\<close> while the cache is enabled.
\<close>

record world =
  w_infos :: "map_info option list"
  w_elfs :: "elf_object list"
  w_cache :: "(u8 list \<times> nat \<times> bool) list option"
  w_maps :: "nat list"
  w_saved :: "nat option list"

type_synonym 'r world_prog = "(world, 'r) prog"

text \<open>Files: the size that \<^verbatim>\<open>open\<close> and \<^verbatim>\<open>fstat\<close> deliver, and the bytes of a mapping of a length at an offset.\<close>

record file_system =
  fs_pagesize :: u64
  fs_st_size :: "u8 list \<Rightarrow> u64 option"
  fs_mmap :: "u8 list \<Rightarrow> u64 \<Rightarrow> u64 \<Rightarrow> u8 list option"

definition PROT_READ :: u16 where "PROT_READ = 1"
definition PROT_WRITE :: u16 where "PROT_WRITE = 2"
definition MAPS_FLAGS_DEVICE_MAP :: u16 where "MAPS_FLAGS_DEVICE_MAP = 0x8000"
definition MAPS_FLAGS_JIT_SYMFILE_MAP :: u16 where "MAPS_FLAGS_JIT_SYMFILE_MAP = 0x4000"

section \<open>The heap\<close>

definition live :: "world \<Rightarrow> nat \<Rightarrow> bool" where
  "live w i \<longleftrightarrow> i < length (w_infos w) \<and> w_infos w ! i \<noteq> None"

definition info_of :: "world \<Rightarrow> nat \<Rightarrow> map_info" where
  "info_of w i = the (w_infos w ! i)"

definition get_info :: "nat \<Rightarrow> map_info world_prog" where
  "get_info i = (\<lambda>w. if live w i then (Ok (info_of w i), w) else (Crash Undefined, w))"

definition set_info :: "nat \<Rightarrow> (map_info \<Rightarrow> map_info) \<Rightarrow> unit world_prog" where
  "set_info i f = (\<lambda>w.
     if live w i then (Ok (), w\<lparr>w_infos := (w_infos w)[i := Some (f (info_of w i))]\<rparr>) else (Crash Undefined, w))"

definition destroy_info :: "nat \<Rightarrow> world \<Rightarrow> world" where
  "destroy_info i w = w\<lparr>w_infos := (w_infos w)[i := None]\<rparr>"

definition new_info :: "map_info \<Rightarrow> world \<Rightarrow> nat \<times> world" where
  "new_info info w = (length (w_infos w), w\<lparr>w_infos := w_infos w @ [Some info]\<rparr>)"

text \<open>What \<^verbatim>\<open>prev_map\<close> points to.\<close>

definition get_prev :: "nat \<Rightarrow> map_info option world_prog" where
  "get_prev i =
     bnd (get_info i) (\<lambda>info.
     case mi_prev info of None \<Rightarrow> ret None | Some p \<Rightarrow> bnd (get_info p) (\<lambda>prev. ret (Some prev)))"

definition on_elf :: "nat \<Rightarrow> 'r elf_prog \<Rightarrow> 'r world_prog" where
  "on_elf k p = (\<lambda>w.
     if k < length (w_elfs w)
     then case p (w_elfs w ! k) of (x, s) \<Rightarrow> (x, w\<lparr>w_elfs := (w_elfs w)[k := s]\<rparr>)
     else (Crash Undefined, w))"

definition read_elf :: "nat \<Rightarrow> (elf_object \<Rightarrow> 'r outcome) \<Rightarrow> 'r world_prog" where
  "read_elf k f = on_elf k (lift_outcome f)"

definition of_option :: "'r option \<Rightarrow> ('s, 'r) prog" where
  "of_option x = (case x of None \<Rightarrow> fail_with id | Some y \<Rightarrow> ret y)"

definition of_outcome :: "'r outcome \<Rightarrow> ('s, 'r) prog" where
  "of_outcome x = (\<lambda>s. (x, s))"

text \<open>A call whose failure the caller handles as a value.\<close>

definition attempt :: "('s, 'r) prog \<Rightarrow> ('s, 'r option) prog" where
  "attempt p = or_else (bnd p (\<lambda>x. ret (Some x))) (ret None)"

section \<open>Memory of a map\<close>

text \<open>
  \<^verbatim>\<open>Init\<close> of a \<^verbatim>\<open>MemoryFileAtOffset\<close> object. A successful call sets all members, so that it is one on a new object, and
  the object is read after successful calls only.
\<close>

definition open_file :: "file_system \<Rightarrow> u8 list \<Rightarrow> u64 \<Rightarrow> u64 \<Rightarrow> memory option" where
  "open_file fs name offset sz =
     (case MemoryFileAtOffset_Init (fs_pagesize fs) (fs_st_size fs name) (fs_mmap fs name) offset sz
             \<lparr>fm_size = 0, fm_offset = 0, fm_data = None\<rparr> of
        (Ok _, m) \<Rightarrow> Some (\<lambda>addr n. case MemoryFileAtOffset_Read m addr n of Ok bs \<Rightarrow> bs | _ \<Rightarrow> [])
      | _ \<Rightarrow> None)"

definition InitFileMemoryFromPreviousReadOnlyMap :: "file_system \<Rightarrow> nat \<Rightarrow> memory world_prog" where
  "InitFileMemoryFromPreviousReadOnlyMap fs i =
     bnd (get_info i) (\<lambda>info.
     bnd (get_prev i) (\<lambda>prev.
     case prev of
       None \<Rightarrow> fail_with id
     | Some prev \<Rightarrow>
         if mi_flags prev \<noteq> PROT_READ then fail_with id
         else
           let map_size = mi_end info - mi_end prev in
           bnd (of_option (open_file fs (mi_name info) (mi_offset prev) map_size)) (\<lambda>mem.
           bnd (of_outcome (GetInfo mem)) (\<lambda>max_size.
           if max_size < map_size then fail_with id
           else
             bnd (of_option (open_file fs (mi_name info) (mi_offset prev) max_size)) (\<lambda>mem.
             bnd (set_info i (\<lambda>info. info\<lparr>mi_elf_offset := mi_offset info - mi_offset prev,
                                          mi_elf_start_offset := mi_offset prev\<rparr>)) (\<lambda>_.
             ret mem))))))"

text \<open>An ELF file that starts at the offset of the map.\<close>

definition embedded_elf :: "file_system \<Rightarrow> nat \<Rightarrow> map_info \<Rightarrow> memory \<Rightarrow> u64 \<Rightarrow> memory world_prog" where
  "embedded_elf fs i info mem max_size =
     (let map_size = mi_end info - mi_start info in
      bnd (set_info i (\<lambda>info. info\<lparr>mi_elf_start_offset := mi_offset info\<rparr>)) (\<lambda>_.
      if max_size > map_size then
        case open_file fs (mi_name info) (mi_offset info) max_size of
          Some mem \<Rightarrow> ret mem
        | None \<Rightarrow>
            case open_file fs (mi_name info) (mi_offset info) map_size of
              Some mem \<Rightarrow> ret mem
            | None \<Rightarrow> bnd (set_info i (\<lambda>info. info\<lparr>mi_elf_start_offset := 0\<rparr>)) (\<lambda>_. fail_with id)
      else ret mem))"

text \<open>The whole file is an ELF file.\<close>

definition whole_elf :: "nat \<Rightarrow> map_info \<Rightarrow> memory \<Rightarrow> memory world_prog" where
  "whole_elf i info mem =
     bnd (set_info i (\<lambda>info. info\<lparr>mi_elf_offset := mi_offset info\<rparr>)) (\<lambda>_.
     bnd (get_prev i) (\<lambda>prev.
     bnd (if (case prev of
                None \<Rightarrow> True
              | Some prev \<Rightarrow> mi_offset prev \<noteq> 0 \<or> mi_flags prev \<noteq> PROT_READ \<or> mi_name prev \<noteq> mi_name info)
          then set_info i (\<lambda>info. info\<lparr>mi_elf_start_offset := mi_offset info\<rparr>) else ret ()) (\<lambda>_.
     ret mem)))"

definition GetFileMemory :: "file_system \<Rightarrow> nat \<Rightarrow> memory world_prog" where
  "GetFileMemory fs i =
     bnd (get_info i) (\<lambda>info.
     if mi_offset info = 0 then of_option (open_file fs (mi_name info) 0 (-1))
     else
       let map_size = mi_end info - mi_start info in
       bnd (of_option (open_file fs (mi_name info) (mi_offset info) map_size)) (\<lambda>mem.
       case GetInfo mem of
         Crash c \<Rightarrow> crash c
       | Ok max_size \<Rightarrow> embedded_elf fs i info mem max_size
       | Fail \<Rightarrow>
           case open_file fs (mi_name info) 0 (-1) of
             Some whole \<Rightarrow>
               if IsValidElf (Some whole) then whole_elf i info whole
               else or_else (InitFileMemoryFromPreviousReadOnlyMap fs i)
                      (of_option (open_file fs (mi_name info) (mi_offset info) map_size))
           | None \<Rightarrow> or_else (InitFileMemoryFromPreviousReadOnlyMap fs i)
                      (of_option (open_file fs (mi_name info) (mi_offset info) map_size))))"

text \<open>The part of the process that a map covers.\<close>

definition map_range :: "memory \<Rightarrow> map_info \<Rightarrow> u64 \<Rightarrow> memory_range" where
  "map_range process info offset =
     \<lparr>range_memory = process, range_begin = mi_start info, range_length = mi_end info - mi_start info, range_offset = offset\<rparr>"

text \<open>Without a file: the map itself, or the map together with the previous one.\<close>

definition process_elf :: "memory \<Rightarrow> nat \<Rightarrow> memory world_prog" where
  "process_elf process i =
     bnd (get_info i) (\<lambda>info.
     let mem = MemoryRange_Read (map_range process info 0) in
     if IsValidElf (Some mem)
     then bnd (set_info i (\<lambda>info. info\<lparr>mi_memory_backed_elf := True\<rparr>)) (\<lambda>_. ret mem)
     else if mi_offset info = 0 \<or> mi_name info = [] then fail_with id
     else
       bnd (get_prev i) (\<lambda>prev.
       case prev of
         None \<Rightarrow> fail_with id
       | Some prev \<Rightarrow>
           if mi_name prev \<noteq> mi_name info \<or> mi_offset prev \<ge> mi_offset info then fail_with id
           else
             let elf_offset = mi_offset info - mi_offset prev in
             bnd (set_info i (\<lambda>info. info\<lparr>mi_elf_offset := elf_offset, mi_elf_start_offset := mi_offset prev,
                                          mi_memory_backed_elf := True\<rparr>)) (\<lambda>_.
             ret (MemoryRanges_Read
                    (MemoryRanges_Insert (map_range process info elf_offset)
                       (MemoryRanges_Insert (map_range process prev 0) []))))))"

definition CreateMemory :: "file_system \<Rightarrow> memory option \<Rightarrow> nat \<Rightarrow> memory world_prog" where
  "CreateMemory fs process i =
     bnd (get_info i) (\<lambda>info.
     if mi_end info \<le> mi_start info then fail_with id
     else
       bnd (set_info i (\<lambda>info. info\<lparr>mi_elf_offset := 0\<rparr>)) (\<lambda>_.
       if mi_flags info AND MAPS_FLAGS_DEVICE_MAP \<noteq> 0 then fail_with id
       else
         or_else (if mi_name info \<noteq> [] then GetFileMemory fs i else fail_with id)
           (case process of None \<Rightarrow> fail_with id | Some mem \<Rightarrow> process_elf mem i)))"

section \<open>The cache of ELF objects\<close>

text \<open>
  \<^verbatim>\<open>SetCachingEnabled\<close>: a cache that is enabled again starts empty. The lock is not modelled, the calls that hold it are
  whole steps.
\<close>

definition SetCachingEnabled :: "bool \<Rightarrow> world \<Rightarrow> world" where
  "SetCachingEnabled enable w =
     (if w_cache w = None \<and> enable then w\<lparr>w_cache := Some []\<rparr>
      else if w_cache w \<noteq> None \<and> \<not> enable then w\<lparr>w_cache := None\<rparr>
      else w)"

definition offset_name :: "map_info \<Rightarrow> u8 list" where
  "offset_name info = mi_name info @ ascii '':'' @ ascii (dec (unat (mi_offset info)))"

definition cache_put :: "u8 list \<Rightarrow> nat \<times> bool \<Rightarrow> world \<Rightarrow> world" where
  "cache_put key v w = w\<lparr>w_cache := map_option (AList.update key v) (w_cache w)\<rparr>"

definition cache_find :: "u8 list \<Rightarrow> world \<Rightarrow> (nat \<times> bool) option" where
  "cache_find key w = (case w_cache w of None \<Rightarrow> None | Some cache \<Rightarrow> map_of cache key)"

text \<open>\<open>k\<close> is the object of the map.\<close>

definition CacheAdd :: "nat \<Rightarrow> nat \<Rightarrow> unit world_prog" where
  "CacheAdd i k =
     bnd (get_info i) (\<lambda>info.
     bnd (if mi_offset info = 0 \<or> mi_elf_offset info \<noteq> 0 then modify (cache_put (mi_name info) (k, True)) else ret ()) (\<lambda>_.
     if mi_offset info \<noteq> 0 then modify (cache_put (offset_name info) (k, mi_elf_offset info \<noteq> 0)) else ret ()))"

definition CacheAfterCreateMemory :: "nat \<Rightarrow> nat world_prog" where
  "CacheAfterCreateMemory i =
     bnd (get_info i) (\<lambda>info.
     if mi_name info = [] \<or> mi_offset info = 0 \<or> mi_elf_offset info = 0 then fail_with id
     else
       bnd (gets (cache_find (mi_name info))) (\<lambda>entry.
       case entry of
         None \<Rightarrow> fail_with id
       | Some (k, _) \<Rightarrow>
           bnd (set_info i (\<lambda>info. info\<lparr>mi_elf := Some k\<rparr>)) (\<lambda>_.
           bnd (modify (cache_put (offset_name info) (k, True))) (\<lambda>_.
           ret k))))"

definition CacheGet :: "nat \<Rightarrow> nat world_prog" where
  "CacheGet i =
     bnd (get_info i) (\<lambda>info.
     bnd (gets (cache_find (if mi_offset info \<noteq> 0 then offset_name info else mi_name info))) (\<lambda>entry.
     case entry of
       None \<Rightarrow> fail_with id
     | Some (k, set_offset) \<Rightarrow>
         bnd (set_info i (\<lambda>info. info\<lparr>mi_elf := Some k,
                mi_elf_offset := (if set_offset then mi_offset info else mi_elf_offset info)\<rparr>)) (\<lambda>_.
         ret k)))"

section \<open>Objects of a map\<close>

text \<open>A new object for the map, which is kept even if it is not valid or for another architecture.\<close>

definition new_elf :: "env \<Rightarrow> ArchEnum \<Rightarrow> memory option \<Rightarrow> nat \<Rightarrow> nat world_prog" where
  "new_elf e expected_arch mem i = (\<lambda>w.
     let k = length (w_elfs w); w' = w\<lparr>w_elfs := w_elfs w @ [Elf mem]\<rparr> in
     bnd (set_info i (\<lambda>info. info\<lparr>mi_elf := Some k\<rparr>)) (\<lambda>_.
     bnd (on_elf k (attempt (Elf_Init e))) (\<lambda>_.
     bnd (on_elf k (modify (\<lambda>s. if obj_valid s \<and> obj_arch s \<noteq> Some expected_arch then Invalidate s else s))) (\<lambda>_.
     ret k))) w')"

text \<open>The previous map gets the object too, if it is the read-only part of the same file.\<close>

definition share_with_prev :: "nat \<Rightarrow> nat \<Rightarrow> unit world_prog" where
  "share_with_prev i k =
     bnd (get_info i) (\<lambda>info.
     case mi_prev info of
       None \<Rightarrow> ret ()
     | Some p \<Rightarrow>
         if mi_elf_start_offset info = mi_offset info then ret ()
         else
           bnd (get_info p) (\<lambda>prev.
           if mi_offset prev = mi_elf_start_offset info \<and> mi_name prev = mi_name info \<and> mi_elf prev = None
           then set_info p (\<lambda>prev. prev\<lparr>mi_elf := Some k, mi_memory_backed_elf := mi_memory_backed_elf info\<rparr>)
           else ret ()))"

definition MapInfo_GetElf :: "env \<Rightarrow> file_system \<Rightarrow> memory option \<Rightarrow> ArchEnum \<Rightarrow> nat \<Rightarrow> nat world_prog" where
  "MapInfo_GetElf e fs process expected_arch i =
     bnd (get_info i) (\<lambda>info.
     case mi_elf info of
       Some k \<Rightarrow> ret k
     | None \<Rightarrow>
         bnd (gets (\<lambda>w. w_cache w \<noteq> None \<and> mi_name info \<noteq> [])) (\<lambda>locked.
         or_else (if locked then CacheGet i else fail_with id)
           (bnd (attempt (CreateMemory fs process i)) (\<lambda>mem.
            or_else (if locked then CacheAfterCreateMemory i else fail_with id)
              (bnd (new_elf e expected_arch mem i) (\<lambda>k.
               bnd (if locked then CacheAdd i k else ret ()) (\<lambda>_.
               bnd (share_with_prev i k) (\<lambda>_.
               ret k))))))))"

definition MapInfo_GetFunctionName :: "env \<Rightarrow> u64 \<Rightarrow> nat \<Rightarrow> (u8 list \<times> u64) world_prog" where
  "MapInfo_GetFunctionName e addr i =
     bnd (get_info i) (\<lambda>info.
     case mi_elf info of None \<Rightarrow> fail_with id | Some k \<Rightarrow> on_elf k (Elf_GetFunctionName e addr))"

definition MapInfo_GetLoadBias :: "file_system \<Rightarrow> memory option \<Rightarrow> nat \<Rightarrow> u64 world_prog" where
  "MapInfo_GetLoadBias fs process i =
     bnd (get_info i) (\<lambda>info.
     if mi_load_bias info \<noteq> -1 then ret (mi_load_bias info)
     else
       bnd (case mi_elf info of
              Some k \<Rightarrow> read_elf k (\<lambda>s. Ok (if obj_valid s then obj_load_bias s else 0))
            | None \<Rightarrow> bnd (attempt (CreateMemory fs process i)) (\<lambda>mem. ret (static_GetLoadBias mem))) (\<lambda>bias.
       bnd (set_info i (\<lambda>info. info\<lparr>mi_load_bias := bias\<rparr>)) (\<lambda>_.
       ret bias)))"

text \<open>\<open>saved\<close> is the result of \<^verbatim>\<open>compare_exchange_weak\<close>, which may fail although the value is the expected one.\<close>

definition MapInfo_GetBuildID :: "env \<Rightarrow> file_system \<Rightarrow> bool \<Rightarrow> nat \<Rightarrow> (u8 list) world_prog" where
  "MapInfo_GetBuildID e fs saved i =
     bnd (get_info i) (\<lambda>info.
     case mi_build_id info of
       Some build_id \<Rightarrow> ret build_id
     | None \<Rightarrow>
         bnd (case mi_elf info of
                Some k \<Rightarrow> read_elf k (Elf_GetBuildID e)
              | None \<Rightarrow>
                  bnd (attempt (GetFileMemory fs i)) (\<lambda>mem.
                  case mem of None \<Rightarrow> ret [] | Some _ \<Rightarrow> of_outcome (static_GetBuildID e mem))) (\<lambda>build_id.
         bnd (if saved then set_info i (\<lambda>info. info\<lparr>mi_build_id := Some build_id\<rparr>) else ret ()) (\<lambda>_.
         ret build_id)))"

definition GetPrintableBuildID :: "env \<Rightarrow> file_system \<Rightarrow> bool \<Rightarrow> nat \<Rightarrow> (u8 list) world_prog" where
  "GetPrintableBuildID e fs saved i =
     bnd (MapInfo_GetBuildID e fs saved i) (\<lambda>raw.
     ret (concat (map (\<lambda>b. ascii (pad0 2 (hex (unat b)))) raw)))"

section \<open>Soundness of the heap\<close>

text \<open>The pointers to ELF objects, of live maps and in the cache, are valid.\<close>

definition elf_pointer :: "world \<Rightarrow> nat option \<Rightarrow> bool" where
  "elf_pointer w x \<longleftrightarrow> (\<forall>k. x = Some k \<longrightarrow> k < length (w_elfs w))"

definition world_sound :: "world \<Rightarrow> bool" where
  "world_sound w \<longleftrightarrow>
     (\<forall>i. live w i \<longrightarrow> elf_pointer w (mi_elf (info_of w i))) \<and>
     (\<forall>key k b. cache_find key w = Some (k, b) \<longrightarrow> k < length (w_elfs w))"

definition sound_at :: "nat \<Rightarrow> world \<Rightarrow> bool" where
  "sound_at i w \<longleftrightarrow> world_sound w \<and> live w i"

text \<open>The map has the object \<open>k\<close>.\<close>

definition has_elf :: "nat \<Rightarrow> nat \<Rightarrow> world \<Rightarrow> bool" where
  "has_elf i k w \<longleftrightarrow> sound_at i w \<and> mi_elf (info_of w i) = Some k"

lemma live_set_info: "live (w\<lparr>w_infos := (w_infos w)[j := Some info]\<rparr>) i \<longleftrightarrow> live w i \<or> i = j \<and> j < length (w_infos w)"
  by (cases "i = j") (auto simp: live_def)

lemma world_frame_infos [simp]:
  "elf_pointer (w\<lparr>w_infos := m\<rparr>) = elf_pointer w" "cache_find key (w\<lparr>w_infos := m\<rparr>) = cache_find key w"
  by (simp_all add: elf_pointer_def cache_find_def fun_eq_iff)

lemma info_of_set_info:
  "live w j \<Longrightarrow> info_of (w\<lparr>w_infos := (w_infos w)[j := Some info]\<rparr>) i = (if i = j then info else info_of w i)"
  by (simp add: info_of_def live_def)

lemma world_sound_set_info:
  assumes "world_sound w" and "live w j"
    and "elf_pointer w (mi_elf info)"
  shows "world_sound (w\<lparr>w_infos := (w_infos w)[j := Some info]\<rparr>)"
proof -
  have "j < length (w_infos w)"
    using assms(2) by (simp add: live_def)
  then show ?thesis
    using assms unfolding world_sound_def
    by (auto simp: live_set_info info_of_set_info split: if_splits)
qed

lemma maintains_get_info [maintain]: "maintains P E (get_info i)"
  by (simp add: maintains_def get_info_def)

lemma sound_at_set_info:
  assumes "\<And>info. mi_elf (f info) = mi_elf info"
  shows "maintains (sound_at i) E (set_info j f)"
proof (rule maintainsI)
  fix w x t assume w: "sound_at i w" and run: "set_info j f w = (Ok x, t)"
  have live: "live w j" and t: "t = w\<lparr>w_infos := (w_infos w)[j := Some (f (info_of w j))]\<rparr>"
    using run by (auto simp: set_info_def split: if_splits)
  have "elf_pointer w (mi_elf (f (info_of w j)))"
    using w live by (simp add: assms sound_at_def world_sound_def)
  then show "sound_at i t"
    using w live t by (simp add: sound_at_def world_sound_set_info live_set_info)
qed (auto simp: set_info_def split: if_splits)

lemma maintains_or_else [maintain]: "maintains P P p \<Longrightarrow> maintains P E q \<Longrightarrow> maintains P E (or_else p q)"
  unfolding maintains_def or_else_def by (fastforce split: prod.splits outcome.splits)

lemma maintains_attempt [maintain]: "maintains P P p \<Longrightarrow> maintains P P (attempt p)"
  unfolding attempt_def by (intro maintain)

lemma maintains_of [maintain]: "maintains P P (of_option x)" "maintains P P (of_outcome y)"
  by (simp_all add: of_option_def of_outcome_def maintains_def split: option.split outcome.split)

lemma maintains_outcome [maintain]:
  "(\<And>y. maintains P E (f y)) \<Longrightarrow> maintains P E g \<Longrightarrow> (\<And>c. maintains P E (h c)) \<Longrightarrow>
     maintains P E (case x of Ok y \<Rightarrow> f y | Fail \<Rightarrow> g | Crash c \<Rightarrow> h c)"
  by (cases x) simp_all

lemma maintains_get_prev [maintain]: "maintains P P (get_prev i)"
  unfolding get_prev_def by (intro maintain)

lemma maintains_fail [maintain]: "maintains P P (fail_with id)"
  by (simp add: maintains_def)

lemma sound_at_InitFileMemory: "maintains (sound_at i) (sound_at i) (InitFileMemoryFromPreviousReadOnlyMap fs j)"
  unfolding InitFileMemoryFromPreviousReadOnlyMap_def Let_def by (intro maintain sound_at_set_info) simp_all

lemma sound_at_embedded: "maintains (sound_at i) (sound_at i) (embedded_elf fs j info mem n)"
  unfolding embedded_elf_def Let_def by (intro maintain sound_at_set_info) simp_all

lemma sound_at_whole: "maintains (sound_at i) (sound_at i) (whole_elf j info mem)"
  unfolding whole_elf_def by (intro maintain sound_at_set_info) simp_all

lemma sound_at_GetFileMemory: "maintains (sound_at i) (sound_at i) (GetFileMemory fs j)"
  unfolding GetFileMemory_def Let_def
  by (intro maintain sound_at_InitFileMemory sound_at_embedded sound_at_whole)

lemma sound_at_process_elf: "maintains (sound_at i) (sound_at i) (process_elf mem j)"
  unfolding process_elf_def Let_def by (intro maintain sound_at_set_info) simp_all

lemma sound_at_CreateMemory: "maintains (sound_at i) (sound_at i) (CreateMemory fs process j)"
  unfolding CreateMemory_def
  by (intro maintain sound_at_GetFileMemory sound_at_process_elf sound_at_set_info) simp_all

lemma set_info_elf:
  assumes "sound_at i w" and "k < length (w_elfs w)" and "\<And>info. mi_elf (f info) = Some k"
  obtains t where "set_info i f w = (Ok (), t)" and "has_elf i k t" and "w_elfs t = w_elfs w"
proof -
  let ?t = "w\<lparr>w_infos := (w_infos w)[i := Some (f (info_of w i))]\<rparr>"
  have "set_info i f w = (Ok (), ?t)"
    using assms(1) by (simp add: set_info_def sound_at_def)
  moreover have "has_elf i k ?t"
    using assms
    by (auto simp: has_elf_def sound_at_def live_set_info info_of_set_info elf_pointer_def intro!: world_sound_set_info)
  ultimately show thesis
    using that by simp
qed

lemma cache_find_put:
  "cache_find key' (cache_put key v w) = (if key' = key \<and> w_cache w \<noteq> None then Some v else cache_find key' w)"
  by (auto simp: cache_find_def cache_put_def update_conv split: option.splits)

lemma has_elf_cache_put:
  assumes "has_elf i k w" and "j < length (w_elfs w)"
  shows "has_elf i k (cache_put key (j, b) w)" and "w_elfs (cache_put key (j, b) w) = w_elfs w"
proof -
  show "w_elfs (cache_put key (j, b) w) = w_elfs w"
    by (simp add: cache_put_def)
  have same: "live (cache_put key (j, b) w) = live w" "info_of (cache_put key (j, b) w) = info_of w"
    "elf_pointer (cache_put key (j, b) w) = elf_pointer w" "w_elfs (cache_put key (j, b) w) = w_elfs w"
    by (simp_all add: cache_put_def live_def info_of_def elf_pointer_def fun_eq_iff split: option.split)
  show "has_elf i k (cache_put key (j, b) w)"
    using assms unfolding has_elf_def sound_at_def world_sound_def same
    by (auto simp: cache_find_put split: if_splits)
qed

lemma has_elf_bound: "has_elf i k w \<Longrightarrow> k < length (w_elfs w)"
  by (auto simp: has_elf_def sound_at_def world_sound_def elf_pointer_def)

lemma get_info_sound: "sound_at i w \<Longrightarrow> get_info i w = (Ok (info_of w i), w)"
  by (simp add: get_info_def sound_at_def)

lemma CacheGet_elf:
  assumes "sound_at i w"
  shows "case CacheGet i w of (Ok k, t) \<Rightarrow> has_elf i k t | (Fail, t) \<Rightarrow> t = w | (Crash c, t) \<Rightarrow> False"
proof (cases "cache_find (if mi_offset (info_of w i) \<noteq> 0 then offset_name (info_of w i) else mi_name (info_of w i)) w")
  case None
  then show ?thesis
    using get_info_sound [OF assms] by (simp add: CacheGet_def bnd_def)
next
  case (Some v)
  obtain k b where v: "v = (k, b)"
    by fastforce
  have "k < length (w_elfs w)"
    using assms Some v unfolding sound_at_def world_sound_def by blast
  from set_info_elf [OF assms this, of "\<lambda>info. info\<lparr>mi_elf := Some k,
      mi_elf_offset := (if b then mi_offset info else mi_elf_offset info)\<rparr>"]
  obtain t where "set_info i (\<lambda>info. info\<lparr>mi_elf := Some k,
      mi_elf_offset := (if b then mi_offset info else mi_elf_offset info)\<rparr>) w = (Ok (), t)" "has_elf i k t"
    by auto
  then show ?thesis
    using get_info_sound [OF assms] Some v by (simp add: CacheGet_def bnd_def)
qed

lemma CacheAfterCreateMemory_elf:
  assumes "sound_at i w"
  shows "case CacheAfterCreateMemory i w of (Ok k, t) \<Rightarrow> has_elf i k t | (Fail, t) \<Rightarrow> t = w | (Crash c, t) \<Rightarrow> False"
proof (cases "cache_find (mi_name (info_of w i)) w")
  case None
  then show ?thesis
    using get_info_sound [OF assms] by (simp add: CacheAfterCreateMemory_def bnd_def)
next
  case (Some v)
  obtain k b where v: "v = (k, b)"
    by fastforce
  have "k < length (w_elfs w)"
    using assms Some v unfolding sound_at_def world_sound_def by blast
  from set_info_elf [OF assms this, of "\<lambda>info. info\<lparr>mi_elf := Some k\<rparr>"]
  obtain t where "set_info i (\<lambda>info. info\<lparr>mi_elf := Some k\<rparr>) w = (Ok (), t)" "has_elf i k t"
    by auto
  then show ?thesis
    using get_info_sound [OF assms] Some v has_elf_cache_put(1) [OF _ has_elf_bound, of i k t i k]
    by (simp add: CacheAfterCreateMemory_def bnd_def)
qed

text \<open>A new object is valid for the expected architecture only.\<close>

definition arch_ok :: "ArchEnum \<Rightarrow> elf_object \<Rightarrow> bool" where
  "arch_ok arch s \<longleftrightarrow> (obj_valid s \<longrightarrow> obj_arch s = Some arch)"

lemma has_elf_update:
  "has_elf i k (w\<lparr>w_elfs := (w_elfs w)[j := s]\<rparr>) \<longleftrightarrow> has_elf i k w"
  by (simp add: has_elf_def sound_at_def world_sound_def live_def info_of_def elf_pointer_def cache_find_def)

lemma sound_at_new_elf:
  assumes "sound_at i w"
  shows "sound_at i (w\<lparr>w_elfs := w_elfs w @ [s]\<rparr>)"
  using assms
  by (fastforce simp: sound_at_def world_sound_def live_def info_of_def elf_pointer_def cache_find_def split: option.splits)

lemma new_elf_elf:
  assumes "sound_at i w"
  shows "case new_elf e arch mem i w of
      (Ok k, t) \<Rightarrow> has_elf i k t \<and> arch_ok arch (w_elfs t ! k) | (Fail, t) \<Rightarrow> False | (Crash c, t) \<Rightarrow> True"
proof -
  let ?w = "w\<lparr>w_elfs := w_elfs w @ [Elf mem]\<rparr>" and ?k = "length (w_elfs w)"
  from set_info_elf [OF sound_at_new_elf [OF assms, of "Elf mem"], of ?k "\<lambda>info. info\<lparr>mi_elf := Some ?k\<rparr>"]
  obtain t where t: "set_info i (\<lambda>info. info\<lparr>mi_elf := Some ?k\<rparr>) ?w = (Ok (), t)" "has_elf i ?k t"
    by auto
  have k: "?k < length (w_elfs t)"
    by (rule has_elf_bound [OF t(2)])
  obtain x s where init: "attempt (Elf_Init e) (w_elfs t ! ?k) = (x, s)"
    by fastforce
  have "x \<noteq> Fail"
    using init by (auto simp: attempt_def or_else_def bnd_def split: prod.splits outcome.splits)
  then show ?thesis
    using t k init
    by (auto simp: new_elf_def Let_def bnd_def on_elf_def has_elf_update arch_ok_def Invalidate_def split: outcome.splits)
qed

lemma share_with_prev_elf:
  assumes "has_elf i k w"
  shows "case share_with_prev i k w of
      (Ok _, t) \<Rightarrow> has_elf i k t \<and> w_elfs t = w_elfs w | (Fail, t) \<Rightarrow> False | (Crash c, t) \<Rightarrow> True"
proof (cases "mi_prev (info_of w i)")
  case None
  then show ?thesis
    using assms get_info_sound [of i w] by (simp add: share_with_prev_def bnd_def has_elf_def)
next
  case (Some p)
  have sound: "sound_at i w" and elf: "mi_elf (info_of w i) = Some k"
    using assms by (auto simp: has_elf_def)
  show ?thesis
  proof (cases "live w p")
    case True
    then have "sound_at p w"
      using sound by (simp add: sound_at_def)
    from set_info_elf [OF this has_elf_bound [OF assms],
        of "\<lambda>prev. prev\<lparr>mi_elf := Some k, mi_memory_backed_elf := mi_memory_backed_elf (info_of w i)\<rparr>"]
    obtain t where t: "set_info p (\<lambda>prev. prev\<lparr>mi_elf := Some k,
        mi_memory_backed_elf := mi_memory_backed_elf (info_of w i)\<rparr>) w = (Ok (), t)" "has_elf p k t" "w_elfs t = w_elfs w"
      by auto
    then have "has_elf i k t"
      using sound elf True by (auto simp: has_elf_def sound_at_def set_info_def live_set_info info_of_set_info)
    then show ?thesis
      using assms Some True t get_info_sound [OF sound] by (simp add: share_with_prev_def bnd_def get_info_def)
  next
    case False
    then show ?thesis
      using assms Some get_info_sound [OF sound] by (simp add: share_with_prev_def bnd_def get_info_def)
  qed
qed

lemma CacheAdd_elf:
  assumes "has_elf i k w"
  shows "\<exists>t. CacheAdd i k w = (Ok (), t) \<and> has_elf i k t \<and> w_elfs t = w_elfs w"
proof -
  have "get_info i w = (Ok (info_of w i), w)"
    using assms get_info_sound by (simp add: has_elf_def)
  moreover note put = has_elf_cache_put [OF _ has_elf_bound, of i k _ i k]
  ultimately show ?thesis
    using assms by (simp add: CacheAdd_def bnd_def put)
qed

text \<open>The part of \<^verbatim>\<open>GetElf\<close> that makes an object.\<close>

definition make_elf :: "env \<Rightarrow> ArchEnum \<Rightarrow> bool \<Rightarrow> memory option \<Rightarrow> nat \<Rightarrow> nat world_prog" where
  "make_elf e arch locked mem i =
     bnd (new_elf e arch mem i) (\<lambda>k.
     bnd (if locked then CacheAdd i k else ret ()) (\<lambda>_.
     bnd (share_with_prev i k) (\<lambda>_.
     ret k)))"

lemma make_elf_elf:
  assumes "sound_at i w"
  shows "case make_elf e arch locked mem i w of
      (Ok k, t) \<Rightarrow> has_elf i k t \<and> arch_ok arch (w_elfs t ! k) | (Fail, t) \<Rightarrow> False | (Crash c, t) \<Rightarrow> True"
proof (cases "new_elf e arch mem i w")
  case (Pair x t)
  show ?thesis
  proof (cases x)
    case (Ok k)
    with Pair new_elf_elf [OF assms, where e = e and arch = arch and mem = mem] have t: "has_elf i k t" "arch_ok arch (w_elfs t ! k)"
      by auto
    obtain u where u: "(if locked then CacheAdd i k else ret ()) t = (Ok (), u)" "has_elf i k u" "w_elfs u = w_elfs t"
      using CacheAdd_elf [OF t(1)] t(1) by (cases locked) auto
    show ?thesis
      using share_with_prev_elf [OF u(2)] t(2) u Pair Ok
      by (auto simp: make_elf_def bnd_def split: prod.splits outcome.splits)
  qed (use Pair new_elf_elf [OF assms, where e = e and arch = arch and mem = mem] in \<open>auto simp: make_elf_def bnd_def\<close>)
qed

text \<open>What holds after a call that returns and after one that fails.\<close>

definition yields :: "('r \<Rightarrow> 's \<Rightarrow> bool) \<Rightarrow> ('s \<Rightarrow> bool) \<Rightarrow> ('s, 'r) prog \<Rightarrow> 's \<Rightarrow> bool" where
  "yields Q F p s \<longleftrightarrow> (case p s of (Ok x, t) \<Rightarrow> Q x t | (Fail, t) \<Rightarrow> F t | (Crash c, t) \<Rightarrow> True)"

lemma yields_or_else:
  assumes "yields Q G p s" and "\<And>t. G t \<Longrightarrow> yields Q F q t"
  shows "yields Q F (or_else p q) s"
proof -
  obtain x t where "p s = (x, t)"
    by fastforce
  then show ?thesis
    using assms(1) assms(2) [of t] by (cases x) (simp_all add: yields_def or_else_def)
qed

lemma yields_bnd:
  assumes "yields R F p s" and "\<And>x t. R x t \<Longrightarrow> yields Q F (f x) t"
  shows "yields Q F (bnd p f) s"
proof -
  obtain x t where "p s = (x, t)"
    by fastforce
  then show ?thesis
    using assms(1) assms(2) [of _ t] by (cases x) (simp_all add: yields_def bnd_def)
qed

lemma yields_attempt: "maintains P P p \<Longrightarrow> P s \<Longrightarrow> yields (\<lambda>_. P) (\<lambda>_. False) (attempt p) s"
  by (auto simp: yields_def attempt_def or_else_def bnd_def dest: maintainsD split: prod.splits outcome.splits)

lemma MapInfo_GetElf_elf:
  assumes sound: "sound_at i w"
  shows "yields (\<lambda>k t. has_elf i k t \<and> (mi_elf (info_of w i) = None \<and> w_cache w = None \<longrightarrow> arch_ok arch (w_elfs t ! k)))
    (\<lambda>_. False) (MapInfo_GetElf e fs process arch i) w"
proof (cases "mi_elf (info_of w i)")
  case None
  define locked where "locked \<longleftrightarrow> w_cache w \<noteq> None \<and> mi_name (info_of w i) \<noteq> []"
  define Q where "Q = (\<lambda>k t. has_elf i k t \<and> (mi_elf (info_of w i) = None \<and> w_cache w = None \<longrightarrow> arch_ok arch (w_elfs t ! k)))"
  have run: "MapInfo_GetElf e fs process arch i w =
    or_else (if locked then CacheGet i else fail_with id)
      (bnd (attempt (CreateMemory fs process i)) (\<lambda>mem.
       or_else (if locked then CacheAfterCreateMemory i else fail_with id) (make_elf e arch locked mem i))) w"
    using None get_info_sound [OF sound] by (simp add: MapInfo_GetElf_def bnd_def locked_def make_elf_def)
  have get: "yields Q (\<lambda>t. t = w) (if locked then CacheGet i else fail_with id) w"
    using CacheGet_elf [OF sound] by (auto simp: yields_def Q_def locked_def split: prod.splits outcome.splits)
  have after: "yields Q (\<lambda>t. t = u) (if locked then CacheAfterCreateMemory i else fail_with id) u" if "sound_at i u" for u
    using CacheAfterCreateMemory_elf [OF that] by (auto simp: yields_def Q_def locked_def split: prod.splits outcome.splits)
  have make: "yields Q (\<lambda>_. False) (make_elf e arch locked mem i) u" if "sound_at i u" for u mem
    using make_elf_elf [OF that, where e = e and arch = arch and locked = locked and mem = mem]
    by (auto simp: yields_def Q_def split: prod.splits outcome.splits)
  have "yields Q (\<lambda>_. False) (or_else (if locked then CacheGet i else fail_with id)
      (bnd (attempt (CreateMemory fs process i)) (\<lambda>mem.
       or_else (if locked then CacheAfterCreateMemory i else fail_with id) (make_elf e arch locked mem i)))) w"
  proof (rule yields_or_else [OF get])
    fix t assume "t = w"
    then have t: "sound_at i t"
      using sound by simp
    show "yields Q (\<lambda>_. False) (bnd (attempt (CreateMemory fs process i)) (\<lambda>mem.
       or_else (if locked then CacheAfterCreateMemory i else fail_with id) (make_elf e arch locked mem i))) t"
      by (rule yields_bnd [OF yields_attempt [OF sound_at_CreateMemory t]], rule yields_or_else [OF after]) (simp_all add: make)
  qed
  then show ?thesis
    unfolding yields_def run Q_def .
next
  case (Some k)
  then show ?thesis
    using get_info_sound [OF sound] sound by (simp add: yields_def MapInfo_GetElf_def bnd_def has_elf_def)
qed

text \<open>
  C8. \<^verbatim>\<open>GetElf\<close> never returns \<^verbatim>\<open>nullptr\<close>. In a heap whose pointers to ELF objects are valid it returns a valid
  pointer that it has stored in the map, and leaves such a heap behind, whether the object is that of the map, one of the cache, or
  a new one. Later calls return the same object and change nothing. An object that is made for the map, without the cache, is
  valid for the expected architecture only.
\<close>

theorem MapInfo_GetElf_sound:
  assumes "world_sound w" and "live w i"
  shows "case MapInfo_GetElf e fs process arch i w of
      (Ok k, t) \<Rightarrow>
        world_sound t \<and> live t i \<and> k < length (w_elfs t) \<and> mi_elf (info_of t i) = Some k \<and>
        MapInfo_GetElf e' fs' process' arch' i t = (Ok k, t) \<and>
        (mi_elf (info_of w i) = None \<and> w_cache w = None \<and> obj_valid (w_elfs t ! k) \<longrightarrow> obj_arch (w_elfs t ! k) = Some arch)
    | (Fail, t) \<Rightarrow> False
    | (Crash c, t) \<Rightarrow> True"
proof -
  have again: "MapInfo_GetElf e' fs' process' arch' i t = (Ok k, t)" if "has_elf i k t" for k t
    using that get_info_sound [of i t] by (simp add: MapInfo_GetElf_def bnd_def has_elf_def)
  have "has_elf i k t \<Longrightarrow> world_sound t \<and> live t i \<and> k < length (w_elfs t) \<and> mi_elf (info_of t i) = Some k" for k t
    using has_elf_bound [of i k t] by (simp add: has_elf_def sound_at_def)
  with again show ?thesis
    using MapInfo_GetElf_elf [where i = i and w = w and e = e and fs = fs and process = process and arch = arch] assms
    by (cases "MapInfo_GetElf e fs process arch i w")
      (auto simp: yields_def sound_at_def arch_ok_def split: outcome.splits)
qed

definition example_files :: file_system where
  "example_files = \<lparr>fs_pagesize = 4096, fs_st_size = (\<lambda>_. None), fs_mmap = (\<lambda>_ _ _. None)\<rparr>"

definition example_world :: world where
  "example_world =
     \<lparr>w_infos = [Some (MapInfo None 0x1000 0x2000 0 5 (ascii ''/lib.so''))], w_elfs = [], w_cache = Some [], w_maps = [0],
      w_saved = []\<rparr>"

theorem MapInfo_GetElf_sound_witness:
  "mi_elf (info_of (snd (MapInfo_GetElf example_env example_files None ARCH_X86_64 0 example_world)) 0) = Some 0"
proof -
  have "world_sound example_world" "live example_world 0"
    by (auto simp: world_sound_def live_def info_of_def elf_pointer_def cache_find_def example_world_def MapInfo_def)
  note sound = MapInfo_GetElf_sound [OF this, where e = example_env and fs = example_files and process = None and arch = ARCH_X86_64]
  have "fst (MapInfo_GetElf example_env example_files None ARCH_X86_64 0 example_world) = Ok 0"
    by code_simp
  then show ?thesis
    using sound [where e' = example_env and fs' = example_files and process' = None and arch' = ARCH_X86_64]
    by (cases "MapInfo_GetElf example_env example_files None ARCH_X86_64 0 example_world") simp
qed

end
