(* ===== verification/Process_Maps.thy ===== *)
theory Process_Maps
  imports Map_Info Interval_Search "HOL-Library.Multiset"
begin

text \<open>
  \<^verbatim>\<open>Maps.h\<close> and \<^verbatim>\<open>Maps.cpp\<close>: the maps of a process, the search for the map of an address, and the update of the maps of the
  own process. The parser of the kernel's file is a library; the model gets what it delivers.
\<close>

unbundle bit_operations_syntax

section \<open>Search\<close>

text \<open>The objects of the vector, with their pointers.\<close>

definition map_objects :: "world \<Rightarrow> (nat \<times> map_info) list" where
  "map_objects w = map (\<lambda>i. (i, info_of w i)) (w_maps w)"

function Find_loop :: "(nat \<times> map_info) list \<Rightarrow> u64 \<Rightarrow> nat \<Rightarrow> nat \<Rightarrow> (nat \<times> map_info) option" where
  "Find_loop maps pc first last_index =
     (if first < last_index then
        let index = (first + last_index) div 2; cur = snd (maps ! index) in
        if pc \<ge> mi_start cur \<and> pc < mi_end cur then Some (maps ! index)
        else if pc < mi_start cur then Find_loop maps pc first index
        else Find_loop maps pc (index + 1) last_index
      else None)"
  by pat_completeness auto
termination
  by (relation "measure (\<lambda>(maps, pc, first, last_index). last_index - first)") auto

declare Find_loop.simps [simp del]

definition Find :: "u64 \<Rightarrow> world \<Rightarrow> nat option" where
  "Find pc w = map_option fst (Find_loop (map_objects w) pc 0 (length (w_maps w)))"

definition Maps_Get :: "nat \<Rightarrow> world \<Rightarrow> nat option" where
  "Maps_Get index w = (if index \<ge> length (w_maps w) then None else Some (w_maps w ! index))"

section \<open>Construction\<close>

record map_entry =
  me_start :: u64
  me_end :: u64
  me_flags :: u16
  me_pgoff :: u64
  me_name :: "u8 list"

definition starts_with :: "u8 list \<Rightarrow> string \<Rightarrow> bool" where
  "starts_with name pre \<longleftrightarrow> take (length pre) name = ascii pre"

definition map_back :: "world \<Rightarrow> nat option" where
  "map_back w = (if w_maps w = [] then None else Some (last (w_maps w)))"

definition push_map :: "map_info \<Rightarrow> world \<Rightarrow> world" where
  "push_map info w = (case new_info info w of (i, w') \<Rightarrow> w'\<lparr>w_maps := w_maps w' @ [i]\<rparr>)"

text \<open>The function that the parser calls for every line.\<close>

definition add_entry :: "map_entry \<Rightarrow> world \<Rightarrow> world" where
  "add_entry x w =
     (let flags = (if starts_with (me_name x) ''/dev/'' \<and> \<not> starts_with (drop 5 (me_name x)) ''ashmem/''
                   then me_flags x OR MAPS_FLAGS_DEVICE_MAP else me_flags x) in
      push_map (MapInfo (map_back w) (me_start x) (me_end x) (me_pgoff x) (ucast flags) (me_name x)) w)"

text \<open>What the library delivers: the lines it calls the function for, and whether it succeeds.\<close>

definition Parse :: "map_entry list \<times> bool \<Rightarrow> unit world_prog" where
  "Parse file = (\<lambda>w. (if snd file then Ok () else Fail, fold add_entry (fst file) w))"

definition Maps_Add :: "u64 \<Rightarrow> u64 \<Rightarrow> u64 \<Rightarrow> u64 \<Rightarrow> u8 list \<Rightarrow> u64 \<Rightarrow> world \<Rightarrow> world" where
  "Maps_Add start stop offset flags name bias w =
     push_map ((MapInfo (map_back w) start stop offset flags name)\<lparr>mi_load_bias := bias\<rparr>) w"

definition RemoteMaps_GetMapsFile :: "nat \<Rightarrow> string" where
  "RemoteMaps_GetMapsFile pid = ''/proc/'' @ dec pid @ ''/maps''"

definition LocalUpdatableMaps_GetMapsFile :: string where
  "LocalUpdatableMaps_GetMapsFile = ''/proc/self/maps''"

section \<open>Sorting\<close>

text \<open>
  The vector as \<^verbatim>\<open>std::sort\<close> sees it: the start of a map and its pointer, or \<^verbatim>\<open>nullptr\<close>, which comes last. The order of
  maps with the same start is not fixed.
\<close>

definition map_less :: "(u64 \<times> nat) option \<Rightarrow> (u64 \<times> nat) option \<Rightarrow> bool" where
  "map_less a b =
     (case a of None \<Rightarrow> False | Some (s, _) \<Rightarrow> (case b of None \<Rightarrow> True | Some (t, _) \<Rightarrow> s < t))"

definition sorts_maps :: "((u64 \<times> nat) option list \<Rightarrow> (u64 \<times> nat) option list) \<Rightarrow> bool" where
  "sorts_maps std_sort \<longleftrightarrow>
     (\<forall>xs. mset (std_sort xs) = mset xs \<and> sorted_wrt (\<lambda>a b. \<not> map_less b a) (std_sort xs))"

definition keyed :: "world \<Rightarrow> nat option \<Rightarrow> (u64 \<times> nat) option" where
  "keyed w x = map_option (\<lambda>i. (mi_start (info_of w i), i)) x"

text \<open>The new \<^verbatim>\<open>prev_map\<close> values.\<close>

fun link_prev :: "nat option \<Rightarrow> nat list \<Rightarrow> world \<Rightarrow> world" where
  "link_prev prev [] w = w"
| "link_prev prev (i # is) w =
     link_prev (Some i) is (w\<lparr>w_infos := (w_infos w)[i := map_option (\<lambda>info. info\<lparr>mi_prev := prev\<rparr>) (w_infos w ! i)]\<rparr>)"

definition Maps_Sort :: "((u64 \<times> nat) option list \<Rightarrow> (u64 \<times> nat) option list) \<Rightarrow> world \<Rightarrow> world" where
  "Maps_Sort std_sort w =
     (let is = map (snd \<circ> the) (std_sort (map (keyed w \<circ> Some) (w_maps w))) in
      link_prev None is (w\<lparr>w_maps := is\<rparr>))"

section \<open>Update\<close>

text \<open>
  The loop over the old maps, for one new map: how many of them it moves away, and how it ends. An old map that has been
  moved away is \<^verbatim>\<open>nullptr\<close>, and using it is undefined.
\<close>

datatype scan = Matched nat | Stopped nat | Exhausted nat | Null_Pointer

definition same_map :: "map_info \<Rightarrow> map_info \<Rightarrow> bool" where
  "same_map a b \<longleftrightarrow> mi_start a = mi_start b \<and> mi_end a = mi_end b \<and> mi_flags a = mi_flags b \<and> mi_name a = mi_name b"

fun old_loop :: "world \<Rightarrow> map_info \<Rightarrow> nat option list \<Rightarrow> nat \<Rightarrow> scan" where
  "old_loop w new_map [] n = Exhausted n"
| "old_loop w new_map (None # olds) n = Null_Pointer"
| "old_loop w new_map (Some i # olds) n =
     (if same_map new_map (info_of w i) then Matched n
      else if mi_start (info_of w i) > mi_start new_map then Stopped n
      else old_loop w new_map olds (n + 1))"

text \<open>The variables of \<^verbatim>\<open>Reparse\<close>; the vector is cut into its old and its new part.\<close>

record reparse =
  rp_world :: world
  rp_olds :: "nat option list"
  rp_news :: "nat option list"
  rp_search :: nat
  rp_total :: u64

text \<open>\<open>n\<close> old maps from \<open>search_map_idx\<close> on are moved to \<^verbatim>\<open>saved_maps_\<close>.\<close>

definition save_maps :: "nat \<Rightarrow> reparse \<Rightarrow> reparse" where
  "save_maps n s =
     s\<lparr>rp_world := (rp_world s)\<lparr>w_saved := w_saved (rp_world s) @ take n (drop (rp_search s) (rp_olds s))\<rparr>,
       rp_olds := take (rp_search s) (rp_olds s) @ replicate n None @ drop (rp_search s + n) (rp_olds s),
       rp_total := rp_total s - of_nat n\<rparr>"

text \<open>The loop over the new maps, from index \<open>k\<close> of the new part on.\<close>

fun new_loop :: "nat list \<Rightarrow> nat \<Rightarrow> (reparse, unit) prog" where
  "new_loop [] k s = (Ok (), s)"
| "new_loop (i # is) k s =
     (let w = rp_world s in
      case old_loop w (info_of w i) (drop (rp_search s) (rp_olds s)) 0 of
        Null_Pointer \<Rightarrow> (Crash Undefined, s)
      | Matched n \<Rightarrow>
          let t = save_maps n s;
              u = t\<lparr>rp_world := destroy_info i (rp_world t), rp_news := (rp_news t)[k := None],
                    rp_search := rp_search s + n + 1, rp_total := rp_total t - 1\<rparr> in
          if rp_search u \<ge> length (rp_olds u) then (Ok (), u) else new_loop is (k + 1) u
      | Stopped n \<Rightarrow>
          let u = (save_maps n s)\<lparr>rp_search := rp_search s + n\<rparr> in
          if rp_search u \<ge> length (rp_olds u) then (Ok (), u) else new_loop is (k + 1) u
      | Exhausted n \<Rightarrow>
          let u = save_maps n s in
          if rp_search u \<ge> length (rp_olds u) then (Ok (), u) else new_loop is (k + 1) u)"

text \<open>
  The last part: the maps that were not found, sorting, and the new size. A size above the old one comes from a wrap-around of
  \<^verbatim>\<open>total_entries\<close>, and \<^verbatim>\<open>resize\<close> throws an exception for it. The maps behind the new size are destroyed.
\<close>

definition map_pointers :: "(u64 \<times> nat) option list \<Rightarrow> nat list" where
  "map_pointers xs = map (snd \<circ> the) (filter (\<lambda>x. x \<noteq> None) xs)"

definition finish_reparse :: "((u64 \<times> nat) option list \<Rightarrow> (u64 \<times> nat) option list) \<Rightarrow> (reparse, unit) prog" where
  "finish_reparse std_sort s =
     (let t = save_maps (length (rp_olds s) - rp_search s) s;
          sorted = std_sort (map (keyed (rp_world t)) (rp_olds t @ rp_news t)) in
      if unat (rp_total t) > length sorted then (Crash CheckFailed, t)
      else
        (Ok (), t\<lparr>rp_world := (fold destroy_info (map_pointers (drop (unat (rp_total t)) sorted)) (rp_world t))
           \<lparr>w_maps := map (snd \<circ> the) (take (unat (rp_total t)) sorted)\<rparr>\<rparr>))"

definition Reparse ::
  "((u64 \<times> nat) option list \<Rightarrow> (u64 \<times> nat) option list) \<Rightarrow> map_entry list \<times> bool \<Rightarrow> unit world_prog" where
  "Reparse std_sort file = (\<lambda>w.
     let last_map_idx = length (w_maps w) in
     case Parse file w of
       (Ok _, t) \<Rightarrow>
         (let news = drop last_map_idx (w_maps t) in
          apsnd rp_world
            (bnd (new_loop news 0) (\<lambda>_. finish_reparse std_sort)
               \<lparr>rp_world = t, rp_olds = map Some (w_maps w), rp_news = map Some news, rp_search = 0,
                rp_total = of_nat (length (w_maps t))\<rparr>))
     | (Fail, t) \<Rightarrow>
         (Fail, (fold destroy_info (drop last_map_idx (w_maps t)) t)\<lparr>w_maps := take last_map_idx (w_maps t)\<rparr>)
     | (Crash c, t) \<Rightarrow> (Crash c, t))"

section \<open>The search finds the map\<close>

interpretation map_search: interval_search "mi_start \<circ> snd" "mi_end \<circ> snd" Find_loop
proof
  fix xs :: "(nat \<times> map_info) list" and addr :: u64 and first last_index :: nat
  show "Find_loop xs addr first last_index = None" if "last_index \<le> first"
    using that by (simp add: Find_loop.simps)
  show "\<exists>mid. first \<le> mid \<and> mid < last_index \<and> Find_loop xs addr first last_index =
      (if addr < (mi_start \<circ> snd) (xs ! mid) then Find_loop xs addr first mid
       else if addr < (mi_end \<circ> snd) (xs ! mid) then Some (xs ! mid)
       else Find_loop xs addr (mid + 1) last_index)" if "first < last_index"
    using that by (intro exI [of _ "(first + last_index) div 2"]) (auto simp: Find_loop.simps [of xs addr first last_index] Let_def)
qed

text \<open>The maps of the vector are ascending and do not overlap.\<close>

definition disjoint_maps :: "world \<Rightarrow> bool" where
  "disjoint_maps w \<longleftrightarrow>
     sorted_wrt (\<lambda>i j. mi_end (info_of w i) \<le> mi_start (info_of w j)) (w_maps w) \<and>
     list_all (\<lambda>i. mi_start (info_of w i) \<le> mi_end (info_of w i)) (w_maps w)"

lemma disjoint_maps_ordered: "disjoint_maps w \<Longrightarrow> map_search.ordered (map_objects w)"
proof -
  assume maps: "disjoint_maps w"
  then have "mi_start (info_of w i) \<le> mi_start (info_of w j)"
    if "i \<in> set (w_maps w)" "mi_end (info_of w i) \<le> mi_start (info_of w j)" for i j
    using that by (auto simp: disjoint_maps_def list_all_iff intro: order_trans)
  then show ?thesis
    using maps unfolding map_search.ordered_def map_objects_def sorted_wrt_map disjoint_maps_def
    by (auto intro: sorted_wrt_mono_rel [rotated])
qed

lemma disjoint_maps_unique:
  assumes "disjoint_maps w" and "i \<in> set (w_maps w)" and "j \<in> set (w_maps w)"
    and "mi_start (info_of w i) \<le> pc" "pc < mi_end (info_of w i)" "mi_start (info_of w j) \<le> pc" "pc < mi_end (info_of w j)"
  shows "i = j"
proof (rule ccontr)
  assume "i \<noteq> j"
  obtain a b where ab: "a < length (w_maps w)" "b < length (w_maps w)" "w_maps w ! a = i" "w_maps w ! b = j"
    using assms(2,3) by (auto simp: in_set_conv_nth)
  with \<open>i \<noteq> j\<close> have "a < b \<or> b < a"
    by (metis linorder_neqE_nat)
  then have "mi_end (info_of w i) \<le> mi_start (info_of w j) \<or> mi_end (info_of w j) \<le> mi_start (info_of w i)"
    using assms(1) ab by (auto simp: disjoint_maps_def sorted_wrt_iff_nth_less)
  then show False
    using assms(4-) by auto
qed

text \<open>
  C18. For maps that are ascending and do not overlap, \<^verbatim>\<open>Find\<close> returns a map exactly if it is one of the maps and contains
  the address.
\<close>

theorem Find_correct:
  assumes "disjoint_maps w"
  shows "Find pc w = Some i \<longleftrightarrow> i \<in> set (w_maps w) \<and> mi_start (info_of w i) \<le> pc \<and> pc < mi_end (info_of w i)"
proof
  assume "Find pc w = Some i"
  then obtain info where "Find_loop (map_objects w) pc 0 (length (w_maps w)) = Some (i, info)"
    by (auto simp: Find_def)
  from map_search.search_sound [OF this]
  show "i \<in> set (w_maps w) \<and> mi_start (info_of w i) \<le> pc \<and> pc < mi_end (info_of w i)"
    by (auto simp: map_objects_def map_search.inside_def)
next
  assume i: "i \<in> set (w_maps w) \<and> mi_start (info_of w i) \<le> pc \<and> pc < mi_end (info_of w i)"
  then have "Find_loop (map_objects w) pc 0 (length (map_objects w)) \<noteq> None"
    using map_search.search_None_iff [OF disjoint_maps_ordered [OF assms], of pc]
    by (auto simp: map_objects_def map_search.inside_def)
  then obtain j info where j: "Find_loop (map_objects w) pc 0 (length (map_objects w)) = Some (j, info)"
    by auto
  have "j \<in> set (w_maps w) \<and> mi_start (info_of w j) \<le> pc \<and> pc < mi_end (info_of w j)"
    using map_search.search_sound [OF j] by (auto simp: map_objects_def map_search.inside_def)
  then have "j = i"
    using disjoint_maps_unique [OF assms] i by blast
  then show "Find pc w = Some i"
    using j by (simp add: Find_def map_objects_def)
qed

theorem Find_correct_witness:
  "Find 0x3800 (Maps_Add 0x3000 0x4000 0 5 [] 0 (Maps_Add 0x1000 0x2000 0 5 [] 0 (example_world\<lparr>w_infos := [], w_maps := []\<rparr>)))
     = Some 1"
proof -
  let ?w = "Maps_Add 0x3000 0x4000 0 5 [] 0 (Maps_Add 0x1000 0x2000 0 5 [] 0 (example_world\<lparr>w_infos := [], w_maps := []\<rparr>))"
  have w: "w_maps ?w = [0, 1]" "info_of ?w 0 = (MapInfo None 0x1000 0x2000 0 5 [])\<lparr>mi_load_bias := 0\<rparr>"
    "info_of ?w 1 = (MapInfo (Some 0) 0x3000 0x4000 0 5 [])\<lparr>mi_load_bias := 0\<rparr>"
    by (simp_all add: Maps_Add_def push_map_def new_info_def map_back_def info_of_def)
  then have "disjoint_maps ?w"
    by (simp add: disjoint_maps_def MapInfo_def)
  from Find_correct [OF this, of "0x3800" 1] w show ?thesis
    by (simp add: MapInfo_def)
qed

section \<open>The update delivers the new maps\<close>

type_synonym map_key = "u64 \<times> u64 \<times> u16 \<times> u8 list"

text \<open>What \<^verbatim>\<open>Reparse\<close> compares, of a map and of a line of the kernel's file.\<close>

definition map_key :: "map_info \<Rightarrow> map_key" where
  "map_key info = (mi_start info, mi_end info, mi_flags info, mi_name info)"

definition entry_key :: "map_entry \<Rightarrow> map_key" where
  "entry_key x =
     (me_start x, me_end x,
      if starts_with (me_name x) ''/dev/'' \<and> \<not> starts_with (drop 5 (me_name x)) ''ashmem/''
      then me_flags x OR MAPS_FLAGS_DEVICE_MAP else me_flags x, me_name x)"

definition somes :: "'b option list \<Rightarrow> 'b list" where
  "somes xs = map the (filter (\<lambda>x. x \<noteq> None) xs)"

definition nulls :: "'b option list \<Rightarrow> nat" where
  "nulls xs = length (filter (\<lambda>x. x = None) xs)"

lemma somes_simps [simp]:
  "somes [] = []" "somes (None # xs) = somes xs" "somes (Some x # xs) = x # somes xs" "somes (xs @ ys) = somes xs @ somes ys"
  "somes (replicate n None) = []" "somes (map Some zs) = zs"
  by (simp_all add: somes_def filter_map comp_def)

lemma nulls_simps [simp]:
  "nulls [] = 0" "nulls (None # xs) = Suc (nulls xs)" "nulls (Some x # xs) = nulls xs" "nulls (xs @ ys) = nulls xs + nulls ys"
  "nulls (replicate n None) = n" "nulls (map Some zs) = 0"
  by (simp_all add: nulls_def)

lemma length_somes: "length xs = length (somes xs) + nulls xs"
  by (induction xs) (auto simp: somes_def nulls_def)

text \<open>The loop over the old maps, if they are ascending and one of them is not below the new map.\<close>

lemma same_map_iff: "same_map a b \<longleftrightarrow> map_key a = map_key b"
  by (auto simp: same_map_def map_key_def)

lemma old_loop_eq:
  assumes "\<exists>i \<in> set os. same_map new_map (info_of w i) \<or> mi_start (info_of w i) > mi_start new_map"
  shows "\<exists>pre i post. os = pre @ i # post \<and>
    (\<forall>j \<in> set pre. \<not> same_map new_map (info_of w j) \<and> mi_start (info_of w j) \<le> mi_start new_map) \<and>
    (if same_map new_map (info_of w i) then old_loop w new_map (map Some os) n = Matched (n + length pre)
     else mi_start (info_of w i) > mi_start new_map \<and> old_loop w new_map (map Some os) n = Stopped (n + length pre))"
  using assms
proof (induction os arbitrary: n)
  case (Cons i os)
  show ?case
  proof (cases "same_map new_map (info_of w i) \<or> mi_start (info_of w i) > mi_start new_map")
    case True
    show ?thesis
      by (rule exI [of _ "[]"], rule exI [of _ i], rule exI [of _ os]) (use True in \<open>auto\<close>)
  next
    case False
    with Cons.prems have "\<exists>i \<in> set os. same_map new_map (info_of w i) \<or> mi_start (info_of w i) > mi_start new_map"
      by auto
    from Cons.IH [OF this, of "n + 1"] obtain pre j post where IH: "os = pre @ j # post"
      "\<forall>k \<in> set pre. \<not> same_map new_map (info_of w k) \<and> mi_start (info_of w k) \<le> mi_start new_map"
      "if same_map new_map (info_of w j) then old_loop w new_map (map Some os) (n + 1) = Matched (n + 1 + length pre)
       else mi_start (info_of w j) > mi_start new_map \<and> old_loop w new_map (map Some os) (n + 1) = Stopped (n + 1 + length pre)"
      by blast
    show ?thesis
      by (rule exI [of _ "i # pre"], rule exI [of _ j], rule exI [of _ post]) (use IH False in \<open>auto simp: not_less\<close>)
  qed
qed simp

text \<open>What the loop over the new maps does to the old maps \<open>os\<close> and the new maps \<open>ns\<close> that are left: \<open>X\<close> and \<open>Y\<close> are what it
  leaves of them.\<close>

definition reparsed ::
  "(nat \<Rightarrow> map_info) \<Rightarrow> nat list \<Rightarrow> nat list \<Rightarrow> reparse \<Rightarrow> nat option list \<Rightarrow> nat option list \<Rightarrow> reparse \<Rightarrow> bool" where
  "reparsed info os ns s X Y u \<longleftrightarrow>
     rp_olds u = take (rp_search s) (rp_olds s) @ X \<and> length X = length os \<and> rp_search u = length (rp_olds s) \<and>
     length Y = length ns \<and> rp_total u = rp_total s - of_nat (nulls X + nulls Y) \<and>
     set (somes X) \<subseteq> set os \<and> set (somes Y) \<subseteq> set ns \<and>
     mset (map (map_key \<circ> info) (somes X @ somes Y)) = mset (map (map_key \<circ> info) ns) \<and>
     length (w_infos (rp_world u)) = length (w_infos (rp_world s)) \<and>
     (\<forall>i. i \<notin> set ns \<or> i \<in> set (somes Y) \<longrightarrow> w_infos (rp_world u) ! i = w_infos (rp_world s) ! i) \<and>
     (\<forall>i \<in> set os. if map_key (info i) \<in> (map_key \<circ> info) ` set ns then i \<in> set (somes X)
                   else Some i \<in> set (w_saved (rp_world u))) \<and>
     set (w_saved (rp_world s)) \<subseteq> set (w_saved (rp_world u))"

definition ascending :: "(nat \<Rightarrow> map_info) \<Rightarrow> nat list \<Rightarrow> bool" where
  "ascending info = sorted_wrt (\<lambda>i j. mi_start (info i) < mi_start (info j))"

lemma map_key_start: "map_key a = map_key b \<Longrightarrow> mi_start a = mi_start b"
  by (simp add: map_key_def)

lemma new_loop_no_olds:
  assumes "rp_search s = length (rp_olds s)" and "distinct ns"
  shows "\<exists>u. new_loop ns k s = (Ok (), u) \<and> rp_news u = rp_news s \<and> reparsed info [] ns s [] (map Some ns) u"
  using assms by (cases ns) (auto simp: reparsed_def save_maps_def)

text \<open>One round, in which the old maps \<open>p\<close> are moved away.\<close>

lemma reparsed_matched:
  assumes rest: "reparsed info q ns t X Y u" and t: "rp_olds t = take (rp_search s) (rp_olds s) @ replicate (length p) None @ Some i # map Some q"
      "rp_search t = rp_search s + length p + 1" "rp_search s \<le> length (rp_olds s)" "length (rp_olds t) = length (rp_olds s)"
      "rp_total t = rp_total s - of_nat (length p) - 1"
      "w_infos (rp_world t) = (w_infos (rp_world s))[n := None]" "w_saved (rp_world t) = w_saved (rp_world s) @ map Some p"
    and key: "map_key (info i) = map_key (info n)"
    and p: "\<forall>j \<in> set p. map_key (info j) \<notin> (map_key \<circ> info) ` set (n # ns)"
    and q: "\<forall>j \<in> set q. map_key (info j) \<noteq> map_key (info n)"
    and "distinct (p @ i # q @ n # ns)"
  shows "reparsed info (p @ i # q) (n # ns) s (replicate (length p) None @ Some i # X) (None # Y) u"
  using assms unfolding reparsed_def
  by (auto simp: algebra_simps) (metis nth_list_update_neq subsetD)

lemma reparsed_stopped:
  assumes rest: "reparsed info q ns t X Y u" and t: "rp_olds t = take (rp_search s) (rp_olds s) @ replicate (length p) None @ map Some q"
      "rp_search t = rp_search s + length p" "rp_search s \<le> length (rp_olds s)" "length (rp_olds t) = length (rp_olds s)"
      "rp_total t = rp_total s - of_nat (length p)"
      "w_infos (rp_world t) = w_infos (rp_world s)" "w_saved (rp_world t) = w_saved (rp_world s) @ map Some p"
    and p: "\<forall>j \<in> set p. map_key (info j) \<notin> (map_key \<circ> info) ` set (n # ns)"
    and q: "\<forall>j \<in> set q. map_key (info j) \<noteq> map_key (info n)"
    and "distinct (p @ q @ n # ns)"
  shows "reparsed info (p @ q) (n # ns) s (replicate (length p) None @ X) (Some n # Y) u"
  using assms unfolding reparsed_def
  by (auto simp: algebra_simps)

text \<open>How the loop over the old maps splits them, for the first of the new maps that are left.\<close>

lemma scan_split:
  assumes "os \<noteq> []" and infos: "\<forall>i \<in> set os \<union> set (n # ns). info_of w i = info i"
    and "ascending info os" and ns: "ascending info (n # ns)"
    and "map_key (info (last os)) \<in> (map_key \<circ> info) ` set (n # ns)"
  obtains p i q where "os = p @ i # q" and "\<forall>j \<in> set p. map_key (info j) \<notin> (map_key \<circ> info) ` set (n # ns)"
    and "\<forall>j \<in> set q. mi_start (info i) < mi_start (info j)"
    and "map_key (info i) = map_key (info n) \<and> old_loop w (info n) (map Some os) 0 = Matched (length p) \<or>
      mi_start (info n) < mi_start (info i) \<and> old_loop w (info n) (map Some os) 0 = Stopped (length p)"
proof -
  have starts: "mi_start (info n) < mi_start (info j)" if "j \<in> set ns" for j
    using ns that by (simp add: ascending_def)
  obtain j where j: "j \<in> set (n # ns)" "map_key (info (last os)) = map_key (info j)"
    using assms(5) by auto
  have "\<exists>i \<in> set os. same_map (info n) (info_of w i) \<or> mi_start (info_of w i) > mi_start (info n)"
    using infos assms(1) j starts [of j] map_key_start [OF j(2)]
    by (intro bexI [of _ "last os"]) (auto simp: same_map_iff)
  from old_loop_eq [OF this, of 0, unfolded add_0] obtain p i q where os: "os = p @ i # q"
    and p: "\<forall>j \<in> set p. \<not> same_map (info n) (info_of w j) \<and> mi_start (info_of w j) \<le> mi_start (info n)"
    and scan: "if same_map (info n) (info_of w i) then old_loop w (info n) (map Some os) 0 = Matched (length p)
      else mi_start (info_of w i) > mi_start (info n) \<and> old_loop w (info n) (map Some os) 0 = Stopped (length p)"
    by blast
  show thesis
  proof (rule that [OF os])
    show "\<forall>j \<in> set p. map_key (info j) \<notin> (map_key \<circ> info) ` set (n # ns)"
      using p infos os starts by (fastforce simp: same_map_iff dest!: map_key_start)
    show "\<forall>j \<in> set q. mi_start (info i) < mi_start (info j)"
      using assms(3) os by (simp add: ascending_def sorted_wrt_append)
    show "map_key (info i) = map_key (info n) \<and> old_loop w (info n) (map Some os) 0 = Matched (length p) \<or>
        mi_start (info n) < mi_start (info i) \<and> old_loop w (info n) (map Some os) 0 = Stopped (length p)"
      using scan infos os by (auto simp: same_map_iff split: if_splits)
  qed
qed

lemma save_maps_cut:
  assumes "drop (rp_search s) (rp_olds s) = map Some (p @ i # q)" and "rp_search s \<le> length (rp_olds s)"
  shows "rp_olds (save_maps (length p) s) = take (rp_search s) (rp_olds s) @ replicate (length p) None @ Some i # map Some q"
    and "rp_search (save_maps (length p) s) = rp_search s" and "rp_news (save_maps (length p) s) = rp_news s"
    and "rp_total (save_maps (length p) s) = rp_total s - of_nat (length p)"
    and "w_infos (rp_world (save_maps (length p) s)) = w_infos (rp_world s)"
    and "w_saved (rp_world (save_maps (length p) s)) = w_saved (rp_world s) @ map Some p"
    and "length (rp_olds s) = rp_search s + length p + 1 + length q"
proof -
  have "take (length p) (drop (rp_search s) (rp_olds s)) = map Some p"
    "drop (rp_search s + length p) (rp_olds s) = Some i # map Some q"
    using assms(1) by (simp_all add: drop_drop [symmetric] add.commute [of "rp_search s"])
  then show "rp_olds (save_maps (length p) s) = take (rp_search s) (rp_olds s) @ replicate (length p) None @ Some i # map Some q"
    "w_saved (rp_world (save_maps (length p) s)) = w_saved (rp_world s) @ map Some p"
    by (simp_all add: save_maps_def)
  show "length (rp_olds s) = rp_search s + length p + 1 + length q"
    using arg_cong [OF assms(1), of length] assms(2) by simp
qed (simp_all add: save_maps_def)

text \<open>The state of the loop: \<open>os\<close> and \<open>ns\<close> are the old and the new maps that are left.\<close>

definition reparse_state :: "(nat \<Rightarrow> map_info) \<Rightarrow> nat list \<Rightarrow> nat list \<Rightarrow> nat option list \<Rightarrow> reparse \<Rightarrow> bool" where
  "reparse_state info os ns pre s \<longleftrightarrow>
     drop (rp_search s) (rp_olds s) = map Some os \<and> rp_search s \<le> length (rp_olds s) \<and> rp_news s = pre @ map Some ns \<and>
     (\<forall>i \<in> set os \<union> set ns. info_of (rp_world s) i = info i) \<and> distinct (os @ ns) \<and>
     ascending info os \<and> ascending info ns"

lemma matched_round:
  assumes state: "reparse_state info (p @ i # q) (n # ns) pre s"
    and p: "\<forall>j \<in> set p. map_key (info j) \<notin> (map_key \<circ> info) ` set (n # ns)"
    and q: "\<forall>j \<in> set q. mi_start (info i) < mi_start (info j)"
    and key: "map_key (info i) = map_key (info n)"
    and scan: "old_loop (rp_world s) (info n) (map Some (p @ i # q)) 0 = Matched (length p)"
  obtains u where "reparse_state info q ns (pre @ [None]) u"
    and "new_loop (n # ns) (length pre) s = (if q = [] then (Ok (), u) else new_loop ns (length pre + 1) u)"
    and "\<And>X Y v. reparsed info q ns u X Y v \<Longrightarrow>
      reparsed info (p @ i # q) (n # ns) s (replicate (length p) None @ Some i # X) (None # Y) v"
proof -
  note st = state [unfolded reparse_state_def]
  have t: "drop (rp_search s) (rp_olds s) = map Some (p @ i # q)" "rp_search s \<le> length (rp_olds s)"
    using st by simp_all
  note t = this save_maps_cut [OF this]
  define u where "u = (save_maps (length p) s)\<lparr>rp_world := destroy_info n (rp_world (save_maps (length p) s)),
    rp_news := (rp_news s)[length pre := None], rp_search := rp_search s + length p + 1,
    rp_total := rp_total s - of_nat (length p) - 1\<rparr>"
  have infos: "info_of (rp_world u) j = info j" if "j \<in> set q \<union> set ns" for j
  proof -
    have "n \<noteq> j" "info_of (rp_world s) j = info j"
      using that st by auto
    then show ?thesis
      using t by (simp add: u_def info_of_def destroy_info_def)
  qed
  have u: "drop (rp_search u) (rp_olds u) = map Some q" "rp_search u \<le> length (rp_olds u)"
    using t by (simp_all add: u_def)
  then have "length (rp_olds u) \<le> rp_search u \<longleftrightarrow> q = []"
    by (metis drop_eq_Nil list.map_disc_iff)
  then have "new_loop (n # ns) (length pre) s = (if q = [] then (Ok (), u) else new_loop ns (length pre + 1) u)"
    using scan st t by (simp add: u_def Let_def)
  moreover have "reparse_state info q ns (pre @ [None]) u"
    using st infos u by (auto simp: reparse_state_def u_def ascending_def sorted_wrt_append list_update_append)
  moreover have "\<forall>j \<in> set q. map_key (info j) \<noteq> map_key (info n)"
    using q key by (metis map_key_start order_less_irrefl)
  then have "reparsed info (p @ i # q) (n # ns) s (replicate (length p) None @ Some i # X) (None # Y) v"
    if "reparsed info q ns u X Y v" for X Y v
    using reparsed_matched [OF that, of s p i n] t key p st by (simp add: u_def destroy_info_def)
  ultimately show thesis
    using that by blast
qed

lemma stopped_round:
  assumes state: "reparse_state info (p @ i # q) (n # ns) pre s"
    and p: "\<forall>j \<in> set p. map_key (info j) \<notin> (map_key \<circ> info) ` set (n # ns)"
    and q: "\<forall>j \<in> set q. mi_start (info i) < mi_start (info j)"
    and start: "mi_start (info n) < mi_start (info i)"
    and scan: "old_loop (rp_world s) (info n) (map Some (p @ i # q)) 0 = Stopped (length p)"
  obtains u where "reparse_state info (i # q) ns (pre @ [Some n]) u"
    and "new_loop (n # ns) (length pre) s = new_loop ns (length pre + 1) u"
    and "\<And>X Y v. reparsed info (i # q) ns u X Y v \<Longrightarrow>
      reparsed info (p @ i # q) (n # ns) s (replicate (length p) None @ X) (Some n # Y) v"
proof -
  note st = state [unfolded reparse_state_def]
  have t: "drop (rp_search s) (rp_olds s) = map Some (p @ i # q)" "rp_search s \<le> length (rp_olds s)"
    using st by simp_all
  note t = this save_maps_cut [OF this]
  define u where "u = (save_maps (length p) s)\<lparr>rp_search := rp_search s + length p\<rparr>"
  have u: "drop (rp_search u) (rp_olds u) = map Some (i # q)" "rp_search u < length (rp_olds u)"
    using t by (simp_all add: u_def)
  then have "new_loop (n # ns) (length pre) s = new_loop ns (length pre + 1) u"
    using scan st t by (simp add: u_def Let_def)
  moreover have "reparse_state info (i # q) ns (pre @ [Some n]) u"
    using st u t by (auto simp: reparse_state_def u_def ascending_def sorted_wrt_append info_of_def)
  moreover have "\<forall>j \<in> set (i # q). map_key (info j) \<noteq> map_key (info n)"
    using q start by (auto dest!: map_key_start dest: order_less_trans)
  then have "reparsed info (p @ i # q) (n # ns) s (replicate (length p) None @ X) (Some n # Y) v"
    if "reparsed info (i # q) ns u X Y v" for X Y v
    using reparsed_stopped [OF that, of s p n] t p st by (simp add: u_def)
  ultimately show thesis
    using that by blast
qed

lemma new_loop_reparsed:
  assumes "reparse_state info os ns pre s" and "os = [] \<or> map_key (info (last os)) \<in> (map_key \<circ> info) ` set ns"
  shows "\<exists>u X Y. new_loop ns (length pre) s = (Ok (), u) \<and> rp_news u = pre @ Y \<and> reparsed info os ns s X Y u"
  using assms
proof (induction ns arbitrary: s os pre)
  case Nil
  then show ?case
    using new_loop_no_olds [of s "[]" "length pre" info] by (auto simp: reparse_state_def drop_eq_Nil)
next
  case (Cons n ns)
  show ?case
  proof (cases "os = []")
    case True
    then show ?thesis
      using new_loop_no_olds [of s "n # ns" "length pre" info] Cons.prems(1) by (auto simp: reparse_state_def drop_eq_Nil)
  next
    case False
    with Cons.prems have last: "map_key (info (last os)) \<in> (map_key \<circ> info) ` set (n # ns)"
      by blast
    obtain p i q where os: "os = p @ i # q"
      and p: "\<forall>j \<in> set p. map_key (info j) \<notin> (map_key \<circ> info) ` set (n # ns)"
      and q: "\<forall>j \<in> set q. mi_start (info i) < mi_start (info j)"
      and scan: "map_key (info i) = map_key (info n) \<and> old_loop (rp_world s) (info n) (map Some os) 0 = Matched (length p) \<or>
        mi_start (info n) < mi_start (info i) \<and> old_loop (rp_world s) (info n) (map Some os) 0 = Stopped (length p)"
      using scan_split [OF False _ _ _ last] Cons.prems(1) unfolding reparse_state_def by blast
    note state = Cons.prems(1) [unfolded os]
    from scan show ?thesis
    proof (elim disjE conjE)
      assume key: "map_key (info i) = map_key (info n)"
        and matched: "old_loop (rp_world s) (info n) (map Some os) 0 = Matched (length p)"
      obtain u where u: "reparse_state info q ns (pre @ [None]) u"
          "new_loop (n # ns) (length pre) s = (if q = [] then (Ok (), u) else new_loop ns (length pre + 1) u)"
          "\<And>X Y v. reparsed info q ns u X Y v \<Longrightarrow>
            reparsed info os (n # ns) s (replicate (length p) None @ Some i # X) (None # Y) v"
        using matched_round [OF state p q key] matched unfolding os by blast
      have "\<exists>v X Y. new_loop (n # ns) (length pre) s = (Ok (), v) \<and> rp_news v = (pre @ [None]) @ Y \<and> reparsed info q ns u X Y v"
      proof (cases "q = []")
        case True
        then have "rp_search u = length (rp_olds u)" "rp_news u = (pre @ [None]) @ map Some ns"
          using u(1) by (simp_all add: reparse_state_def drop_eq_Nil)
        then show ?thesis
          using True u(2) by (intro exI [of _ u] exI [of _ "[]"] exI [of _ "map Some ns"]) (auto simp: reparsed_def)
      next
        case False
        then have "map_key (info (last q)) \<noteq> map_key (info n)"
          using q key last_in_set [OF False] by (metis map_key_start order_less_irrefl)
        then show ?thesis
          using Cons.IH [OF u(1)] u(2) last os False by auto
      qed
      then show ?thesis
        using u(3) by fastforce
    next
      assume start: "mi_start (info n) < mi_start (info i)"
        and stopped: "old_loop (rp_world s) (info n) (map Some os) 0 = Stopped (length p)"
      obtain u where u: "reparse_state info (i # q) ns (pre @ [Some n]) u"
          "new_loop (n # ns) (length pre) s = new_loop ns (length pre + 1) u"
          "\<And>X Y v. reparsed info (i # q) ns u X Y v \<Longrightarrow>
            reparsed info os (n # ns) s (replicate (length p) None @ X) (Some n # Y) v"
        using stopped_round [OF state p q start] stopped unfolding os by blast
      have "mi_start (info n) < mi_start (info (last (i # q)))"
        using q start last_in_set [of "i # q"] by (auto dest: order_less_trans)
      then have "map_key (info (last (i # q))) \<noteq> map_key (info n)"
        by (metis map_key_start order_less_irrefl)
      then have "\<exists>v X Y. new_loop ns (length pre + 1) u = (Ok (), v) \<and> rp_news v = (pre @ [Some n]) @ Y \<and> reparsed info (i # q) ns u X Y v"
        using Cons.IH [OF u(1)] last os by auto
      then show ?thesis
        using u(2,3) by fastforce
    qed
  qed
qed

text \<open>The new maps.\<close>

lemma ucast_flags [simp]: "(ucast (ucast (flags :: u16) :: u64) :: u16) = flags"
  by (rule bit_word_eqI) (simp add: bit_simps)

lemma fold_add_entry:
  "\<exists>infos. w_infos (fold add_entry xs w) = w_infos w @ map Some infos \<and> map map_key infos = map entry_key xs \<and>
     w_maps (fold add_entry xs w) = w_maps w @ [length (w_infos w)..<length (w_infos w) + length xs] \<and>
     w_saved (fold add_entry xs w) = w_saved w"
proof (induction xs arbitrary: w)
  case (Cons x xs)
  have add: "\<exists>info. w_infos (add_entry x w) = w_infos w @ [Some info] \<and> map_key info = entry_key x \<and>
      w_maps (add_entry x w) = w_maps w @ [length (w_infos w)] \<and> w_saved (add_entry x w) = w_saved w"
    by (simp add: add_entry_def push_map_def new_info_def map_key_def entry_key_def MapInfo_def Let_def)
  then obtain info where info: "w_infos (add_entry x w) = w_infos w @ [Some info]" "map_key info = entry_key x"
      "w_maps (add_entry x w) = w_maps w @ [length (w_infos w)]" "w_saved (add_entry x w) = w_saved w"
    by blast
  from Cons [of "add_entry x w"] obtain infos where
    "w_infos (fold add_entry xs (add_entry x w)) = w_infos (add_entry x w) @ map Some infos"
    "map map_key infos = map entry_key xs"
    "w_maps (fold add_entry xs (add_entry x w)) = w_maps (add_entry x w) @
      [length (w_infos (add_entry x w))..<length (w_infos (add_entry x w)) + length xs]"
    "w_saved (fold add_entry xs (add_entry x w)) = w_saved (add_entry x w)"
    by blast
  then show ?case
    using info by (intro exI [of _ "info # infos"]) (simp add: upt_conv_Cons del: upt_Suc)
qed simp

text \<open>Sorting puts the null pointers last.\<close>

lemma sorted_maps_somes:
  "sorted_wrt (\<lambda>a b. \<not> map_less b a) xs \<Longrightarrow>
     take (length (somes xs)) xs = map Some (somes xs) \<and> sorted (map fst (somes xs))"
proof (induction xs)
  case (Cons x xs)
  show ?case
  proof (cases x)
    case None
    have "y = None" if "y \<in> set xs" for y
      using Cons.prems that None by (cases y) (auto simp: map_less_def)
    then have "somes xs = []"
      by (auto simp: somes_def filter_empty_conv)
    then show ?thesis
      by (simp add: None)
  next
    case (Some a)
    have "fst a \<le> fst b" if "Some b \<in> set xs" for b
      using Cons.prems that by (cases a; cases b) (auto simp: Some map_less_def not_less)
    then show ?thesis
      using Cons by (auto simp: Some somes_def)
  qed
qed simp

lemma sorted_keys_unique:
  fixes xs ys :: "map_key list"
  assumes "sorted_wrt (\<lambda>a b. fst a < fst b) xs" and "sorted (map fst ys)" and "mset xs = mset ys"
  shows "ys = xs"
proof -
  have "sorted_wrt (<) (map fst xs)"
    using assms(1) by (simp add: sorted_wrt_map)
  then have "inj_on fst (set xs)" "sorted (map fst xs)"
    by (auto simp: strict_sorted_iff distinct_map)
  then show ?thesis
    using sort_key_inj_key_eq [of xs ys fst] sort_key_inj_key_eq [of xs xs fst] assms(2,3) by simp
qed

lemma mset_somes: "mset xs = mset ys \<Longrightarrow> mset (somes xs) = mset (somes ys)"
  unfolding somes_def by (metis mset_filter mset_map)

lemma somes_keyed: "somes (map (keyed w) xs) = map (\<lambda>i. (mi_start (info_of w i), i)) (somes xs)"
  by (induction xs) (auto simp: keyed_def somes_def)

lemma somes_map_Some: "somes (map Some xs) = xs"
  by (induction xs) simp_all

lemma map_pointers_somes: "map_pointers xs = map snd (somes xs)"
  by (simp add: map_pointers_def somes_def)

lemma drop_nulls:
  assumes "take (length (somes xs)) xs = map Some (somes xs)"
  shows "map_pointers (drop (length (somes xs)) xs) = []"
proof -
  have "somes xs = somes (take (length (somes xs)) xs) @ somes (drop (length (somes xs)) xs)"
    by (metis append_take_drop_id somes_simps(4))
  then have "somes (drop (length (somes xs)) xs) = []"
    by (simp add: assms somes_map_Some)
  then show ?thesis
    by (simp add: map_pointers_somes)
qed

text \<open>The end of \<^verbatim>\<open>Reparse\<close>, after the loop has consumed all old maps.\<close>

lemma finish_reparsed:
  assumes sort: "sorts_maps std_sort" and run: "reparsed info os ns s X Y u" and news: "rp_news u = Y"
    and s: "rp_search s = 0" "rp_olds s = map Some os" "rp_total s = of_nat (length os + length ns)"
    and size: "length os + length ns < 2 ^ 64" and ns: "ascending info ns"
    and infos: "\<forall>i \<in> set (somes X) \<union> set (somes Y). info_of (rp_world u) i = info i"
  obtains v where "finish_reparse std_sort u = (Ok (), v)" and "w_infos (rp_world v) = w_infos (rp_world u)"
    and "w_saved (rp_world v) = w_saved (rp_world u)" and "set (w_maps (rp_world v)) = set (somes X) \<union> set (somes Y)"
    and "map (map_key \<circ> info) (w_maps (rp_world v)) = map (map_key \<circ> info) ns"
proof -
  note r = run [unfolded reparsed_def]
  define xs where "xs = std_sort (map (keyed (rp_world u)) (X @ Y))"
  define res where "res = map snd (somes xs)"
  have olds: "rp_olds u = X"
    using r s by simp
  have save: "save_maps (length X - rp_search u) u = u"
    using r s by (simp add: save_maps_def)
  have xs: "mset xs = mset (map (keyed (rp_world u)) (X @ Y))" "sorted_wrt (\<lambda>a b. \<not> map_less b a) xs"
    using sort by (simp_all add: sorts_maps_def xs_def)
  have "map (\<lambda>i. (mi_start (info_of (rp_world u) i), i)) (somes (X @ Y)) = map (\<lambda>i. (mi_start (info i), i)) (somes (X @ Y))"
    using infos by auto
  then have somes: "mset (somes xs) = mset (map (\<lambda>i. (mi_start (info i), i)) (somes (X @ Y)))"
    using mset_somes [OF xs(1)] unfolding somes_keyed by (simp only:)
  have count: "length (somes xs) = length (somes X) + length (somes Y)"
    using arg_cong [OF somes, of size] by simp
  have lens: "length os = length (somes X) + nulls X" "length ns = length (somes Y) + nulls Y"
    using r length_somes [of X] length_somes [of Y] by simp_all
  have "rp_total u = of_nat (length os + length ns) - of_nat (nulls X + nulls Y)"
    using r s by simp
  then have "rp_total u = of_nat (length (somes X) + length (somes Y))"
    by (simp add: lens)
  then have total: "unat (rp_total u) = length (somes xs)"
    using size lens by (simp add: count unat_of_nat take_bit_nat_eq_self del: of_nat_add)
  have take: "take (length (somes xs)) xs = map Some (somes xs)" and sorted: "sorted (map fst (somes xs))"
    using sorted_maps_somes [OF xs(2)] by blast+
  let ?v = "u\<lparr>rp_world := (rp_world u)\<lparr>w_maps := res\<rparr>\<rparr>"
  have "finish_reparse std_sort u = (Ok (), ?v)"
    using length_somes [of xs] unfolding finish_reparse_def save Let_def olds news xs_def [symmetric] total take drop_nulls [OF take]
    by (simp add: res_def comp_def)
  moreover have mset_res: "mset res = mset (somes (X @ Y))"
    using arg_cong [OF somes, of "image_mset snd"] by (simp add: res_def multiset.map_comp comp_def)
  then have "set res = set (somes X) \<union> set (somes Y)"
    by (metis set_append set_mset_mset somes_simps(4))
  moreover have "map (map_key \<circ> info) res = map (map_key \<circ> info) ns"
  proof (rule sorted_keys_unique)
    show "sorted_wrt (\<lambda>a b. fst a < fst b) (map (map_key \<circ> info) ns)"
      using ns by (simp add: ascending_def sorted_wrt_map map_key_def)
    have "fst x = mi_start (info (snd x))" if "x \<in> set (somes xs)" for x
      using that mset_eq_setD [OF somes] by auto
    then show "sorted (map fst (map (map_key \<circ> info) res))"
      using sorted by (simp add: res_def map_key_def comp_def cong: map_cong)
    show "mset (map (map_key \<circ> info) ns) = mset (map (map_key \<circ> info) res)"
      using r mset_res by simp
  qed
  ultimately show thesis
    using that [of ?v] by simp
qed

text \<open>The vector after \<^verbatim>\<open>Parse\<close>, and the state the loop starts in.\<close>

definition reparse_start :: "world \<Rightarrow> nat list \<Rightarrow> nat list \<Rightarrow> reparse" where
  "reparse_start t os ns =
     \<lparr>rp_world = t, rp_olds = map Some os, rp_news = map Some ns, rp_search = 0, rp_total = of_nat (length os + length ns)\<rparr>"

lemma Reparse_eq:
  assumes "Parse (entries, True) w = (Ok (), t)" and "w_maps t = w_maps w @ ns"
  shows "Reparse std_sort (entries, True) w =
    apsnd rp_world (bnd (new_loop ns 0) (\<lambda>_. finish_reparse std_sort) (reparse_start t (w_maps w) ns))"
  using assms by (simp add: Reparse_def reparse_start_def Let_def)

lemma Parse_state:
  assumes "list_all (live w) (w_maps w)" and "sorted_wrt (\<lambda>i j. mi_start (info_of w i) < mi_start (info_of w j)) (w_maps w)"
    and "sorted_wrt (\<lambda>x y. me_start x < me_start y) entries"
  obtains t ns where "Parse (entries, True) w = (Ok (), t)" and "w_maps t = w_maps w @ ns" and "length ns = length entries"
    and "map (map_key \<circ> info_of t) ns = map entry_key entries"
    and "\<And>i. i \<in> set (w_maps w) \<Longrightarrow> live t i \<and> info_of t i = info_of w i \<and> i \<notin> set ns"
    and "reparse_state (info_of t) (w_maps w) ns [] (reparse_start t (w_maps w) ns)"
proof -
  define t where "t = fold add_entry entries w"
  define ns where "ns = [length (w_infos w)..<length (w_infos w) + length entries]"
  obtain infos where t: "w_infos t = w_infos w @ map Some infos" "map map_key infos = map entry_key entries"
      "w_maps t = w_maps w @ ns"
    using fold_add_entry [of entries w] by (auto simp: t_def ns_def)
  have len: "length infos = length entries"
    using arg_cong [OF t(2), of length] by simp
  have olds: "live t i \<and> info_of t i = info_of w i \<and> i \<notin> set ns" if "i \<in> set (w_maps w)" for i
    using assms(1) that t(1) by (auto simp: list_all_iff ns_def live_def info_of_def nth_append)
  have "info_of t (length (w_infos w) + k) = infos ! k" if "k < length entries" for k
    using t(1) len that by (simp add: info_of_def nth_append)
  then have "map (info_of t) ns = infos"
    using len by (auto simp: ns_def intro!: nth_equalityI)
  then have keys: "map (map_key \<circ> info_of t) ns = map entry_key entries"
    using t(2) by (metis map_map)
  have "sorted_wrt (\<lambda>a b. fst a < fst b) (map (map_key \<circ> info_of t) ns)"
    using assms(3) by (simp add: keys sorted_wrt_map entry_key_def)
  then have "ascending (info_of t) ns"
    by (simp add: ascending_def sorted_wrt_map map_key_def)
  moreover have "ascending (info_of t) (w_maps w)"
    using assms(2) olds unfolding ascending_def by (auto intro: sorted_wrt_mono_rel [rotated])
  moreover have "sorted_wrt (<) (map (mi_start \<circ> info_of w) (w_maps w))"
    using assms(2) by (simp add: sorted_wrt_map)
  then have "distinct (w_maps w)"
    by (auto simp: strict_sorted_iff distinct_map)
  ultimately have "reparse_state (info_of t) (w_maps w) ns [] (reparse_start t (w_maps w) ns)"
    using olds by (auto simp: reparse_state_def reparse_start_def ns_def)
  then show thesis
    using that [of t ns] t(3) keys olds by (simp add: Parse_def t_def [symmetric] ns_def)
qed


text \<open>A sorting function with the properties of \<^verbatim>\<open>std::sort\<close>.\<close>

definition map_sort :: "(u64 \<times> nat) option list \<Rightarrow> (u64 \<times> nat) option list" where
  "map_sort xs = map Some (sort_key fst (somes xs)) @ replicate (nulls xs) None"

lemma map_sort_sorts: "sorts_maps map_sort"
proof -
  have "mset (map_sort xs) = mset xs" for xs
    by (induction xs) (auto simp: map_sort_def somes_def nulls_def)
  moreover have "sorted_wrt (\<lambda>a b. \<not> map_less b a) (map_sort xs)" for xs
  proof -
    have "sorted_wrt (\<lambda>a b. fst a \<le> fst b) (sort_key fst (somes xs))"
      by (metis sorted_map sorted_sort_key)
    then have "sorted_wrt (\<lambda>a b. \<not> map_less b a) (map Some (sort_key fst (somes xs)))"
      by (auto simp: sorted_wrt_map map_less_def not_less case_prod_beta intro: sorted_wrt_mono_rel [rotated])
    moreover have "sorted_wrt (\<lambda>a b. \<not> map_less b a) (replicate n None)" for n
      by (induction n) (auto simp: map_less_def)
    ultimately show ?thesis
      by (auto simp: map_sort_def sorted_wrt_append map_less_def)
  qed
  ultimately show ?thesis
    by (simp add: sorts_maps_def)
qed

definition example_entry :: "u64 \<Rightarrow> map_entry" where
  "example_entry a = \<lparr>me_start = a, me_end = a + 0x1000, me_flags = 5, me_pgoff = 0, me_name = ascii ''/lib.so''\<rparr>"


section \<open>When the last map has changed\<close>

lemma Parse_infos:
  assumes "live w i"
  obtains t n where "Parse (x # xs, True) w = (Ok (), t)" and "w_maps t = w_maps w @ n # [n + 1..<n + 1 + length xs]"
    and "info_of t i = info_of w i" and "mi_start (info_of t n) = me_start x"
proof -
  let ?t = "fold add_entry (x # xs) w" and ?n = "length (w_infos w)"
  obtain infos where t: "w_infos ?t = w_infos w @ map Some infos" "map map_key infos = map entry_key (x # xs)"
      "w_maps ?t = w_maps w @ [?n..<?n + length (x # xs)]"
    using fold_add_entry [of "x # xs" w] by blast
  then obtain info infos' where infos: "infos = info # infos'" "map_key info = entry_key x"
    by (cases infos) auto
  have "w_maps ?t = w_maps w @ ?n # [?n + 1..<?n + 1 + length xs]"
    using t(3) by (simp add: upt_conv_Cons del: upt_Suc)
  moreover have "info_of ?t i = info_of w i" "info_of ?t ?n = info"
    using assms t(1) infos by (simp_all add: info_of_def live_def nth_append)
  ultimately show thesis
    using that [of ?t ?n] infos(2) by (simp add: Parse_def map_key_def entry_key_def)
qed

text \<open>The only old map is moved away, and the search index stays.\<close>

lemma new_loop_exhausted:
  assumes "mi_start (info_of t i) < mi_start (info_of t n)"
  shows "new_loop (n # ns) 0 (reparse_start t [i] (n # ns)) = new_loop ns 1 (save_maps 1 (reparse_start t [i] (n # ns)))"
proof -
  have "old_loop t (info_of t n) [Some i] 0 = Exhausted 1"
    using assms by (auto simp: same_map_def)
  then show ?thesis
    by (simp add: reparse_start_def save_maps_def Let_def)
qed

text \<open>
  C34. Without the last old map among the new ones, the search index of \<^verbatim>\<open>Reparse\<close> stays where it is although the old maps behind it
  have been moved away. If the only map is replaced by one at a higher address, the old map is counted twice and the new map is lost: \<^verbatim>\<open>Reparse\<close>
  succeeds with no map at all. If it is replaced by two maps, a null pointer is used.
\<close>

theorem Reparse_loses_maps:
  assumes "w_maps w = [i]" and "live w i" and "mi_start (info_of w i) < me_start x"
  shows "(\<exists>t. Reparse std_sort ([x], True) w = (Ok (), t) \<and> w_maps t = []) \<and>
    fst (Reparse std_sort ([x, y], True) w) = Crash Undefined"
proof
  obtain t n where t: "Parse ([x], True) w = (Ok (), t)" "w_maps t = w_maps w @ [n]"
      "info_of t i = info_of w i" "mi_start (info_of t n) = me_start x"
    using Parse_infos [OF assms(2), of x "[]"] by auto
  then have "new_loop [n] 0 (reparse_start t [i] [n]) = (Ok (), save_maps 1 (reparse_start t [i] [n]))"
    using new_loop_exhausted [of t i n "[]"] assms(3) by simp
  then show "\<exists>t. Reparse std_sort ([x], True) w = (Ok (), t) \<and> w_maps t = []"
    using assms(1) by (simp add: Reparse_eq [OF t(1,2)] bnd_def finish_reparse_def save_maps_def reparse_start_def Let_def)
  obtain t n where t: "Parse ([x, y], True) w = (Ok (), t)" "w_maps t = w_maps w @ [n, n + 1]"
      "info_of t i = info_of w i" "mi_start (info_of t n) = me_start x"
    using Parse_infos [OF assms(2), of x "[y]"] by auto
  then have "new_loop [n, n + 1] 0 (reparse_start t [i] [n, n + 1]) =
      new_loop [n + 1] 1 (save_maps 1 (reparse_start t [i] [n, n + 1]))"
    using new_loop_exhausted [of t i n "[n + 1]"] assms(3) by simp
  then show "fst (Reparse std_sort ([x, y], True) w) = Crash Undefined"
    using assms(1) by (simp add: Reparse_eq [OF t(1,2)] bnd_def save_maps_def reparse_start_def Let_def)
qed

theorem Reparse_loses_maps_witness:
  "\<exists>t. Reparse map_sort ([example_entry 0x2000], True) example_world = (Ok (), t) \<and> w_maps t = []"
  using Reparse_loses_maps [of example_world 0 "example_entry 0x2000" map_sort]
  by (simp add: example_world_def live_def info_of_def MapInfo_def example_entry_def)

lemma sorted_pair:
  assumes "sorts_maps std_sort" and "fst a < fst b"
  shows "take 2 (std_sort [Some a, None, Some b]) = [Some a, Some b]" and "map_pointers (drop 2 (std_sort [Some a, None, Some b])) = []"
proof -
  let ?xs = "std_sort [Some a, None, Some b]"
  have xs: "mset ?xs = mset [Some a, None, Some b]" "sorted_wrt (\<lambda>a b. \<not> map_less b a) ?xs"
    using assms(1) by (simp_all only: sorts_maps_def)
  note m = mset_somes [OF xs(1)] and s = sorted_maps_somes [OF xs(2)]
  have "sort_key fst [a, b] = somes ?xs"
    using m s assms(2) by (intro sort_key_inj_key_eq) auto
  moreover have "sort_key fst [a, b] = [a, b]"
    using assms(2) by (simp add: less_imp_le)
  ultimately have somes: "somes ?xs = [a, b]"
    by simp
  show "take 2 ?xs = [Some a, Some b]" "map_pointers (drop 2 ?xs) = []"
    using s drop_nulls [of ?xs] by (simp_all add: somes numeral_2_eq_2)
qed

text \<open>
  C35. A map that is new after \<^verbatim>\<open>Reparse\<close> points to the map before it in the kernel's file as its previous map. That object is destroyed
  if an old map takes its place, and the pointer dangles: with one old map that is still there and a new one above it, the previous map of the new one
  is not alive, and reading it is undefined.
\<close>

theorem Reparse_dangling:
  assumes "sorts_maps std_sort" and "w_maps w = [i]" and "live w i" and "map_key (info_of w i) = entry_key x"
    and "me_start x < me_start y"
  shows "\<exists>t j. Reparse std_sort ([x, y], True) w = (Ok (), t) \<and> w_maps t = [i, j] \<and> fst (get_prev j t) = Crash Undefined"
proof -
  define m where "m = length (w_infos w)"
  define t where "t = add_entry y (add_entry x w)"
  obtain ix iy where t: "w_infos t = w_infos w @ [Some ix, Some iy]" "w_maps t = w_maps w @ [m, m + 1]"
      "map_key ix = entry_key x" "mi_prev iy = Some m" "mi_start iy = me_start y"
    by (simp add: t_def m_def add_entry_def push_map_def new_info_def Let_def map_back_def MapInfo_def map_key_def entry_key_def)
  have info: "info_of t i = info_of w i" "info_of t m = ix" "info_of t (m + 1) = iy" "i \<noteq> m"
    using assms(3) t(1) by (auto simp: info_of_def live_def nth_append m_def)
  define u where "u = (reparse_start t [i] [m, m + 1])\<lparr>rp_world := destroy_info m t, rp_news := [None, Some (m + 1)],
    rp_search := 1, rp_total := 2\<rparr>"
  have "same_map (info_of t m) (info_of t i)"
    using info t(3) assms(4) by (simp add: same_map_iff)
  then have loop: "new_loop [m, m + 1] 0 (reparse_start t [i] [m, m + 1]) = (Ok (), u)"
    by (simp add: reparse_start_def u_def Let_def save_maps_def)
  have keyed: "map (keyed (destroy_info m t)) [Some i, None, Some (m + 1)] =
      [Some (mi_start (info_of w i), i), None, Some (me_start y, m + 1)]"
    using info t(5) by (simp add: keyed_def destroy_info_def info_of_def)
  have "mi_start (info_of w i) < me_start y"
    using assms(4,5) by (simp add: map_key_def entry_key_def)
  then have "take 2 (std_sort (map (keyed (destroy_info m t)) [Some i, None, Some (m + 1)])) =
      [Some (mi_start (info_of w i), i), Some (me_start y, m + 1)] \<and>
      map_pointers (drop 2 (std_sort (map (keyed (destroy_info m t)) [Some i, None, Some (m + 1)]))) = []"
    unfolding keyed by (intro conjI sorted_pair [OF assms(1)]) simp_all
  moreover have "length (std_sort xs) = length xs" for xs
    using assms(1) unfolding sorts_maps_def by (metis size_mset)
  ultimately have "finish_reparse std_sort u = (Ok (), u\<lparr>rp_world := (destroy_info m t)\<lparr>w_maps := [i, m + 1]\<rparr>\<rparr>)"
    by (simp add: finish_reparse_def u_def reparse_start_def save_maps_def Let_def)
  moreover have "Parse ([x, y], True) w = (Ok (), t)"
    by (simp add: Parse_def t_def)
  ultimately have "Reparse std_sort ([x, y], True) w = (Ok (), (destroy_info m t)\<lparr>w_maps := [i, m + 1]\<rparr>)"
    using loop assms(2) t(2) by (simp add: Reparse_eq bnd_def u_def)
  moreover have "fst (get_prev (m + 1) ((destroy_info m t)\<lparr>w_maps := [i, m + 1]\<rparr>)) = Crash Undefined"
    using t(1,4) by (simp add: get_prev_def get_info_def live_def info_of_def destroy_info_def bnd_def m_def nth_append)
  ultimately show ?thesis
    by auto
qed

theorem Reparse_dangling_witness:
  "\<exists>t j. Reparse map_sort ([example_entry 0x1000, example_entry 0x2000], True) example_world = (Ok (), t) \<and>
     w_maps t = [0, j] \<and> fst (get_prev j t) = Crash Undefined"
  by (rule Reparse_dangling [OF map_sort_sorts])
    (simp_all add: example_world_def live_def info_of_def MapInfo_def map_key_def entry_key_def example_entry_def starts_with_def
      ascii_def)

end
