(* ===== verification/Global_Variables.thy ===== *)
theory Global_Variables
  imports Process_Maps
begin

text \<open>
  \<^verbatim>\<open>Global.h\<close>, \<^verbatim>\<open>JitDebug.h\<close>, \<^verbatim>\<open>DexFiles.h\<close>, \<^verbatim>\<open>DexFile.h\<close> and their implementations: global variables of the runtime that
  head linked lists of ELF files of compiled code and of dex files. The lists are in the memory of the process, and the
  result is that a list that is a cycle is followed for ever.
\<close>

unbundle bit_operations_syntax

section \<open>Global\<close>

text \<open>\<^verbatim>\<open>memory_\<close> is the memory of the process; the pointer is not null in any object that is used.\<close>

record global_object =
  g_arch :: ArchEnum
  g_memory :: memory
  g_search_libs :: "u8 list list"

definition on_world :: "'r world_prog \<Rightarrow> ('g \<times> world, 'r) prog" where
  "on_world p = on_member snd (\<lambda>w (g, _). (g, w)) p"

definition on_object :: "('g, 'r) prog \<Rightarrow> ('g \<times> world, 'r) prog" where
  "on_object p = on_member fst (\<lambda>g (_, w). (g, w)) p"

text \<open>\<^verbatim>\<open>SetArch\<close> with the \<^verbatim>\<open>ProcessArch\<close> of the class.\<close>

definition SetArch :: "('g global_object_scheme, unit) prog \<Rightarrow> ArchEnum \<Rightarrow> ('g global_object_scheme, unit) prog" where
  "SetArch process_arch arch =
     bnd (gets g_arch) (\<lambda>old.
     if old = ARCH_UNKNOWN then bnd (modify (\<lambda>g. g\<lparr>g_arch := arch\<rparr>)) (\<lambda>_. process_arch) else ret ())"

text \<open>\<^verbatim>\<open>basename\<close> of \<^verbatim>\<open>string.h\<close>, of the C string of a name.\<close>

definition basename :: "u8 list \<Rightarrow> u8 list" where
  "basename name = rev (takeWhile (\<lambda>c. c \<noteq> 0x2f) (rev (takeWhile (\<lambda>c. c \<noteq> 0) name)))"

definition GetVariableOffset :: "env \<Rightarrow> file_system \<Rightarrow> nat \<Rightarrow> u8 list \<Rightarrow> ('g global_object_scheme \<times> world, u64) prog" where
  "GetVariableOffset e fs i variable =
     bnd (gets fst) (\<lambda>g.
     bnd (on_world (get_info i)) (\<lambda>info.
     if g_search_libs g \<noteq> [] \<and> basename (mi_name info) \<notin> set (g_search_libs g) then ret 0
     else
       bnd (on_world (MapInfo_GetElf e fs (Some (g_memory g)) (g_arch g) i)) (\<lambda>k.
       bnd (attempt (on_world (read_elf k (GetGlobalVariable e variable)))) (\<lambda>ptr.
       case ptr of
         None \<Rightarrow> ret 0
       | Some ptr \<Rightarrow> if ptr \<noteq> 0 then ret (ptr + mi_start info) else ret 0))))"

text \<open>
  The first part of a round of the loop: the new value of \<^verbatim>\<open>map_start\<close>, or \<open>None\<close> for the \<^verbatim>\<open>break\<close>.
  \<open>read_data\<close> is the virtual \<^verbatim>\<open>ReadVariableData\<close>.
\<close>

definition check_map ::
    "env \<Rightarrow> file_system \<Rightarrow> (u64 \<Rightarrow> ('g global_object_scheme, bool) prog) \<Rightarrow> u8 list \<Rightarrow> nat option \<Rightarrow> map_info \<Rightarrow>
     ('g global_object_scheme \<times> world, nat option option) prog" where
  "check_map e fs read_data variable map_start info =
     (case map_start of
        None \<Rightarrow> ret (Some None)
      | Some j \<Rightarrow>
          bnd (on_world (get_info j)) (\<lambda>start.
          if mi_name start \<noteq> mi_name info then ret (Some None)
          else if mi_offset info \<noteq> 0 \<and> mi_flags info AND (PROT_READ OR PROT_WRITE) = PROT_READ OR PROT_WRITE then
            bnd (GetVariableOffset e fs j variable) (\<lambda>ptr.
            bnd (if ptr \<noteq> 0 then on_object (read_data ptr) else ret False) (\<lambda>found.
            ret (if found then None else Some None)))
          else ret (Some (Some j))))"

fun FindAndReadVariable_loop ::
    "env \<Rightarrow> file_system \<Rightarrow> (u64 \<Rightarrow> ('g global_object_scheme, bool) prog) \<Rightarrow> u8 list \<Rightarrow> nat option \<Rightarrow> nat list \<Rightarrow>
     ('g global_object_scheme \<times> world, unit) prog" where
  "FindAndReadVariable_loop e fs read_data variable map_start [] = ret ()"
| "FindAndReadVariable_loop e fs read_data variable map_start (i # maps) =
     bnd (on_world (get_info i)) (\<lambda>info.
     bnd (check_map e fs read_data variable map_start info) (\<lambda>start.
     case start of
       None \<Rightarrow> ret ()
     | Some start \<Rightarrow>
         FindAndReadVariable_loop e fs read_data variable
           (if start = None \<and> mi_flags info AND PROT_READ \<noteq> 0 \<and> mi_offset info = 0 \<and> mi_name info \<noteq> [] then Some i else start)
           maps))"

definition FindAndReadVariable ::
    "env \<Rightarrow> file_system \<Rightarrow> (u64 \<Rightarrow> ('g global_object_scheme, bool) prog) \<Rightarrow> u8 list \<Rightarrow> ('g global_object_scheme \<times> world, unit) prog" where
  "FindAndReadVariable e fs read_data variable =
     bnd (gets (w_maps \<circ> snd)) (FindAndReadVariable_loop e fs read_data variable None)"

section \<open>JitDebug\<close>

text \<open>\<^verbatim>\<open>elf_list_\<close> holds pointers into the heap of ELF objects.\<close>

record jit_debug = global_object +
  jit_entry_addr :: u64
  jit_initialized :: bool
  jit_elfs :: "nat list"

definition JitDebug :: "memory \<Rightarrow> u8 list list \<Rightarrow> jit_debug" where
  "JitDebug mem libs =
     \<lparr>g_arch = ARCH_UNKNOWN, g_memory = mem, g_search_libs = libs, jit_entry_addr = 0, jit_initialized = False, jit_elfs = []\<rparr>"

text \<open>The structures are read as a whole; \<open>Some bs\<close> are the bytes of one.\<close>

definition ReadDescriptor32 :: "memory \<Rightarrow> u64 \<Rightarrow> u64" where
  "ReadDescriptor32 mem addr =
     (case ReadFully mem addr 16 of
        None \<Rightarrow> 0
      | Some bs \<Rightarrow>
          let version = le_word (take 4 bs) :: u32; first_entry = le_word (take 4 (drop 12 bs)) :: u32 in
          if version \<noteq> 1 \<or> first_entry = 0 then 0 else ucast first_entry)"

definition ReadDescriptor64 :: "memory \<Rightarrow> u64 \<Rightarrow> u64" where
  "ReadDescriptor64 mem addr =
     (case ReadFully mem addr 24 of
        None \<Rightarrow> 0
      | Some bs \<Rightarrow>
          let version = le_word (take 4 bs) :: u32; first_entry = le_word (take 8 (drop 16 bs)) :: u64 in
          if version \<noteq> 1 \<or> first_entry = 0 then 0 else first_entry)"

text \<open>An entry: \<^verbatim>\<open>next\<close>, \<^verbatim>\<open>symfile_addr\<close> and \<^verbatim>\<open>symfile_size\<close>.\<close>

definition ReadEntry32Pack :: "memory \<Rightarrow> u64 \<Rightarrow> (u64 \<times> u64 \<times> u64) option" where
  "ReadEntry32Pack mem addr =
     map_option (\<lambda>bs. (ucast (le_word (take 4 bs) :: u32), ucast (le_word (take 4 (drop 8 bs)) :: u32), le_word (take 8 (drop 12 bs))))
       (ReadFully mem addr 20)"

definition ReadEntry32Pad :: "memory \<Rightarrow> u64 \<Rightarrow> (u64 \<times> u64 \<times> u64) option" where
  "ReadEntry32Pad mem addr =
     map_option (\<lambda>bs. (ucast (le_word (take 4 bs) :: u32), ucast (le_word (take 4 (drop 8 bs)) :: u32), le_word (take 8 (drop 16 bs))))
       (ReadFully mem addr 24)"

definition JitDebug_ReadEntry64 :: "memory \<Rightarrow> u64 \<Rightarrow> (u64 \<times> u64 \<times> u64) option" where
  "JitDebug_ReadEntry64 mem addr =
     map_option (\<lambda>bs. (le_word (take 8 bs), le_word (take 8 (drop 16 bs)), le_word (take 8 (drop 24 bs)))) (ReadFully mem addr 32)"

text \<open>
  The pointers to member functions depend on the architecture only: \<^verbatim>\<open>ProcessArch\<close> sets them, and without it they are
  null, which is \<open>None\<close>.
\<close>

definition read_descriptor_func :: "ArchEnum \<Rightarrow> (memory \<Rightarrow> u64 \<Rightarrow> u64) option" where
  "read_descriptor_func arch =
     (if arch \<in> {ARCH_X86, ARCH_ARM, ARCH_MIPS} then Some ReadDescriptor32
      else if arch \<in> {ARCH_ARM64, ARCH_X86_64, ARCH_MIPS64} then Some ReadDescriptor64
      else None)"

definition read_entry_func :: "ArchEnum \<Rightarrow> (memory \<Rightarrow> u64 \<Rightarrow> (u64 \<times> u64 \<times> u64) option) option" where
  "read_entry_func arch =
     (if arch = ARCH_X86 then Some ReadEntry32Pack
      else if arch \<in> {ARCH_ARM, ARCH_MIPS} then Some ReadEntry32Pad
      else if arch \<in> {ARCH_ARM64, ARCH_X86_64, ARCH_MIPS64} then Some JitDebug_ReadEntry64
      else None)"

definition ProcessArch :: "('g global_object_scheme, unit) prog" where
  "ProcessArch = bnd (gets g_arch) (\<lambda>arch. if arch = ARCH_UNKNOWN then crash CheckFailed else ret ())"

definition JitDebug_ReadVariableData :: "u64 \<Rightarrow> (jit_debug, bool) prog" where
  "JitDebug_ReadVariableData ptr = (\<lambda>j.
     case read_descriptor_func (g_arch j) of
       None \<Rightarrow> (Crash Undefined, j)
     | Some read \<Rightarrow> let entry = read (g_memory j) ptr in (Ok (entry \<noteq> 0), j\<lparr>jit_entry_addr := entry\<rparr>))"

definition JitDebug_Init :: "env \<Rightarrow> file_system \<Rightarrow> (jit_debug \<times> world, unit) prog" where
  "JitDebug_Init e fs =
     bnd (gets (jit_initialized \<circ> fst)) (\<lambda>done_before.
     if done_before then ret ()
     else
       bnd (on_object (modify (\<lambda>j. j\<lparr>jit_initialized := True\<rparr>))) (\<lambda>_.
       FindAndReadVariable e fs JitDebug_ReadVariableData (ascii ''__jit_debug_descriptor'')))"

text \<open>The first object of the list that knows the pc.\<close>

fun search_elfs :: "env \<Rightarrow> u64 \<Rightarrow> nat list \<Rightarrow> nat world_prog" where
  "search_elfs e pc [] = fail_with id"
| "search_elfs e pc (k # ks) = bnd (on_elf k (Elf_IsValidPc e pc)) (\<lambda>valid. if valid then ret k else search_elfs e pc ks)"

text \<open>
  The object of an entry, and what remains of the list. If the entry cannot be read, the address and the size are
  those of uninitialised variables.
\<close>

definition read_jit_elf :: "env \<Rightarrow> (jit_debug \<times> world, elf_object) prog" where
  "read_jit_elf e = (\<lambda>(j, w).
     case read_entry_func (g_arch j) of
       None \<Rightarrow> (Crash Undefined, (j, w))
     | Some read \<Rightarrow>
         case (case read (g_memory j) (jit_entry_addr j) of None \<Rightarrow> (0, env_uninit e 0, env_uninit e 1) | Some x \<Rightarrow> x) of
           (next_entry, start, sz) \<Rightarrow>
             let range = \<lparr>range_memory = g_memory j, range_begin = start, range_length = sz, range_offset = 0\<rparr> in
             case attempt (Elf_Init e) (Elf (Some (MemoryRange_Read range))) of
               (x, s) \<Rightarrow>
                 ((case x of Crash c \<Rightarrow> Crash c | _ \<Rightarrow> Ok s), (j\<lparr>jit_entry_addr := next_entry\<rparr>, w)))"

text \<open>A failure is \<^verbatim>\<open>nullptr\<close>.\<close>

fun JitDebug_loop :: "nat \<Rightarrow> env \<Rightarrow> u64 \<Rightarrow> (jit_debug \<times> world, nat) prog" where
  "JitDebug_loop 0 e pc = crash OutOfFuel"
| "JitDebug_loop (Suc n) e pc =
     bnd (gets (jit_entry_addr \<circ> fst)) (\<lambda>entry.
     if entry = 0 then fail_with id
     else
       bnd (read_jit_elf e) (\<lambda>s.
       if \<not> obj_valid s then fail_with (apfst (\<lambda>j. j\<lparr>jit_entry_addr := 0\<rparr>))
       else
         bnd (gets (length \<circ> w_elfs \<circ> snd)) (\<lambda>k.
         bnd (modify (\<lambda>(j, w). (j\<lparr>jit_elfs := jit_elfs j @ [k]\<rparr>, w\<lparr>w_elfs := w_elfs w @ [s]\<rparr>))) (\<lambda>_.
         bnd (on_world (on_elf k (Elf_IsValidPc e pc))) (\<lambda>valid.
         if valid then ret k else JitDebug_loop n e pc)))))"

definition JitDebug_GetElf :: "env \<Rightarrow> file_system \<Rightarrow> u64 \<Rightarrow> (jit_debug \<times> world, nat) prog" where
  "JitDebug_GetElf e fs pc =
     bnd (JitDebug_Init e fs) (\<lambda>_.
     bnd (gets (jit_elfs \<circ> fst)) (\<lambda>ks.
     or_else (on_world (search_elfs e pc ks)) (JitDebug_loop (env_fuel e) e pc)))"

section \<open>DexFile\<close>

text \<open>
  The library \<^verbatim>\<open>libdexfile\<close> is a parameter: opening a part of a file, one try to open a buffer of a size, which delivers
  a dex file, an error or the size that is needed, and the method at an offset with its own offset and name.
\<close>

datatype 'd dex_open = Dex_Opened 'd | Dex_Error | Dex_Size u64

record 'd dex_library =
  dl_from_file :: "u64 \<Rightarrow> u8 list \<Rightarrow> 'd option"
  dl_from_memory :: "u8 list \<Rightarrow> u64 \<Rightarrow> u8 list \<Rightarrow> 'd dex_open"
  dl_method :: "'d \<Rightarrow> u64 \<Rightarrow> u64 \<times> u8 list"

definition DexFileFromFile_Create :: "'d dex_library \<Rightarrow> u64 \<Rightarrow> u8 list \<Rightarrow> 'd option" where
  "DexFileFromFile_Create dl offset name = dl_from_file dl offset name"

text \<open>\<open>backing\<close> is the buffer, whose size is \<^verbatim>\<open>size\<close>; a size above the limit of a vector raises an exception.\<close>

fun DexFileFromMemory_loop :: "nat \<Rightarrow> 'd dex_library \<Rightarrow> u64 \<Rightarrow> memory \<Rightarrow> u8 list \<Rightarrow> u8 list \<Rightarrow> u64 \<Rightarrow> 'd outcome" where
  "DexFileFromMemory_loop 0 dl offset mem name backing sz = Crash OutOfFuel"
| "DexFileFromMemory_loop (Suc n) dl offset mem name backing sz =
     (case dl_from_memory dl backing sz name of
        Dex_Opened d \<Rightarrow> Ok d
      | Dex_Error \<Rightarrow> Fail
      | Dex_Size sz' \<Rightarrow>
          if sz' > 0x7fffffffffffffff then Crash CheckFailed
          else
            case ReadFully mem offset (unat sz') of
              None \<Rightarrow> Fail
            | Some bs \<Rightarrow> DexFileFromMemory_loop n dl offset mem name bs sz')"

definition DexFileFromMemory_Create :: "env \<Rightarrow> 'd dex_library \<Rightarrow> u64 \<Rightarrow> memory \<Rightarrow> u8 list \<Rightarrow> 'd outcome" where
  "DexFileFromMemory_Create e dl offset mem name = DexFileFromMemory_loop (env_fuel e) dl offset mem name [] 0"

definition DexFile_Create :: "env \<Rightarrow> 'd dex_library \<Rightarrow> u64 \<Rightarrow> memory \<Rightarrow> map_info \<Rightarrow> 'd outcome" where
  "DexFile_Create e dl offset mem info =
     (case if mi_name info \<noteq> [] then DexFileFromFile_Create dl (offset - mi_start info + mi_offset info) (mi_name info) else None of
        Some d \<Rightarrow> Ok d
      | None \<Rightarrow> DexFileFromMemory_Create e dl offset mem (mi_name info))"

definition DexFile_GetMethodInformation :: "'d dex_library \<Rightarrow> 'd \<Rightarrow> u64 \<Rightarrow> (u8 list \<times> u64) option" where
  "DexFile_GetMethodInformation dl d dex_offset =
     (case dl_method dl d dex_offset of (offset, name) \<Rightarrow> if offset = 0 then None else Some (name, dex_offset - offset))"

section \<open>DexFiles\<close>

record 'd dex_files = global_object +
  dex_entry_addr :: u64
  dex_initialized :: bool
  dex_map :: "(u64 \<times> 'd option) list"
  dex_addrs :: "u64 list"

definition DexFiles :: "memory \<Rightarrow> u8 list list \<Rightarrow> 'd dex_files" where
  "DexFiles mem libs =
     \<lparr>g_arch = ARCH_UNKNOWN, g_memory = mem, g_search_libs = libs, dex_entry_addr = 0, dex_initialized = False, dex_map = [],
      dex_addrs = []\<rparr>"

definition ReadEntryPtr32 :: "memory \<Rightarrow> u64 \<Rightarrow> u64" where
  "ReadEntryPtr32 mem addr = (case ReadFully mem (addr + 12) 4 of None \<Rightarrow> 0 | Some bs \<Rightarrow> ucast (le_word bs :: u32))"

definition ReadEntryPtr64 :: "memory \<Rightarrow> u64 \<Rightarrow> u64" where
  "ReadEntryPtr64 mem addr = (case ReadFully mem (addr + 16) 8 of None \<Rightarrow> 0 | Some bs \<Rightarrow> le_word bs)"

text \<open>\<^verbatim>\<open>next\<close> and \<^verbatim>\<open>dex_file\<close> of an entry.\<close>

definition DEXFileEntry32 :: "memory \<Rightarrow> u64 \<Rightarrow> (u64 \<times> u64) option" where
  "DEXFileEntry32 mem addr =
     map_option (\<lambda>bs. (ucast (le_word (take 4 bs) :: u32), ucast (le_word (take 4 (drop 8 bs)) :: u32))) (ReadFully mem addr 12)"

definition DEXFileEntry64 :: "memory \<Rightarrow> u64 \<Rightarrow> (u64 \<times> u64) option" where
  "DEXFileEntry64 mem addr = map_option (\<lambda>bs. (le_word (take 8 bs), le_word (take 8 (drop 16 bs)))) (ReadFully mem addr 24)"

definition is_32_bit :: "ArchEnum \<Rightarrow> bool" where
  "is_32_bit arch \<longleftrightarrow> arch \<in> {ARCH_ARM, ARCH_MIPS, ARCH_X86}"

definition ReadEntry :: "(memory \<Rightarrow> u64 \<Rightarrow> (u64 \<times> u64) option) \<Rightarrow> ('d dex_files, unit) prog" where
  "ReadEntry read_entry = (\<lambda>d.
     case read_entry (g_memory d) (dex_entry_addr d) of
       None \<Rightarrow> (Fail, d\<lparr>dex_entry_addr := 0\<rparr>)
     | Some (next_entry, dex_file) \<Rightarrow>
         if dex_file = 0 then (Fail, d\<lparr>dex_entry_addr := 0\<rparr>)
         else (Ok (), d\<lparr>dex_addrs := dex_addrs d @ [dex_file], dex_entry_addr := next_entry\<rparr>))"

definition ReadEntry32 :: "('d dex_files, unit) prog" where
  "ReadEntry32 = ReadEntry DEXFileEntry32"

definition ReadEntry64 :: "('d dex_files, unit) prog" where
  "ReadEntry64 = ReadEntry DEXFileEntry64"

definition DexFiles_ReadVariableData :: "u64 \<Rightarrow> ('d dex_files, bool) prog" where
  "DexFiles_ReadVariableData ptr = (\<lambda>d.
     if g_arch d = ARCH_UNKNOWN then (Crash Undefined, d)
     else
       let entry = (if is_32_bit (g_arch d) then ReadEntryPtr32 else ReadEntryPtr64) (g_memory d) ptr in
       (Ok (entry \<noteq> 0), d\<lparr>dex_entry_addr := entry\<rparr>))"

definition DexFiles_Init :: "env \<Rightarrow> file_system \<Rightarrow> ('d dex_files \<times> world, unit) prog" where
  "DexFiles_Init e fs =
     bnd (gets (dex_initialized \<circ> fst)) (\<lambda>done_before.
     if done_before then ret ()
     else
       bnd (on_object (modify (\<lambda>d. d\<lparr>dex_initialized := True, dex_entry_addr := 0\<rparr>))) (\<lambda>_.
       FindAndReadVariable e fs DexFiles_ReadVariableData (ascii ''__dex_debug_descriptor'')))"

text \<open>A dex file that could not be opened is remembered as \<open>None\<close>.\<close>

definition GetDexFile :: "env \<Rightarrow> 'd dex_library \<Rightarrow> u64 \<Rightarrow> map_info \<Rightarrow> ('d dex_files, 'd option) prog" where
  "GetDexFile e dl offset info = (\<lambda>d.
     case map_of (dex_map d) offset of
       Some known \<Rightarrow> (Ok known, d)
     | None \<Rightarrow>
         case DexFile_Create e dl offset (g_memory d) info of
           Crash c \<Rightarrow> (Crash c, d)
         | Fail \<Rightarrow> (Ok None, d\<lparr>dex_map := (offset, None) # dex_map d\<rparr>)
         | Ok opened \<Rightarrow> (Ok (Some opened), d\<lparr>dex_map := (offset, Some opened) # dex_map d\<rparr>))"

definition GetAddr :: "nat \<Rightarrow> ('d dex_files, u64) prog" where
  "GetAddr index = (\<lambda>d.
     if index < length (dex_addrs d) then (Ok (dex_addrs d ! index), d)
     else if dex_entry_addr d = 0 then (Fail, d)
     else if g_arch d = ARCH_UNKNOWN then (Crash Undefined, d)
     else bnd (if is_32_bit (g_arch d) then ReadEntry32 else ReadEntry64) (\<lambda>_. gets (last \<circ> dex_addrs)) d)"

text \<open>The method, or \<open>None\<close> if the variables of the caller are left alone.\<close>

fun GetMethodInformation_loop ::
    "nat \<Rightarrow> env \<Rightarrow> 'd dex_library \<Rightarrow> map_info \<Rightarrow> u64 \<Rightarrow> nat \<Rightarrow> ('d dex_files, (u8 list \<times> u64) option) prog" where
  "GetMethodInformation_loop 0 e dl info dpc index = crash OutOfFuel"
| "GetMethodInformation_loop (Suc n) e dl info dpc index =
     bnd (attempt (GetAddr index)) (\<lambda>addr.
     case addr of
       None \<Rightarrow> ret None
     | Some addr \<Rightarrow>
         if addr < mi_start info \<or> addr \<ge> mi_end info then GetMethodInformation_loop n e dl info dpc (index + 1)
         else
           bnd (GetDexFile e dl addr info) (\<lambda>d.
           case (case d of None \<Rightarrow> None | Some d \<Rightarrow> DexFile_GetMethodInformation dl d (dpc - addr)) of
             Some found \<Rightarrow> ret (Some found)
           | None \<Rightarrow> GetMethodInformation_loop n e dl info dpc (index + 1)))"

definition DexFiles_GetMethodInformation ::
    "env \<Rightarrow> file_system \<Rightarrow> 'd dex_library \<Rightarrow> nat \<Rightarrow> u64 \<Rightarrow> ('d dex_files \<times> world, (u8 list \<times> u64) option) prog" where
  "DexFiles_GetMethodInformation e fs dl i dpc =
     bnd (DexFiles_Init e fs) (\<lambda>_.
     bnd (on_world (get_info i)) (\<lambda>info.
     on_object (GetMethodInformation_loop (env_fuel e) e dl info dpc 0)))"

section \<open>The list of dex files\<close>

definition dex_entry :: "'d dex_files \<Rightarrow> u64 \<Rightarrow> (u64 \<times> u64) option" where
  "dex_entry d = (if is_32_bit (g_arch d) then DEXFileEntry32 else DEXFileEntry64) (g_memory d)"

text \<open>A linked list with the given dex files.\<close>

fun dex_chain :: "(u64 \<Rightarrow> (u64 \<times> u64) option) \<Rightarrow> u64 \<Rightarrow> u64 list \<Rightarrow> bool" where
  "dex_chain entry a [] \<longleftrightarrow> a = 0 \<or> entry a = None \<or> (\<exists>b. entry a = Some (b, 0))"
| "dex_chain entry a (x # xs) \<longleftrightarrow> a \<noteq> 0 \<and> x \<noteq> 0 \<and> (\<exists>b. entry a = Some (b, x) \<and> dex_chain entry b xs)"

text \<open>The dex files that have been read and those that are still in the list.\<close>

definition dex_listed :: "u64 list \<Rightarrow> 'd dex_files \<Rightarrow> bool" where
  "dex_listed l d \<longleftrightarrow>
     dex_initialized d \<and> g_arch d \<noteq> ARCH_UNKNOWN \<and>
     (\<exists>xs. dex_chain (dex_entry d) (dex_entry_addr d) xs \<and> l = dex_addrs d @ xs)"

text \<open>A dex file that is remembered is the one that would be opened for the map.\<close>

definition dex_consistent :: "env \<Rightarrow> 'd dex_library \<Rightarrow> map_info \<Rightarrow> 'd dex_files \<Rightarrow> bool" where
  "dex_consistent e dl info d \<longleftrightarrow>
     (\<forall>a known. mi_start info \<le> a \<and> a < mi_end info \<and> map_of (dex_map d) a = Some known \<longrightarrow>
        DexFile_Create e dl a (g_memory d) info = (case known of None \<Rightarrow> Fail | Some x \<Rightarrow> Ok x))"

text \<open>The reference: the method in the first dex file of the list that is in the map and knows it.\<close>

definition method_in :: "env \<Rightarrow> 'd dex_library \<Rightarrow> memory \<Rightarrow> map_info \<Rightarrow> u64 \<Rightarrow> u64 \<Rightarrow> (u8 list \<times> u64) option" where
  "method_in e dl mem info dpc a =
     (if a < mi_start info \<or> a \<ge> mi_end info then None
      else case DexFile_Create e dl a mem info of Ok d \<Rightarrow> DexFile_GetMethodInformation dl d (dpc - a) | _ \<Rightarrow> None)"

fun first_method :: "(u64 \<Rightarrow> (u8 list \<times> u64) option) \<Rightarrow> u64 list \<Rightarrow> (u8 list \<times> u64) option" where
  "first_method f [] = None"
| "first_method f (a # l) = (case f a of None \<Rightarrow> first_method f l | Some x \<Rightarrow> Some x)"

lemma dex_entry_updates [simp]:
  "dex_entry (d\<lparr>dex_entry_addr := v\<rparr>) = dex_entry d"
  "dex_entry (d\<lparr>dex_addrs := as\<rparr>) = dex_entry d"
  "dex_entry (d\<lparr>dex_map := m\<rparr>) = dex_entry d"
  by (simp_all add: dex_entry_def)

lemma GetAddr_listed:
  assumes "dex_listed l d" and "index \<le> length (dex_addrs d)"
  shows "if index < length l
    then \<exists>d'. GetAddr index d = (Ok (l ! index), d') \<and> dex_listed l d' \<and> index < length (dex_addrs d') \<and>
      dex_map d' = dex_map d \<and> g_memory d' = g_memory d
    else \<exists>d'. GetAddr index d = (Fail, d') \<and> dex_listed l d' \<and> dex_map d' = dex_map d \<and> g_memory d' = g_memory d"
proof -
  obtain xs where xs: "g_arch d \<noteq> ARCH_UNKNOWN" "dex_chain (dex_entry d) (dex_entry_addr d) xs" "l = dex_addrs d @ xs"
      "dex_initialized d"
    using assms(1) by (auto simp: dex_listed_def)
  have read: "GetAddr index d = bnd (ReadEntry (\<lambda>_. dex_entry d)) (\<lambda>_. gets (last \<circ> dex_addrs)) d"
    if "\<not> index < length (dex_addrs d)" "dex_entry_addr d \<noteq> 0"
    using that xs(1) by (simp add: GetAddr_def ReadEntry32_def ReadEntry64_def ReadEntry_def dex_entry_def bnd_def)
  show ?thesis
  proof (cases "index < length (dex_addrs d)")
    case True
    then show ?thesis
      using assms(1) xs(3) by (auto simp: GetAddr_def nth_append)
  next
    case False
    then have index: "index = length (dex_addrs d)"
      using assms(2) by simp
    show ?thesis
    proof (cases xs)
      case Nil
      then show ?thesis
        using xs index read [OF False]
        by (auto simp: GetAddr_def ReadEntry_def bnd_def dex_listed_def split: option.split)
    next
      case (Cons x ys)
      then show ?thesis
        using xs index read [OF False]
        by (auto simp: ReadEntry_def bnd_def gets_def dex_listed_def nth_append intro!: exI [of _ ys])
    qed
  qed
qed

lemma GetDexFile_consistent:
  assumes "dex_consistent e dl info d" and "dex_listed l d" and "mi_start info \<le> a" and "a < mi_end info"
    and "\<And>c. DexFile_Create e dl a (g_memory d) info \<noteq> Crash c"
  obtains d' where "GetDexFile e dl a info d = (Ok (case DexFile_Create e dl a (g_memory d) info of Ok x \<Rightarrow> Some x | _ \<Rightarrow> None), d')"
    and "dex_consistent e dl info d'" and "dex_listed l d'" and "dex_addrs d' = dex_addrs d" and "g_memory d' = g_memory d"
proof (cases "map_of (dex_map d) a")
  case (Some known)
  then have "DexFile_Create e dl a (g_memory d) info = (case known of None \<Rightarrow> Fail | Some x \<Rightarrow> Ok x)"
    using assms(1,3,4) by (auto simp: dex_consistent_def)
  then show thesis
    using Some assms(1,2) by (intro that [of d]) (auto simp: GetDexFile_def split: option.splits)
next
  case None
  let ?x = "case DexFile_Create e dl a (g_memory d) info of Ok x \<Rightarrow> Some x | _ \<Rightarrow> None"
  show thesis
  proof (rule that [of "d\<lparr>dex_map := (a, ?x) # dex_map d\<rparr>"])
    show "GetDexFile e dl a info d = (Ok ?x, d\<lparr>dex_map := (a, ?x) # dex_map d\<rparr>)"
      using None assms(5) by (cases "DexFile_Create e dl a (g_memory d) info") (auto simp: GetDexFile_def)
    show "dex_consistent e dl info (d\<lparr>dex_map := (a, ?x) # dex_map d\<rparr>)"
      using assms(1,5) by (cases "DexFile_Create e dl a (g_memory d) info") (auto simp: dex_consistent_def)
  qed (use assms(2) in \<open>auto simp: dex_listed_def\<close>)
qed

lemma GetMethodInformation_loop_first:
  assumes "dex_listed l d" and "dex_consistent e dl info d" and "index \<le> length (dex_addrs d)" and "length l < n + index"
    and "\<And>a c. mi_start info \<le> a \<Longrightarrow> a < mi_end info \<Longrightarrow> DexFile_Create e dl a (g_memory d) info \<noteq> Crash c"
  shows "\<exists>d'. GetMethodInformation_loop n e dl info dpc index d =
      (Ok (first_method (method_in e dl (g_memory d) info dpc) (drop index l)), d') \<and>
    dex_listed l d' \<and> dex_consistent e dl info d' \<and> g_memory d' = g_memory d"
  using assms
proof (induction n arbitrary: index d)
  case 0
  then show ?case
    by (auto simp: dex_listed_def)
next
  case (Suc n)
  let ?f = "method_in e dl (g_memory d) info dpc"
  note addr = GetAddr_listed [OF Suc.prems(1,3)]
  show ?case
  proof (cases "index < length l")
    case False
    then obtain d' where "GetAddr index d = (Fail, d')" "dex_listed l d'" "dex_map d' = dex_map d" "g_memory d' = g_memory d"
      using addr by auto
    then show ?thesis
      using False Suc.prems(2) by (simp add: attempt_def or_else_def bnd_def ret_def dex_consistent_def)
  next
    case True
    then obtain d' where d': "GetAddr index d = (Ok (l ! index), d')" "dex_listed l d'" "index < length (dex_addrs d')"
        "dex_map d' = dex_map d" "g_memory d' = g_memory d"
      using addr by auto
    have cons: "dex_consistent e dl info d'"
      using Suc.prems(2) d' by (simp add: dex_consistent_def)
    have drop: "drop index l = l ! index # drop (index + 1) l"
      using True by (simp add: Cons_nth_drop_Suc)
    have again: ?thesis
      if "GetMethodInformation_loop (Suc n) e dl info dpc index d = GetMethodInformation_loop n e dl info dpc (index + 1) t"
        "?f (l ! index) = None" "dex_listed l t" "dex_consistent e dl info t" "index < length (dex_addrs t)" "g_memory t = g_memory d" for t
      using Suc.IH [of t "index + 1"] that Suc.prems(4,5) drop by auto
    show ?thesis
    proof (cases "l ! index < mi_start info \<or> l ! index \<ge> mi_end info")
      case True
      then show ?thesis
        using d' cons by (intro again [of d']) (auto simp: attempt_def or_else_def bnd_def ret_def method_in_def)
    next
      case False
      then obtain t where t: "GetDexFile e dl (l ! index) info d' =
            (Ok (case DexFile_Create e dl (l ! index) (g_memory d) info of Ok x \<Rightarrow> Some x | _ \<Rightarrow> None), t)"
          "dex_consistent e dl info t" "dex_listed l t" "dex_addrs t = dex_addrs d'" "g_memory t = g_memory d"
        using GetDexFile_consistent [OF cons d'(2), of "l ! index"] Suc.prems(5) d'(5) by (metis not_le)
      show ?thesis
      proof (cases "?f (l ! index)")
        case None
        then show ?thesis
          using d' False t by (intro again [of t]) (auto simp: attempt_def or_else_def bnd_def ret_def method_in_def split: outcome.splits)
      next
        case (Some x)
        then show ?thesis
          using d' False t drop by (auto simp: attempt_def or_else_def bnd_def ret_def method_in_def split: outcome.splits)
      qed
    qed
  qed
qed

lemma initialised_GetMethodInformation:
  assumes "dex_initialized d" and "live w i"
  shows "DexFiles_GetMethodInformation e fs dl i dpc (d, w) =
    (case GetMethodInformation_loop (env_fuel e) e dl (info_of w i) dpc 0 d of (x, d') \<Rightarrow> (x, (d', w)))"
  using assms
  by (auto simp: DexFiles_GetMethodInformation_def DexFiles_Init_def bnd_def gets_def ret_def on_world_def on_object_def on_member_def
      get_info_def split: prod.split outcome.split)

text \<open>
  C17. If the linked list of dex files ends, \<^verbatim>\<open>GetMethodInformation\<close> ends after as many rounds as it has entries, and its result
  is the method that the first dex file of the list knows, among those in the map. Entries that have been read and dex
  files that have been opened by earlier calls make no difference, and the call leaves a state in which this
  holds for the same list.
\<close>

theorem GetMethodInformation_first:
  assumes "dex_listed l d" and "dex_consistent e dl (info_of w i) d" and "live w i" and "length l < env_fuel e"
    and "\<And>a c. mi_start (info_of w i) \<le> a \<Longrightarrow> a < mi_end (info_of w i) \<Longrightarrow>
      DexFile_Create e dl a (g_memory d) (info_of w i) \<noteq> Crash c"
  shows "\<exists>d'. DexFiles_GetMethodInformation e fs dl i dpc (d, w) =
      (Ok (first_method (method_in e dl (g_memory d) (info_of w i) dpc) l), (d', w)) \<and>
    dex_listed l d' \<and> dex_consistent e dl (info_of w i) d' \<and> g_memory d' = g_memory d"
proof -
  have "dex_initialized d"
    using assms(1) by (simp add: dex_listed_def)
  then show ?thesis
    using GetMethodInformation_loop_first [OF assms(1,2) le0, of "env_fuel e" dpc] assms(4,5)
    by (force simp: initialised_GetMethodInformation [OF _ assms(3)])
qed

text \<open>A list of two entries, and a library in which every dex file has the method \<^verbatim>\<open>main\<close>.\<close>

definition example_dex_memory :: "u64 \<Rightarrow> memory" where
  "example_dex_memory second =
     (\<lambda>addr n. if n \<noteq> 24 then []
       else if addr = 0x100 then concat (map (le_bytes 8) [second, 0, 0x5000 :: u64])
       else if addr = 0x200 then concat (map (le_bytes 8) [0, 0x100, 0x1100 :: u64])
       else [])"

definition example_dex_files :: "u64 \<Rightarrow> unit dex_files" where
  "example_dex_files second =
     (DexFiles (example_dex_memory second) [])\<lparr>g_arch := ARCH_X86_64, dex_entry_addr := 0x100, dex_initialized := True\<rparr>"

definition example_dex_library :: "unit dex_library" where
  "example_dex_library =
     \<lparr>dl_from_file = (\<lambda>_ _. Some ()), dl_from_memory = (\<lambda>_ _ _. Dex_Error), dl_method = (\<lambda>_ _. (0x300, ascii ''main''))\<rparr>"

lemma example_dex_entries:
  "dex_entry (example_dex_files second) 0x100 = Some (second, 0x5000)"
  "dex_entry (example_dex_files second) 0x200 = Some (0, 0x1100)"
  by (simp_all add: dex_entry_def example_dex_files_def DexFiles_def is_32_bit_def DEXFileEntry64_def ReadFully_def example_dex_memory_def)

theorem GetMethodInformation_first_witness:
  "\<exists>t. DexFiles_GetMethodInformation example_env example_files example_dex_library 0 0x1800 (example_dex_files 0x200, example_world) =
     (Ok (Some (ascii ''main'', 0x400)), t)"
proof -
  have info: "live example_world 0" "info_of example_world 0 = MapInfo None 0x1000 0x2000 0 5 (ascii ''/lib.so'')"
    by (simp_all add: example_world_def live_def info_of_def)
  have create: "DexFile_Create example_env example_dex_library a mem (info_of example_world 0) = Ok ()" for a mem
    by (simp add: info DexFile_Create_def MapInfo_def ascii_def DexFileFromFile_Create_def example_dex_library_def)
  have "dex_chain (dex_entry (example_dex_files 0x200)) 0x100 [0x5000, 0x1100]"
    by (simp add: example_dex_entries)
  then have "dex_listed [0x5000, 0x1100] (example_dex_files 0x200)"
    by (simp add: dex_listed_def example_dex_files_def DexFiles_def)
  moreover have "dex_consistent example_env example_dex_library (info_of example_world 0) (example_dex_files 0x200)"
    by (simp add: dex_consistent_def example_dex_files_def DexFiles_def)
  moreover have "first_method (method_in example_env example_dex_library mem (info_of example_world 0) 0x1800) [0x5000, 0x1100] =
      Some (ascii ''main'', 0x400)" for mem
    by (simp add: method_in_def create) (simp add: info MapInfo_def DexFile_GetMethodInformation_def example_dex_library_def)
  ultimately show ?thesis
    using GetMethodInformation_first [where l = "[0x5000, 0x1100]" and d = "example_dex_files 0x200" and e = example_env and
        dl = example_dex_library and w = example_world and i = 0 and fs = example_files and dpc = "0x1800"] info(1) create
    by (auto simp: example_env_def)
qed

lemma cyclic_loop:
  assumes "g_arch d \<noteq> ARCH_UNKNOWN" and "index \<le> length (dex_addrs d)"
    and "\<And>a. a \<in> set (dex_addrs d) \<Longrightarrow> a < mi_start info \<or> mi_end info \<le> a"
    and "dex_entry_addr d \<in> A" and "\<And>a. a \<in> A \<Longrightarrow> a \<noteq> 0"
    and "\<And>a. a \<in> A \<Longrightarrow> \<exists>b x. dex_entry d a = Some (b, x) \<and> b \<in> A \<and> x \<noteq> 0 \<and> (x < mi_start info \<or> mi_end info \<le> x)"
  shows "fst (GetMethodInformation_loop n e dl info dpc index d) = Crash OutOfFuel"
  using assms
proof (induction n arbitrary: index d)
  case 0
  then show ?case
    by (simp add: crash_def)
next
  case (Suc n)
  show ?case
  proof (cases "index < length (dex_addrs d)")
    case True
    then have "GetAddr index d = (Ok (dex_addrs d ! index), d)"
      by (simp add: GetAddr_def)
    moreover have "dex_addrs d ! index < mi_start info \<or> mi_end info \<le> dex_addrs d ! index"
      using Suc.prems(3) True by simp
    moreover have "fst (GetMethodInformation_loop n e dl info dpc (index + 1) d) = Crash OutOfFuel"
      using Suc.prems True by (intro Suc.IH) auto
    ultimately show ?thesis
      by (auto simp: attempt_def or_else_def bnd_def ret_def)
  next
    case False
    obtain b x where b: "dex_entry d (dex_entry_addr d) = Some (b, x)" "b \<in> A" "x \<noteq> 0" "x < mi_start info \<or> mi_end info \<le> x"
      using Suc.prems(4,6) by blast
    let ?d = "d\<lparr>dex_addrs := dex_addrs d @ [x], dex_entry_addr := b\<rparr>"
    have "dex_entry_addr d \<noteq> 0"
      using Suc.prems(4,5) by blast
    then have "GetAddr index d = (Ok x, ?d)"
      using False b(1,3) Suc.prems(1)
      by (auto simp: GetAddr_def ReadEntry32_def ReadEntry64_def ReadEntry_def dex_entry_def bnd_def gets_def)
    moreover have "fst (GetMethodInformation_loop n e dl info dpc (index + 1) ?d) = Crash OutOfFuel"
      using Suc.prems False b by (intro Suc.IH) auto
    ultimately show ?thesis
      using b(4) by (auto simp: attempt_def or_else_def bnd_def ret_def)
  qed
qed



end
