(* ===== verification/Unwinder.thy ===== *)
theory Unwinder
  imports Global_Variables Regs_Steps
begin

text \<open>
  \<^verbatim>\<open>Unwinder.h\<close>, \<^verbatim>\<open>Unwinder.cpp\<close>, \<^verbatim>\<open>LocalUnwinder.h\<close> and \<^verbatim>\<open>LocalUnwinder.cpp\<close>: the loops that turn registers into frames. The
  results on them are in the theory \<open>Unwinder_Frames\<close>.
\<close>

unbundle bit_operations_syntax

section \<open>State\<close>

record frame_data =
  fr_num :: nat
  fr_rel_pc :: u64
  fr_pc :: u64
  fr_sp :: u64
  fr_function_name :: "u8 list"
  fr_function_offset :: u64
  fr_map_name :: "u8 list"
  fr_map_elf_start_offset :: u64
  fr_map_exact_offset :: u64
  fr_map_start :: u64
  fr_map_end :: u64
  fr_map_load_bias :: u64
  fr_map_flags :: int

text \<open>
  The maps and the ELF objects are those of \<open>u_world\<close>. The memory of the process is a function: the cache that it can have
  is not observable, which the theory \<open>Memory\<close> shows.
\<close>

record 'd unwinder =
  u_max_frames :: nat
  u_world :: world
  u_regs :: any_regs
  u_frames :: "frame_data list"
  u_memory :: memory
  u_jit_debug :: "jit_debug option"
  u_dex_files :: "'d dex_files option"
  u_resolve_names :: bool
  u_embedded_soname :: bool
  u_display_build_id :: bool
  u_elf_from_memory_not_file :: bool
  u_last_error :: ErrorData

type_synonym ('d, 'r) unwind_prog = "('d unwinder, 'r) prog"

definition Unwinder :: "nat \<Rightarrow> world \<Rightarrow> any_regs \<Rightarrow> memory \<Rightarrow> 'd unwinder" where
  "Unwinder max_frames w r mem =
     \<lparr>u_max_frames = max_frames, u_world = w, u_regs = r, u_frames = [], u_memory = mem, u_jit_debug = None, u_dex_files = None,
      u_resolve_names = True, u_embedded_soname = True, u_display_build_id = False, u_elf_from_memory_not_file = False,
      u_last_error = \<lparr>err_code = ERROR_NONE, err_address = 0\<rparr>\<rparr>"

definition in_world :: "'r world_prog \<Rightarrow> ('d, 'r) unwind_prog" where
  "in_world p = on_member u_world (\<lambda>w s. s\<lparr>u_world := w\<rparr>) p"

definition in_jit :: "(jit_debug \<times> world, 'r) prog \<Rightarrow> ('d, 'r) unwind_prog" where
  "in_jit p = on_member (\<lambda>s. (the (u_jit_debug s), u_world s)) (\<lambda>(j, w) s. s\<lparr>u_jit_debug := Some j, u_world := w\<rparr>) p"

definition in_dex :: "('d dex_files \<times> world, 'r) prog \<Rightarrow> ('d, 'r) unwind_prog" where
  "in_dex p = on_member (\<lambda>s. (the (u_dex_files s), u_world s)) (\<lambda>(d, w) s. s\<lparr>u_dex_files := Some d, u_world := w\<rparr>) p"

definition set_error :: "ErrorCode \<Rightarrow> ('d, unit) unwind_prog" where
  "set_error c = modify (\<lambda>s. s\<lparr>u_last_error := (u_last_error s)\<lparr>err_code := c\<rparr>\<rparr>)"

definition read_object :: "nat \<Rightarrow> ('d, elf_object) unwind_prog" where
  "read_object k = in_world (read_elf k Ok)"

fun any_set_dex_pc :: "u64 \<Rightarrow> any_regs \<Rightarrow> any_regs" where
  "any_set_dex_pc v (Regs32 r) = Regs32 (set_dex_pc v r)"
| "any_set_dex_pc v (Regs64 r) = Regs64 (set_dex_pc v r)"

fun any_Is32Bit :: "any_regs \<Rightarrow> bool" where
  "any_Is32Bit (Regs32 r) = Is32Bit r"
| "any_Is32Bit (Regs64 r) = Is32Bit r"

section \<open>Frames\<close>

text \<open>A new frame at the end, with the values of the member initialisers, and changes of the last frame.\<close>

definition push_frame :: "u64 \<Rightarrow> u64 \<Rightarrow> u64 \<Rightarrow> 'd unwinder \<Rightarrow> 'd unwinder" where
  "push_frame rel_pc pc sp s =
     s\<lparr>u_frames := u_frames s @
        [\<lparr>fr_num = length (u_frames s), fr_rel_pc = rel_pc, fr_pc = pc, fr_sp = sp, fr_function_name = [], fr_function_offset = 0,
          fr_map_name = [], fr_map_elf_start_offset = 0, fr_map_exact_offset = 0, fr_map_start = 0, fr_map_end = 0,
          fr_map_load_bias = 0, fr_map_flags = 0\<rparr>]\<rparr>"

definition on_last :: "(frame_data \<Rightarrow> frame_data) \<Rightarrow> 'd unwinder \<Rightarrow> 'd unwinder" where
  "on_last f s = s\<lparr>u_frames := butlast (u_frames s) @ [f (last (u_frames s))]\<rparr>"

definition set_map :: "map_info \<Rightarrow> u8 list \<Rightarrow> u64 \<Rightarrow> frame_data \<Rightarrow> frame_data" where
  "set_map info name bias f =
     f\<lparr>fr_map_name := name, fr_map_elf_start_offset := mi_elf_start_offset info, fr_map_exact_offset := mi_offset info,
       fr_map_start := mi_start info, fr_map_end := mi_end info, fr_map_flags := uint (mi_flags info), fr_map_load_bias := bias\<rparr>"

definition FillInDexFrame :: "env \<Rightarrow> file_system \<Rightarrow> 'd dex_library \<Rightarrow> ('d, unit) unwind_prog" where
  "FillInDexFrame e fs dl =
     bnd (gets id) (\<lambda>s.
     let dpc = any_dex_pc (u_regs s); sp = any_sp (u_regs s) in
     case Find dpc (u_world s) of
       None \<Rightarrow> modify (push_frame dpc dpc sp)
     | Some i \<Rightarrow>
         bnd (in_world (get_info i)) (\<lambda>info.
         bnd (modify (push_frame (dpc - mi_start info) dpc sp)) (\<lambda>_.
         bnd (modify (on_last (set_map info (if u_resolve_names s then mi_name info else []) (mi_load_bias info)))) (\<lambda>_.
         if \<not> u_resolve_names s \<or> u_dex_files s = None then ret ()
         else
           bnd (in_dex (DexFiles_GetMethodInformation e fs dl i dpc)) (\<lambda>found.
           case found of
             None \<Rightarrow> ret ()
           | Some (name, offset) \<Rightarrow> modify (on_last (\<lambda>f. f\<lparr>fr_function_name := name, fr_function_offset := offset\<rparr>)))))))"

text \<open>The name of the map, with the soname of an ELF file that is embedded in the mapped file.\<close>

definition frame_map_name :: "env \<Rightarrow> map_info \<Rightarrow> nat \<Rightarrow> ('d, u8 list) unwind_prog" where
  "frame_map_name e info k =
     bnd (gets id) (\<lambda>s.
     if \<not> u_resolve_names s then ret []
     else if u_embedded_soname s \<and> mi_elf_start_offset info \<noteq> 0 \<and> mi_name info \<noteq> [] then
       bnd (in_world (on_elf k (GetSoname e))) (\<lambda>soname.
       ret (if soname \<noteq> [] then mi_name info @ ascii ''!'' @ soname else mi_name info))
     else ret (mi_name info))"

text \<open>The map and the ELF object of a round. The result is whether the returned pointer is not null.\<close>

definition FillInFrame :: "env \<Rightarrow> (nat \<times> nat) option \<Rightarrow> u64 \<Rightarrow> u64 \<Rightarrow> ('d, bool) unwind_prog" where
  "FillInFrame e target rel_pc pc_adjustment =
     bnd (modify (\<lambda>s. push_frame (rel_pc - pc_adjustment) (any_pc (u_regs s) - pc_adjustment) (any_sp (u_regs s)) s)) (\<lambda>_.
     case target of
       None \<Rightarrow> ret False
     | Some (i, k) \<Rightarrow>
         bnd (in_world (get_info i)) (\<lambda>info.
         bnd (frame_map_name e info k) (\<lambda>name.
         bnd (read_object k) (\<lambda>obj.
         bnd (modify (on_last (set_map info name (obj_load_bias obj)))) (\<lambda>_.
         ret True)))))"

definition ShouldStop :: "u8 list list option \<Rightarrow> u8 list \<Rightarrow> bool" where
  "ShouldStop suffixes name \<longleftrightarrow>
     (case suffixes of
        None \<Rightarrow> False
      | Some l \<Rightarrow> 0x2e \<in> set name \<and> rev (takeWhile (\<lambda>c. c \<noteq> 0x2e) (rev name)) \<in> set l)"

section \<open>A round\<close>

record round_target =
  rt_target :: "(nat \<times> nat) option"
  rt_rel_pc :: u64
  rt_step_pc :: u64
  rt_adjustment :: u64

text \<open>The map and the ELF object of the pc; \<open>None\<close> is the \<^verbatim>\<open>break\<close>.\<close>

definition jit_target :: "env \<Rightarrow> file_system \<Rightarrow> nat \<Rightarrow> u64 \<Rightarrow> round_target \<Rightarrow> ('d, round_target) unwind_prog" where
  "jit_target e fs i adjusted_jit_pc rt =
     bnd (attempt (in_jit (JitDebug_GetElf e fs adjusted_jit_pc))) (\<lambda>jit_elf.
     ret (case jit_elf of None \<Rightarrow> rt | Some k \<Rightarrow> rt\<lparr>rt_target := Some (i, k), rt_step_pc := adjusted_jit_pc\<rparr>))"

definition elf_target :: "env \<Rightarrow> file_system \<Rightarrow> bool \<Rightarrow> nat \<Rightarrow> ('d, round_target) unwind_prog" where
  "elf_target e fs adjust_pc i =
     bnd (gets id) (\<lambda>s.
     let pc = any_pc (u_regs s); arch = Arch (u_regs s) in
     bnd (in_world (MapInfo_GetElf e fs (Some (u_memory s)) arch i)) (\<lambda>k.
     bnd (in_world (get_info i)) (\<lambda>info.
     bnd (modify (\<lambda>s. s\<lparr>u_elf_from_memory_not_file := u_elf_from_memory_not_file s \<or>
            mi_memory_backed_elf info \<and> mi_name info \<noteq> [] \<and> hd (mi_name info) \<noteq> 0x5b \<and>
            \<not> starts_with (mi_name info) ''/memfd:''\<rparr>)) (\<lambda>_.
     bnd (read_object k) (\<lambda>obj.
     let rel_pc = GetRelPc pc (mi_start info) (mi_elf_offset info) obj;
         adjustment = (if adjust_pc then GetPcAdjustment arch rel_pc (view_of obj) else 0);
         step_pc = (if mi_flags info AND MAPS_FLAGS_JIT_SYMFILE_MAP = 0 then rel_pc else pc) - adjustment;
         rt = \<lparr>rt_target = Some (i, k), rt_rel_pc = rel_pc, rt_step_pc = step_pc, rt_adjustment = adjustment\<rparr> in
     if obj_valid obj \<or> u_jit_debug s = None then ret rt else jit_target e fs i (pc - adjustment) rt)))))"

definition locate :: "env \<Rightarrow> file_system \<Rightarrow> u8 list list option \<Rightarrow> bool \<Rightarrow> ('d, round_target option) unwind_prog" where
  "locate e fs suffixes adjust_pc =
     bnd (gets (\<lambda>s. (any_pc (u_regs s), Find (any_pc (u_regs s)) (u_world s)))) (\<lambda>(pc, map_ptr).
     case map_ptr of
       None \<Rightarrow>
         bnd (set_error ERROR_INVALID_MAP) (\<lambda>_.
         ret (Some \<lparr>rt_target = None, rt_rel_pc = pc, rt_step_pc = pc, rt_adjustment = 0\<rparr>))
     | Some i \<Rightarrow>
         bnd (in_world (get_info i)) (\<lambda>info.
         if ShouldStop suffixes (mi_name info) then ret None
         else bnd (elf_target e fs adjust_pc i) (\<lambda>rt. ret (Some rt))))"

text \<open>Whether the names of the first frames to be left out hold for the map.\<close>

definition skipped :: "u8 list list option \<Rightarrow> (nat \<times> nat) option \<Rightarrow> ('d, bool) unwind_prog" where
  "skipped names target =
     (case (names, target) of
        (Some names, Some (i, _)) \<Rightarrow> bnd (in_world (get_info i)) (\<lambda>info. ret (basename (mi_name info) \<in> set names))
      | _ \<Rightarrow> ret False)"

text \<open>\<open>None\<close> is the \<^verbatim>\<open>break\<close>; otherwise whether there is a frame with a map, and the names that remain.\<close>

definition add_frames ::
    "env \<Rightarrow> file_system \<Rightarrow> 'd dex_library \<Rightarrow> u8 list list option \<Rightarrow> round_target \<Rightarrow> ('d, (bool \<times> u8 list list option) option) unwind_prog"
  where
  "add_frames e fs dl names rt =
     bnd (skipped names (rt_target rt)) (\<lambda>left_out.
     if left_out then ret (Some (False, names))
     else
       bnd (gets (any_dex_pc \<circ> u_regs)) (\<lambda>dpc.
       bnd (if dpc \<noteq> 0 then
              bnd (FillInDexFrame e fs dl) (\<lambda>_.
              bnd (modify (\<lambda>s. s\<lparr>u_regs := any_set_dex_pc 0 (u_regs s)\<rparr>)) (\<lambda>_.
              gets (\<lambda>s. length (u_frames s) = u_max_frames s)))
            else ret False) (\<lambda>full.
       if full then bnd (set_error ERROR_MAX_FRAMES_EXCEEDED) (\<lambda>_. ret None)
       else bnd (FillInFrame e (rt_target rt) (rt_rel_pc rt) (rt_adjustment rt)) (\<lambda>framed. ret (Some (framed, None))))))"

definition is_device :: "nat option \<Rightarrow> ('d, bool) unwind_prog" where
  "is_device map_ptr =
     (case map_ptr of
        None \<Rightarrow> ret False
      | Some i \<Rightarrow> bnd (in_world (get_info i)) (\<lambda>info. ret (mi_flags info AND MAPS_FLAGS_DEVICE_MAP \<noteq> 0)))"

text \<open>The two kinds of steps, on the object and the registers.\<close>

definition signal_step :: "env \<Rightarrow> nat \<Rightarrow> u64 \<Rightarrow> ('d, bool) unwind_prog" where
  "signal_step e k rel_pc =
     bnd (read_object k) (\<lambda>obj s.
     case Elf_StepIfSignalHandler e rel_pc (u_memory s) obj (u_regs s) of (stepped, r) \<Rightarrow> (Ok stepped, s\<lparr>u_regs := r\<rparr>))"

definition elf_step :: "env \<Rightarrow> nat \<Rightarrow> u64 \<Rightarrow> ('d, bool) unwind_prog" where
  "elf_step e k step_pc =
     bnd (read_object k) (\<lambda>obj s.
     case Elf_Step e step_pc (u_memory s) (obj, u_regs s) of
       (x, obj', r) \<Rightarrow> (x, s\<lparr>u_regs := r, u_world := (u_world s)\<lparr>w_elfs := (w_elfs (u_world s))[k := obj']\<rparr>\<rparr>))"

record round_step =
  rs_stepped :: bool
  rs_in_device_map :: bool
  rs_finished :: bool
  rs_step_pc :: u64

definition take_step :: "env \<Rightarrow> nat \<Rightarrow> bool \<Rightarrow> round_target \<Rightarrow> ('d, round_step) unwind_prog" where
  "take_step e k framed rt =
     bnd (signal_step e k (rt_rel_pc rt)) (\<lambda>signal.
     bnd (if signal then
            if framed then
              bnd (modify (on_last (\<lambda>f. f\<lparr>fr_rel_pc := rt_rel_pc rt, fr_pc := fr_pc f + rt_adjustment rt\<rparr>))) (\<lambda>_.
              ret \<lparr>rs_stepped = True, rs_in_device_map = False, rs_finished = False, rs_step_pc = rt_rel_pc rt\<rparr>)
            else ret \<lparr>rs_stepped = True, rs_in_device_map = False, rs_finished = False, rs_step_pc = rt_step_pc rt\<rparr>
          else
            bnd (attempt (elf_step e k (rt_step_pc rt))) (\<lambda>finished.
            ret \<lparr>rs_stepped = finished \<noteq> None, rs_in_device_map = False, rs_finished = finished = Some True,
                 rs_step_pc = rt_step_pc rt\<rparr>)) (\<lambda>rs.
     bnd (read_object k) (\<lambda>obj.
     bnd (modify (\<lambda>s. s\<lparr>u_last_error := GetLastError obj (u_last_error s)\<rparr>)) (\<lambda>_.
     ret rs))))"

definition step_round :: "env \<Rightarrow> bool \<Rightarrow> round_target \<Rightarrow> ('d, round_step) unwind_prog" where
  "step_round e framed rt =
     (let stay = \<lparr>rs_stepped = False, rs_in_device_map = False, rs_finished = False, rs_step_pc = rt_step_pc rt\<rparr> in
      case rt_target rt of
        None \<Rightarrow> ret stay
      | Some (i, k) \<Rightarrow>
          bnd (is_device (Some i)) (\<lambda>device.
          bnd (if device then ret True else bnd (gets (\<lambda>s. Find (any_sp (u_regs s)) (u_world s))) is_device) (\<lambda>device.
          if device then ret (stay\<lparr>rs_in_device_map := True\<rparr>) else take_step e k framed rt)))"

definition name_frame :: "env \<Rightarrow> bool \<Rightarrow> (nat \<times> nat) option \<Rightarrow> u64 \<Rightarrow> ('d, unit) unwind_prog" where
  "name_frame e framed target step_pc =
     (case target of
        Some (_, k) \<Rightarrow>
          if framed then
            bnd (gets u_resolve_names) (\<lambda>resolve.
            bnd (if resolve then attempt (in_world (on_elf k (Elf_GetFunctionName e step_pc))) else ret None) (\<lambda>found.
            modify (on_last (\<lambda>f. case found of
                None \<Rightarrow> f\<lparr>fr_function_name := [], fr_function_offset := 0\<rparr>
              | Some (name, offset) \<Rightarrow> f\<lparr>fr_function_name := name, fr_function_offset := offset\<rparr>))))
          else ret ()
      | None \<Rightarrow> ret ())"

text \<open>
  The frame of a failed attempt with the return address is removed. The variables of the loop are the names to be left out,
  \<^verbatim>\<open>return_address_attempt\<close> and \<^verbatim>\<open>adjust_pc\<close>; \<open>None\<close> is the \<^verbatim>\<open>break\<close>.
\<close>

definition remove_speculative :: "'d unwinder \<Rightarrow> 'd unwinder" where
  "remove_speculative s =
     (if length (u_frames s) > 2 \<or> length (u_frames s) > 0 \<and> Find (fr_pc (u_frames s ! 0)) (u_world s) \<noteq> None
      then s\<lparr>u_frames := butlast (u_frames s)\<rparr> else s)"

type_synonym loop_vars = "u8 list list option \<times> bool \<times> bool"

definition check_progress :: "u64 \<Rightarrow> u64 \<Rightarrow> loop_vars \<Rightarrow> ('d, loop_vars option) unwind_prog" where
  "check_progress pc0 sp0 vars =
     bnd (gets (\<lambda>s. pc0 = any_pc (u_regs s) \<and> sp0 = any_sp (u_regs s))) (\<lambda>repeated.
     if repeated then bnd (set_error ERROR_REPEATED_FRAME) (\<lambda>_. ret None) else ret (Some vars))"

definition end_round :: "u64 \<Rightarrow> u64 \<Rightarrow> bool \<Rightarrow> u8 list list option \<Rightarrow> round_step \<Rightarrow> ('d, loop_vars option) unwind_prog" where
  "end_round pc0 sp0 attempted names rs =
     (if rs_finished rs then ret None
      else if \<not> rs_stepped rs then
        if attempted then bnd (modify remove_speculative) (\<lambda>_. ret None)
        else if rs_in_device_map rs then ret None
        else
          bnd (\<lambda>s. case SetPcFromReturnAddress (u_memory s) (u_regs s) of (changed, r) \<Rightarrow> (Ok changed, s\<lparr>u_regs := r\<rparr>)) (\<lambda>changed.
          if changed then check_progress pc0 sp0 (names, True, True) else ret None)
      else
        bnd (gets (\<lambda>s. u_max_frames s = length (u_frames s))) (\<lambda>full.
        bnd (if full then set_error ERROR_MAX_FRAMES_EXCEEDED else ret ()) (\<lambda>_.
        check_progress pc0 sp0 (names, False, True))))"

definition unwind_round ::
    "env \<Rightarrow> file_system \<Rightarrow> 'd dex_library \<Rightarrow> u8 list list option \<Rightarrow> loop_vars \<Rightarrow> ('d, loop_vars option) unwind_prog" where
  "unwind_round e fs dl suffixes = (\<lambda>(names, attempted, adjust_pc).
     bnd (gets (\<lambda>s. (any_pc (u_regs s), any_sp (u_regs s)))) (\<lambda>(pc0, sp0).
     bnd (locate e fs suffixes adjust_pc) (\<lambda>located.
     case located of
       None \<Rightarrow> ret None
     | Some rt \<Rightarrow>
         bnd (add_frames e fs dl names rt) (\<lambda>added.
         case added of
           None \<Rightarrow> ret None
         | Some (framed, names) \<Rightarrow>
             bnd (step_round e framed rt) (\<lambda>rs.
             bnd (name_frame e framed (rt_target rt) (rs_step_pc rs)) (\<lambda>_.
             end_round pc0 sp0 attempted names rs))))))"

section \<open>Unwind\<close>

fun Unwind_loop ::
    "nat \<Rightarrow> env \<Rightarrow> file_system \<Rightarrow> 'd dex_library \<Rightarrow> u8 list list option \<Rightarrow> loop_vars \<Rightarrow> ('d, unit) unwind_prog" where
  "Unwind_loop 0 e fs dl suffixes vars = crash OutOfFuel"
| "Unwind_loop (Suc n) e fs dl suffixes vars =
     bnd (gets (\<lambda>s. length (u_frames s) < u_max_frames s)) (\<lambda>go.
     if go then
       bnd (unwind_round e fs dl suffixes vars) (\<lambda>vars.
       case vars of None \<Rightarrow> ret () | Some vars \<Rightarrow> Unwind_loop n e fs dl suffixes vars)
     else ret ())"

definition Unwind ::
    "nat \<Rightarrow> env \<Rightarrow> file_system \<Rightarrow> 'd dex_library \<Rightarrow> u8 list list option \<Rightarrow> u8 list list option \<Rightarrow> ('d, unit) unwind_prog" where
  "Unwind n e fs dl names suffixes =
     bnd (modify (\<lambda>s. s\<lparr>u_frames := [], u_last_error := \<lparr>err_code = ERROR_NONE, err_address = 0\<rparr>,
            u_elf_from_memory_not_file := False\<rparr>)) (\<lambda>_.
     Unwind_loop n e fs dl suffixes (names, False, False))"

section \<open>Formatting and construction\<close>

text \<open>\<open>demangle\<close> is the function of libdemangle.\<close>

definition format_map :: "frame_data \<Rightarrow> u8 list" where
  "format_map f =
     (if fr_map_start f = fr_map_end f then ascii ''  <unknown>''
      else if fr_map_name f \<noteq> [] then ascii ''  '' @ fr_map_name f
      else ascii (''  <anonymous:'' @ hex (unat (fr_map_start f)) @ ''>''))"

definition format_function :: "(u8 list \<Rightarrow> u8 list) \<Rightarrow> frame_data \<Rightarrow> u8 list" where
  "format_function demangle f =
     (if fr_function_name f = [] then []
      else ascii '' ('' @ demangle (takeWhile (\<lambda>c. c \<noteq> 0) (fr_function_name f)) @
        (if fr_function_offset f \<noteq> 0 then ascii (''+'' @ sdec (sint (fr_function_offset f))) else []) @ ascii '')'')"

definition FormatFrame :: "env \<Rightarrow> file_system \<Rightarrow> (u8 list \<Rightarrow> u8 list) \<Rightarrow> bool \<Rightarrow> frame_data \<Rightarrow> ('d, u8 list) unwind_prog" where
  "FormatFrame e fs demangle saved f =
     bnd (gets id) (\<lambda>s.
     let width = (if any_Is32Bit (u_regs s) then 8 else 16);
         text = ascii (''  #'' @ pad0 2 (dec (fr_num f)) @ '' pc '' @ pad0 width (hex (unat (fr_rel_pc f)))) @ format_map f @
           (if fr_map_elf_start_offset f \<noteq> 0 then ascii ('' (offset 0x'' @ hex (unat (fr_map_elf_start_offset f)) @ '')'') else []) @
           format_function demangle f in
     case Find (fr_map_start f) (u_world s) of
       None \<Rightarrow> ret text
     | Some i \<Rightarrow>
         if \<not> u_display_build_id s then ret text
         else
           bnd (in_world (GetPrintableBuildID e fs saved i)) (\<lambda>build_id.
           ret (if build_id \<noteq> [] then text @ ascii '' (BuildId: '' @ build_id @ ascii '')'' else text)))"

definition FormatFrame_num :: "env \<Rightarrow> file_system \<Rightarrow> (u8 list \<Rightarrow> u8 list) \<Rightarrow> bool \<Rightarrow> nat \<Rightarrow> ('d, u8 list) unwind_prog" where
  "FormatFrame_num e fs demangle saved frame_num =
     bnd (gets u_frames) (\<lambda>frames.
     if frame_num \<ge> length frames then ret [] else FormatFrame e fs demangle saved (frames ! frame_num))"

definition ConsumeFrames :: "('d, frame_data list) unwind_prog" where
  "ConsumeFrames = bnd (gets u_frames) (\<lambda>frames. bnd (modify (\<lambda>s. s\<lparr>u_frames := []\<rparr>)) (\<lambda>_. ret frames))"

definition SetJitDebug :: "jit_debug \<Rightarrow> ArchEnum \<Rightarrow> ('d, unit) unwind_prog" where
  "SetJitDebug j arch = (\<lambda>s. case SetArch ProcessArch arch j of (x, j') \<Rightarrow> (x, s\<lparr>u_jit_debug := Some j'\<rparr>))"

definition SetDexFiles :: "'d dex_files \<Rightarrow> ArchEnum \<Rightarrow> ('d, unit) unwind_prog" where
  "SetDexFiles d arch = (\<lambda>s. case SetArch ProcessArch arch d of (x, d') \<Rightarrow> (x, s\<lparr>u_dex_files := Some d'\<rparr>))"

text \<open>
  \<open>read_maps\<close> is the parser on the file of a name, and \<open>mem\<close> the memory of the process. The maps of a process that is the own
  one are read from the file with its number as well.
\<close>

definition UnwinderFromPid_Init ::
    "(string \<Rightarrow> map_entry list \<times> bool) \<Rightarrow> memory \<Rightarrow> nat \<Rightarrow> ArchEnum \<Rightarrow> ('d, unit) unwind_prog" where
  "UnwinderFromPid_Init read_maps mem pid arch =
     bnd (modify (\<lambda>s. s\<lparr>u_world := (u_world s)\<lparr>w_maps := []\<rparr>\<rparr>)) (\<lambda>_.
     bnd (in_world (Parse (read_maps (RemoteMaps_GetMapsFile pid)))) (\<lambda>_.
     bnd (modify (\<lambda>s. s\<lparr>u_memory := mem\<rparr>)) (\<lambda>_.
     bnd (SetJitDebug (JitDebug mem []) arch) (\<lambda>_.
     SetDexFiles (DexFiles mem []) arch))))"

section \<open>LocalUnwinder\<close>

text \<open>
  An unwinder of the own process. \<open>lu_reads\<close> counts how often the file of the maps has been read; its contents at each time are
  given by \<open>read_maps\<close>. The lock is not modelled.
\<close>

record local_frame =
  lf_map_info :: nat
  lf_pc :: u64
  lf_rel_pc :: u64
  lf_function_name :: "u8 list"
  lf_function_offset :: u64

record local_unwinder =
  lu_world :: world
  lu_memory :: memory
  lu_skip_libraries :: "u8 list list"
  lu_reads :: nat

definition LocalUnwinder_Init :: "(nat \<Rightarrow> map_entry list \<times> bool) \<Rightarrow> memory \<Rightarrow> (local_unwinder, unit) prog" where
  "LocalUnwinder_Init read_maps mem = (\<lambda>s.
     case Parse (read_maps (lu_reads s)) ((lu_world s)\<lparr>w_maps := [], w_saved := []\<rparr>) of
       (Ok _, w) \<Rightarrow> (Ok (), s\<lparr>lu_world := w, lu_memory := mem, lu_reads := lu_reads s + 1\<rparr>)
     | (x, w) \<Rightarrow> (x, s\<lparr>lu_world := (lu_world s)\<lparr>w_maps := [], w_saved := []\<rparr>, lu_reads := lu_reads s + 1\<rparr>))"

definition ShouldSkipLibrary :: "u8 list \<Rightarrow> local_unwinder \<Rightarrow> bool" where
  "ShouldSkipLibrary map_name s \<longleftrightarrow> list_ex (\<lambda>skip_library. skip_library = map_name) (lu_skip_libraries s)"

definition in_local :: "'r world_prog \<Rightarrow> (local_unwinder, 'r) prog" where
  "in_local p = on_member lu_world (\<lambda>w s. s\<lparr>lu_world := w\<rparr>) p"

definition GetMapInfo ::
    "((u64 \<times> nat) option list \<Rightarrow> (u64 \<times> nat) option list) \<Rightarrow> (nat \<Rightarrow> map_entry list \<times> bool) \<Rightarrow> u64 \<Rightarrow> (local_unwinder, nat option) prog"
  where
  "GetMapInfo std_sort read_maps pc =
     bnd (gets (Find pc \<circ> lu_world)) (\<lambda>map_ptr.
     case map_ptr of
       Some i \<Rightarrow> ret (Some i)
     | None \<Rightarrow>
         bnd (gets lu_reads) (\<lambda>reads.
         bnd (modify (\<lambda>s. s\<lparr>lu_reads := reads + 1\<rparr>)) (\<lambda>_.
         bnd (attempt (in_local (Reparse std_sort (read_maps reads)))) (\<lambda>parsed.
         if parsed = None then ret None else gets (Find pc \<circ> lu_world)))))"

record local_round =
  lr_regs :: any_regs
  lr_frames :: "local_frame list"
  lr_num_frames :: nat
  lr_adjust_pc :: bool

text \<open>A round for a map: whether the loop ends, with the variables of the loop.\<close>

definition local_step :: "env \<Rightarrow> nat \<Rightarrow> u64 \<Rightarrow> u64 \<Rightarrow> any_regs \<Rightarrow> (local_unwinder, bool \<times> any_regs) prog" where
  "local_step e k rel_pc step_pc r = (\<lambda>s.
     if k \<ge> length (w_elfs (lu_world s)) then (Crash Undefined, s)
     else
       let obj = w_elfs (lu_world s) ! k in
       case Elf_StepIfSignalHandler e rel_pc (lu_memory s) obj r of
         (True, r1) \<Rightarrow> (Ok (False, r1), s)
       | (False, r1) \<Rightarrow>
           case Elf_Step e step_pc (lu_memory s) (obj, r1) of
             (x, obj', r2) \<Rightarrow>
               ((case x of Ok finished \<Rightarrow> Ok (finished, r2) | Fail \<Rightarrow> Ok (True, r2) | Crash c \<Rightarrow> Crash c),
                s\<lparr>lu_world := (lu_world s)\<lparr>w_elfs := (w_elfs (lu_world s))[k := obj']\<rparr>\<rparr>))"

definition local_round ::
    "env \<Rightarrow> file_system \<Rightarrow> nat \<Rightarrow> nat \<Rightarrow> local_round \<Rightarrow> (local_unwinder, bool \<times> local_round) prog" where
  "local_round e fs max_frames i v =
     bnd (gets id) (\<lambda>s.
     let r = lr_regs v; arch = Arch r; pc0 = any_pc r; sp0 = any_sp r in
     bnd (in_local (MapInfo_GetElf e fs (Some (lu_memory s)) arch i)) (\<lambda>k.
     bnd (in_local (get_info i)) (\<lambda>info.
     bnd (in_local (read_elf k Ok)) (\<lambda>obj.
     let rel_pc = GetRelPc pc0 (mi_start info) (mi_elf_offset info) obj;
         adjustment = (if lr_adjust_pc v then GetPcAdjustment arch rel_pc (view_of obj) else 0) in
     bnd (local_step e k rel_pc (rel_pc - adjustment) r) (\<lambda>(finished, r').
     bnd (if lr_num_frames v \<noteq> 0 \<or> \<not> ShouldSkipLibrary (mi_name info) s then
            bnd (attempt (in_local (on_elf k (Elf_GetFunctionName e rel_pc)))) (\<lambda>found.
            let (name, offset) = (case found of None \<Rightarrow> ([], 0) | Some x \<Rightarrow> x) in
            ret (v\<lparr>lr_frames := lr_frames v @ [\<lparr>lf_map_info = i, lf_pc = pc0 - adjustment, lf_rel_pc = rel_pc - adjustment,
                     lf_function_name = name, lf_function_offset = offset\<rparr>],
                   lr_num_frames := lr_num_frames v + 1\<rparr>))
          else ret v) (\<lambda>v.
     ret (finished \<or> length (lr_frames v) = max_frames \<or> pc0 = any_pc r' \<and> sp0 = any_sp r',
          v\<lparr>lr_regs := r', lr_adjust_pc := True\<rparr>)))))))"

fun LocalUnwinder_loop ::
    "nat \<Rightarrow> env \<Rightarrow> file_system \<Rightarrow> ((u64 \<times> nat) option list \<Rightarrow> (u64 \<times> nat) option list) \<Rightarrow> (nat \<Rightarrow> map_entry list \<times> bool) \<Rightarrow>
     nat \<Rightarrow> local_round \<Rightarrow> (local_unwinder, local_round) prog" where
  "LocalUnwinder_loop 0 e fs std_sort read_maps max_frames v = crash OutOfFuel"
| "LocalUnwinder_loop (Suc n) e fs std_sort read_maps max_frames v =
     bnd (GetMapInfo std_sort read_maps (any_pc (lr_regs v))) (\<lambda>map_ptr.
     case map_ptr of
       None \<Rightarrow> ret v
     | Some i \<Rightarrow>
         bnd (local_round e fs max_frames i v) (\<lambda>(stop, v).
         if stop then ret v else LocalUnwinder_loop n e fs std_sort read_maps max_frames v))"

text \<open>\<open>r\<close> are the registers that \<^verbatim>\<open>RegsGetLocal\<close> stores, \<open>frames\<close> is the vector of the caller.\<close>

definition LocalUnwinder_Unwind ::
    "nat \<Rightarrow> env \<Rightarrow> file_system \<Rightarrow> ((u64 \<times> nat) option list \<Rightarrow> (u64 \<times> nat) option list) \<Rightarrow> (nat \<Rightarrow> map_entry list \<times> bool) \<Rightarrow>
     any_regs \<Rightarrow> nat \<Rightarrow> local_frame list \<Rightarrow> (local_unwinder, bool \<times> local_frame list) prog" where
  "LocalUnwinder_Unwind n e fs std_sort read_maps r max_frames frames =
     bnd (LocalUnwinder_loop n e fs std_sort read_maps max_frames
            \<lparr>lr_regs = r, lr_frames = frames, lr_num_frames = 0, lr_adjust_pc = False\<rparr>) (\<lambda>v.
     ret (lr_num_frames v \<noteq> 0, lr_frames v))"

end
