(* ===== verification/Unwinder_Frames.thy ===== *)
theory Unwinder_Frames
  imports Unwinder
begin

text \<open>
  Results on \<^verbatim>\<open>Unwinder::Unwind\<close>: nothing that it calls changes the addresses of the maps, so that the frames can be
  compared with the maps at the end; every round adds a frame, so that the loop ends.
\<close>

unbundle bit_operations_syntax

section \<open>What stays of the maps\<close>

definition map_geometry :: "map_info \<Rightarrow> u64 \<times> u64 \<times> u64 \<times> u16 \<times> u8 list" where
  "map_geometry info = (mi_start info, mi_end info, mi_offset info, mi_flags info, mi_name info)"

definition geometry :: "world \<Rightarrow> nat list \<times> (u64 \<times> u64 \<times> u64 \<times> u16 \<times> u8 list) option list" where
  "geometry w = (w_maps w, map (map_option map_geometry) (w_infos w))"

lemma geometry_updates [simp]:
  "geometry (w\<lparr>w_elfs := es\<rparr>) = geometry w"
  "geometry (w\<lparr>w_cache := c\<rparr>) = geometry w"
  by (simp_all add: geometry_def)

lemma keeps_or_else [keep]: "keeps f p \<Longrightarrow> keeps f q \<Longrightarrow> keeps f (or_else p q)"
  by (rule keepsI) (fastforce simp: or_else_def dest: keepsD split: prod.splits outcome.splits)

lemma keeps_outcome [keep]:
  "(\<And>y. keeps f (p y)) \<Longrightarrow> keeps f q \<Longrightarrow> (\<And>c. keeps f (r c)) \<Longrightarrow>
     keeps f (case x of Ok y \<Rightarrow> p y | Fail \<Rightarrow> q | Crash c \<Rightarrow> r c)"
  by (cases x) simp_all

lemma keeps_prod [keep]: "(\<And>a b. keeps f (p a b)) \<Longrightarrow> keeps f (case x of (a, b) \<Rightarrow> p a b)"
  by (cases x) simp

lemma keeps_Let [keep]: "(\<And>y. keeps f (p y)) \<Longrightarrow> keeps f (let y = x in p y)"
  by simp

lemma keeps_attempt [keep]: "keeps f p \<Longrightarrow> keeps f (attempt p)"
  unfolding attempt_def by (intro keep)

lemma keeps_of [keep]: "keeps f (of_option x)" "keeps f (of_outcome y)"
  by (auto simp: of_option_def of_outcome_def keeps_def split: option.split)

lemma geometry_get_info [keep]: "keeps geometry (get_info i)"
  by (simp add: keeps_def get_info_def)

lemma geometry_set_info [keep]:
  assumes "\<And>info. map_geometry (f info) = map_geometry info"
  shows "keeps geometry (set_info i f)"
proof -
  have "map (map_option map_geometry) ((w_infos w)[i := Some (f (info_of w i))]) = map (map_option map_geometry) (w_infos w)"
    if "live w i" for w
    using that assms by (intro nth_equalityI) (auto simp: live_def info_of_def nth_list_update)
  then show ?thesis
    by (simp add: keeps_def set_info_def geometry_def)
qed

lemma geometry_get_prev [keep]: "keeps geometry (get_prev i)"
  unfolding get_prev_def by (intro keep)

lemma geometry_on_elf [keep]: "keeps geometry (on_elf k p)" "keeps geometry (read_elf k f)"
  by (auto simp: keeps_def on_elf_def read_elf_def split: prod.split)

lemma geometry_CreateMemory [keep]: "keeps geometry (CreateMemory fs process i)"
  unfolding CreateMemory_def GetFileMemory_def InitFileMemoryFromPreviousReadOnlyMap_def embedded_elf_def whole_elf_def process_elf_def
  by (intro keep) (simp_all add: map_geometry_def)

lemma geometry_cache [keep]: "keeps geometry (CacheAdd i k)" "keeps geometry (CacheAfterCreateMemory i)" "keeps geometry (CacheGet i)"
  unfolding CacheAdd_def CacheAfterCreateMemory_def CacheGet_def
  by (intro keep; simp add: map_geometry_def cache_put_def)+

lemma geometry_new_elf [keep]: "keeps geometry (new_elf e arch mem i)"
proof -
  have "keeps geometry (bnd (set_info i (\<lambda>info. info\<lparr>mi_elf := Some k\<rparr>)) (\<lambda>_.
     bnd (on_elf k (attempt (Elf_Init e))) (\<lambda>_.
     bnd (on_elf k (modify (\<lambda>s. if obj_valid s \<and> obj_arch s \<noteq> Some arch then Invalidate s else s))) (\<lambda>_. ret k))))" for k
    by (intro keep) (simp add: map_geometry_def)
  then show ?thesis
    by (simp add: keeps_def new_elf_def Let_def)
qed

lemma geometry_MapInfo_GetElf [keep]: "keeps geometry (MapInfo_GetElf e fs process arch i)"
  unfolding MapInfo_GetElf_def share_with_prev_def by (intro keep) (simp_all add: map_geometry_def)

lemma geometry_on_world [keep]: "keeps geometry p \<Longrightarrow> keeps (geometry \<circ> snd) (on_world p)"
  unfolding on_world_def by (rule keeps_on_member) (auto dest: keepsD)

lemma geometry_on_object [keep]: "keeps (geometry \<circ> snd) (on_object p)"
  unfolding on_object_def by (rule keeps_on_member) auto

lemma geometry_FindAndReadVariable [keep]: "keeps (geometry \<circ> snd) (FindAndReadVariable e fs read_data variable)"
proof -
  have "keeps (geometry \<circ> snd) (FindAndReadVariable_loop e fs read_data variable start maps)" for start maps
  proof (induction maps arbitrary: start)
    case (Cons i maps)
    then show ?case
      unfolding FindAndReadVariable_loop.simps check_map_def GetVariableOffset_def by (intro keep Cons)
  qed (simp add: keep)
  then show ?thesis
    unfolding FindAndReadVariable_def by (intro keep)
qed

lemma geometry_JitDebug_GetElf [keep]: "keeps (geometry \<circ> snd) (JitDebug_GetElf e fs pc)"
proof -
  have "keeps geometry (search_elfs e pc ks)" for ks
    by (induction ks; unfold search_elfs.simps; intro keep; simp)
  moreover have "keeps (geometry \<circ> snd) (read_jit_elf e)"
    by (auto simp: keeps_def read_jit_elf_def Let_def split: option.split prod.split)
  then have "keeps (geometry \<circ> snd) (JitDebug_loop n e pc)" for n
    by (induction n) (auto intro!: keep simp: split_beta)
  ultimately show ?thesis
    unfolding JitDebug_GetElf_def JitDebug_Init_def by (intro keep)
qed

lemma geometry_GetMethodInformation [keep]: "keeps (geometry \<circ> snd) (DexFiles_GetMethodInformation e fs dl i dpc)"
  unfolding DexFiles_GetMethodInformation_def DexFiles_Init_def by (intro keep)

section \<open>Lookups in equal maps\<close>

lemma nth_beyond: "length xs = length ys \<Longrightarrow> length xs \<le> i \<Longrightarrow> xs ! i = ys ! i"
proof (induction xs ys arbitrary: i rule: list_induct2)
  case (Cons x xs y ys)
  then show ?case
    by (cases i) auto
qed simp

lemma geometry_info:
  assumes "geometry w = geometry t"
  shows "map_geometry (info_of w i) = map_geometry (info_of t i)"
proof -
  have maps: "map (map_option map_geometry) (w_infos w) = map (map_option map_geometry) (w_infos t)"
    using assms by (simp add: geometry_def)
  then have len: "length (w_infos w) = length (w_infos t)"
    by (rule map_eq_imp_length_eq)
  show ?thesis
  proof (cases "i < length (w_infos w)")
    case True
    then have "map_option map_geometry (w_infos w ! i) = map_option map_geometry (w_infos t ! i)"
      using maps len by (metis nth_map)
    then show ?thesis
      by (cases "w_infos w ! i"; cases "w_infos t ! i") (simp_all add: info_of_def)
  next
    case False
    then show ?thesis
      using nth_beyond [OF len] by (simp add: info_of_def)
  qed
qed

lemma Find_loop_cong:
  assumes "list_all2 (\<lambda>x y. fst x = fst y \<and> map_geometry (snd x) = map_geometry (snd y)) xs ys" and "last_index \<le> length xs"
  shows "map_option fst (Find_loop xs pc first last_index) = map_option fst (Find_loop ys pc first last_index)"
  using assms
proof (induction xs pc first last_index rule: Find_loop.induct)
  case (1 maps pc first last_index)
  show ?case
  proof (cases "first < last_index")
    case True
    let ?m = "(first + last_index) div 2"
    have m: "fst (maps ! ?m) = fst (ys ! ?m)" "map_geometry (snd (maps ! ?m)) = map_geometry (snd (ys ! ?m))" "?m \<le> length maps"
      using 1(3,4) True by (auto simp: list_all2_conv_all_nth)
    then have info: "mi_start (snd (maps ! ?m)) = mi_start (snd (ys ! ?m))" "mi_end (snd (maps ! ?m)) = mi_end (snd (ys ! ?m))"
      by (simp_all add: map_geometry_def)
    have "map_option fst (Find_loop maps pc first ?m) = map_option fst (Find_loop ys pc first ?m)"
      if "pc < mi_start (snd (maps ! ?m))"
      using that by (intro 1(1) [OF True refl refl _ that 1(3) m(3)]) (metis not_le)
    moreover have "map_option fst (Find_loop maps pc (?m + 1) last_index) = map_option fst (Find_loop ys pc (?m + 1) last_index)"
      if "\<not> (pc \<ge> mi_start (snd (maps ! ?m)) \<and> pc < mi_end (snd (maps ! ?m)))" "\<not> pc < mi_start (snd (maps ! ?m))"
      using 1(2) [OF True refl refl that 1(3,4)] .
    ultimately show ?thesis
      using True m(1) info unfolding Find_loop.simps [of maps pc first last_index] Find_loop.simps [of ys pc first last_index] Let_def
      by auto
  qed (simp add: Find_loop.simps)
qed

lemma Find_geometry:
  assumes "geometry w = geometry t"
  shows "Find pc w = Find pc t"
proof -
  have "w_maps w = w_maps t"
    using assms by (simp add: geometry_def)
  moreover have "list_all2 (\<lambda>x y. fst x = fst y \<and> map_geometry (snd x) = map_geometry (snd y)) (map_objects w) (map_objects t)"
    using calculation geometry_info [OF assms] by (simp add: map_objects_def list_all2_conv_all_nth)
  ultimately show ?thesis
    using Find_loop_cong [where xs = "map_objects w"] by (simp add: Find_def map_objects_def)
qed

section \<open>Calls without failure\<close>

text \<open>A call that returns or stops the program, as a function without a result for failures.\<close>

definition never_fails :: "('s, 'r) prog \<Rightarrow> bool" where
  "never_fails p \<longleftrightarrow> (\<forall>s t. p s \<noteq> (Fail, t))"

named_theorems succeed \<open>introduction rules for calls that do not fail\<close>

lemma never_fails_basic [succeed]:
  "never_fails (ret x)" "never_fails (gets g)" "never_fails (modify h)" "never_fails (crash c)" "never_fails (attempt p)"
  by (auto simp: never_fails_def attempt_def or_else_def bnd_def split: prod.split outcome.split)

lemma never_fails_bnd [succeed]: "never_fails p \<Longrightarrow> (\<And>x. never_fails (q x)) \<Longrightarrow> never_fails (bnd p q)"
  by (auto simp: never_fails_def bnd_Fail_iff)

lemma never_fails_or_else [succeed]: "never_fails q \<Longrightarrow> never_fails (or_else p q)"
  by (auto simp: never_fails_def or_else_def split: prod.split outcome.split)

lemma never_fails_cases [succeed]:
  "never_fails a \<Longrightarrow> never_fails b \<Longrightarrow> never_fails (if c then a else b)"
  "never_fails a \<Longrightarrow> (\<And>y. never_fails (q y)) \<Longrightarrow> never_fails (case x of None \<Rightarrow> a | Some y \<Rightarrow> q y)"
  "(\<And>y z. never_fails (r y z)) \<Longrightarrow> never_fails (case u of (y, z) \<Rightarrow> r y z)"
  "(\<And>y. never_fails (l y)) \<Longrightarrow> never_fails (let y = v in l y)"
  by (simp_all split: option.split prod.split)

lemma never_fails_on_member [succeed]: "never_fails p \<Longrightarrow> never_fails (on_member get put p)"
  by (auto simp: never_fails_def on_member_def split: prod.splits)

lemma never_fails_world [succeed]: "never_fails (get_info i)" "never_fails (set_info i f)"
  by (simp_all add: never_fails_def get_info_def set_info_def)

lemma never_fails_on_elf [succeed]: "never_fails p \<Longrightarrow> never_fails (on_elf k p)"
  by (auto simp: never_fails_def on_elf_def split: prod.split)

lemma never_fails_read_object [succeed]: "never_fails (read_object k)"
  by (auto simp: never_fails_def read_object_def in_world_def on_member_def read_elf_def on_elf_def lift_outcome_def)

lemma never_fails_MapInfo_GetElf [succeed]: "never_fails (MapInfo_GetElf e fs process arch i)"
proof -
  have "never_fails (bnd (set_info i f) (\<lambda>_. bnd (on_elf k (attempt p)) (\<lambda>_. bnd (on_elf k (modify h)) (\<lambda>_. ret k))))" for f k p h
    by (intro succeed)
  then have "never_fails (new_elf e arch mem i)" for mem
    unfolding never_fails_def new_elf_def Let_def by blast
  then show ?thesis
    unfolding MapInfo_GetElf_def CacheAdd_def share_with_prev_def by (intro succeed)
qed

lemma dynamic_loop_fails: "dynamic_loop cls mem fuel max_offset offset v \<noteq> Fail"
  by (induction cls mem fuel max_offset offset v rule: dynamic_loop.induct) (auto simp: dynamic_loop.simps split: nat.split option.split)

lemma never_fails_GetSoname [succeed]: "never_fails (GetSoname e)"
proof -
  have "never_fails (Interface_GetSoname e)"
    using dynamic_loop_fails
    by (auto simp: never_fails_def Interface_GetSoname_def Let_def split: soname_type.split outcome.split sum.split option.split)
  then have "never_fails (on_interface (Interface_GetSoname e))"
    by (auto simp: never_fails_def on_interface_def split: option.split prod.split)
  then show ?thesis
    unfolding GetSoname_def by (intro succeed)
qed

lemma never_fails_FindAndReadVariable [succeed]:
  assumes "\<And>ptr. never_fails (read_data ptr)"
  shows "never_fails (FindAndReadVariable e fs read_data variable)"
proof -
  have "never_fails (FindAndReadVariable_loop e fs read_data variable start maps)" for start maps
  proof (induction maps arbitrary: start)
    case (Cons i maps)
    then show ?case
      unfolding FindAndReadVariable_loop.simps check_map_def GetVariableOffset_def on_world_def on_object_def by (intro succeed Cons assms)
  qed (simp add: succeed del: ret_def)
  then show ?thesis
    unfolding FindAndReadVariable_def by (intro succeed)
qed

lemma never_fails_GetMethodInformation [succeed]: "never_fails (DexFiles_GetMethodInformation e fs dl i dpc)"
proof -
  have dex: "never_fails (GetDexFile e dl a info)" for a info
    by (auto simp: never_fails_def GetDexFile_def split: option.split outcome.split)
  have "never_fails (GetMethodInformation_loop n e dl info dpc index)" for n info index
    by (induction n arbitrary: index; unfold GetMethodInformation_loop.simps; intro succeed dex) assumption+
  moreover have "never_fails (DexFiles_ReadVariableData ptr)" for ptr
    by (simp add: never_fails_def DexFiles_ReadVariableData_def Let_def)
  ultimately show ?thesis
    unfolding DexFiles_GetMethodInformation_def DexFiles_Init_def on_world_def on_object_def by (intro succeed)
qed

section \<open>What a call achieves\<close>

text \<open>Started with \<open>P\<close>, a call returns with \<open>Q\<close> or stops the program.\<close>

definition achieves :: "('s \<Rightarrow> bool) \<Rightarrow> ('s, 'r) prog \<Rightarrow> ('r \<Rightarrow> 's \<Rightarrow> bool) \<Rightarrow> bool" where
  "achieves P p Q \<longleftrightarrow> (\<forall>s. P s \<longrightarrow> yields Q (\<lambda>_. False) p s)"

named_theorems achieve \<open>rules for what a call achieves\<close>

lemma achieves_bnd [achieve]: "achieves P p R \<Longrightarrow> (\<And>x. achieves (R x) (q x) Q) \<Longrightarrow> achieves P (bnd p q) Q"
  unfolding achieves_def by (auto intro: yields_bnd)

lemma achieves_ret: "(\<And>s. P s \<Longrightarrow> Q x s) \<Longrightarrow> achieves P (ret x) Q"
  and achieves_gets: "(\<And>s. P s \<Longrightarrow> Q (g s) s) \<Longrightarrow> achieves P (gets g) Q"
  by (simp_all add: achieves_def yields_def)

lemma achieves_modify: "(\<And>s. P s \<Longrightarrow> Q () (h s)) \<Longrightarrow> achieves P (modify h) Q"
  by (simp add: achieves_def yields_def)

lemmas achieves_basic = achieves_ret achieves_gets achieves_modify

lemma achieves_cases [achieve]:
  "(b \<Longrightarrow> achieves P p Q) \<Longrightarrow> (\<not> b \<Longrightarrow> achieves P q Q) \<Longrightarrow> achieves P (if b then p else q) Q"
  "(x = None \<Longrightarrow> achieves P p Q) \<Longrightarrow> (\<And>y. x = Some y \<Longrightarrow> achieves P (r y) Q) \<Longrightarrow>
     achieves P (case x of None \<Rightarrow> p | Some y \<Rightarrow> r y) Q"
  "(\<And>y z. u = (y, z) \<Longrightarrow> achieves P (t y z) Q) \<Longrightarrow> achieves P (case u of (y, z) \<Rightarrow> t y z) Q"
  by (simp_all split: option.split prod.split)

lemma achieves_weaken: "achieves P' p Q' \<Longrightarrow> (\<And>s. P s \<Longrightarrow> P' s) \<Longrightarrow> (\<And>x s. Q' x s \<Longrightarrow> Q x s) \<Longrightarrow> achieves P p Q"
  by (fastforce simp: achieves_def yields_def split: prod.splits outcome.splits)

lemma achieves_ex: "(\<And>a. achieves (P a) p Q) \<Longrightarrow> achieves (\<lambda>s. \<exists>a. P a s) p Q"
  by (auto simp: achieves_def)

lemma achieves_conj: "(c \<Longrightarrow> achieves P p Q) \<Longrightarrow> achieves (\<lambda>s. P s \<and> c) p Q"
  by (auto simp: achieves_def)

lemma achieves_keeps:
  assumes "keeps f p" and "never_fails p"
  shows "achieves (\<lambda>s. f s = v) p (\<lambda>_ s. f s = v)"
  using assms by (auto simp: achieves_def yields_def never_fails_def dest: keepsD split: prod.splits outcome.splits)

section \<open>The parts of a round\<close>

text \<open>What the frames depend on, and the part that a step leaves alone.\<close>

definition base :: "'d unwinder \<Rightarrow> (nat list \<times> (u64 \<times> u64 \<times> u64 \<times> u16 \<times> u8 list) option list) \<times> nat \<times> frame_data list \<times> u64" where
  "base s = (geometry (u_world s), u_max_frames s, u_frames s, any_pc (u_regs s))"

definition base3 :: "'d unwinder \<Rightarrow> (nat list \<times> (u64 \<times> u64 \<times> u64 \<times> u16 \<times> u8 list) option list) \<times> nat \<times> frame_data list" where
  "base3 s = (geometry (u_world s), u_max_frames s, u_frames s)"

lemma base_in_world [keep]: "keeps geometry p \<Longrightarrow> keeps base (in_world p)"
  unfolding in_world_def by (rule keeps_on_member) (auto simp: base_def dest: keepsD)

lemma base_in_jit [keep]: "keeps (geometry \<circ> snd) p \<Longrightarrow> keeps base (in_jit p)"
  unfolding in_jit_def by (rule keeps_on_member) (force simp: base_def dest: keepsD)

lemma base_in_dex [keep]: "keeps (geometry \<circ> snd) p \<Longrightarrow> keeps base (in_dex p)"
  unfolding in_dex_def by (rule keeps_on_member) (force simp: base_def dest: keepsD)

lemma base_read_object [keep]: "keeps base (read_object k)"
  unfolding read_object_def by (intro keep)

lemma base_set_error [keep]: "keeps base (set_error c)"
  unfolding set_error_def by (intro keep) (simp add: base_def)

lemma base3_base: "keeps base p \<Longrightarrow> keeps base3 p"
  by (rule keepsI) (auto simp: base_def base3_def dest!: keepsD)

lemmas base3_keeps [keep] =
  base3_base [OF base_in_world] base3_base [OF base_read_object] base3_base [OF base_set_error]

lemma never_fails_in [succeed]:
  "never_fails p \<Longrightarrow> never_fails (in_world p)" "never_fails q \<Longrightarrow> never_fails (in_dex q)" "never_fails (set_error c)"
  by (auto simp: in_world_def in_dex_def set_error_def succeed)

lemma any_pc_set_dex_pc [simp]: "any_pc (any_set_dex_pc v r) = any_pc r"
  by (cases r) (simp_all add: reg_pc_def set_dex_pc_def)

lemma GetPcAdjustment_le_8: "GetPcAdjustment arch rel_pc elf \<le> 8"
  by (cases arch) (auto simp: GetPcAdjustment_def RegsArm_GetPcAdjustment_def RegsArm64_GetPcAdjustment_def RegsX86_GetPcAdjustment_def
      RegsX86_64_GetPcAdjustment_def RegsMips_GetPcAdjustment_def RegsMips64_GetPcAdjustment_def Let_def split: option.split)

text \<open>The map of a frame is the one in which \<^verbatim>\<open>Find\<close> finds its pc, before the adjustment.\<close>

definition fits :: "world \<Rightarrow> u64 \<Rightarrow> frame_data \<Rightarrow> bool" where
  "fits w adjustment f \<longleftrightarrow>
     (case Find (fr_pc f + adjustment) w of
        None \<Rightarrow> adjustment = 0 \<and> fr_map_start f = 0 \<and> fr_map_end f = 0
      | Some i \<Rightarrow>
          fr_map_start f = mi_start (info_of w i) \<and> fr_map_end f = mi_end (info_of w i) \<and>
          fr_map_exact_offset f = mi_offset (info_of w i) \<and> fr_map_flags f = uint (mi_flags (info_of w i)))"

definition target_ok :: "world \<Rightarrow> u64 \<Rightarrow> round_target \<Rightarrow> bool" where
  "target_ok w pc rt \<longleftrightarrow>
     rt_adjustment rt \<le> 8 \<and> map_option fst (rt_target rt) = Find pc w \<and> (rt_target rt = None \<longrightarrow> rt_adjustment rt = 0)"

lemma get_info_geometry:
  "achieves (\<lambda>s. base s = (geometry w, v)) (in_world (get_info i))
     (\<lambda>info s. base s = (geometry w, v) \<and> map_geometry info = map_geometry (info_of w i))"
  by (auto simp: achieves_def yields_def in_world_def on_member_def get_info_def base_def intro: geometry_info)

lemma achieves_keeps_bnd:
  "keeps f p \<Longrightarrow> never_fails p \<Longrightarrow> (\<And>x. achieves (\<lambda>s. f s = v) (q x) Q) \<Longrightarrow> achieves (\<lambda>s. f s = v) (bnd p q) Q"
  by (rule achieves_bnd [OF achieves_keeps])

lemma jit_target_ok:
  assumes "rt_adjustment rt \<le> 8" and "rt_target rt = Some (i, k)"
  shows "achieves (\<lambda>s. base s = v) (jit_target e fs i pc' rt)
    (\<lambda>rt s. base s = v \<and> rt_adjustment rt \<le> 8 \<and> (\<exists>k. rt_target rt = Some (i, k)))"
  unfolding jit_target_def
  by (intro achieves_keeps_bnd keep succeed achieves_basic) (use assms in \<open>auto split: option.split\<close>)

lemma elf_target_ok:
  "achieves (\<lambda>s. base s = v) (elf_target e fs adjust_pc i)
    (\<lambda>rt s. base s = v \<and> rt_adjustment rt \<le> 8 \<and> (\<exists>k. rt_target rt = Some (i, k)))"
  unfolding elf_target_def Let_def
  by (intro achieves_keeps_bnd keep succeed achieves_cases jit_target_ok achieves_basic)
    (auto simp: base_def GetPcAdjustment_le_8)

lemma locate_target:
  "achieves (\<lambda>s. base s = (geometry w, m, l, pc)) (locate e fs suffixes adjust_pc)
     (\<lambda>located s. base s = (geometry w, m, l, pc) \<and> (\<forall>rt. located = Some rt \<longrightarrow> target_ok w pc rt))"
proof -
  let ?P = "\<lambda>s. base s = (geometry w, m, l, pc)"
  have "achieves ?P (elf_target e fs adjust_pc i) (\<lambda>rt s. ?P s \<and> target_ok w pc rt)" if "Find pc w = Some i" for i
    using that by (intro achieves_weaken [OF elf_target_ok [of "(geometry w, m, l, pc)"]]) (auto simp: target_ok_def)
  then have some: "achieves ?P (bnd (elf_target e fs adjust_pc i) (\<lambda>rt. ret (Some rt)))
      (\<lambda>located s. ?P s \<and> (\<forall>rt. located = Some rt \<longrightarrow> target_ok w pc rt))" if "Find pc w = Some i" for i
    using that by (intro achieves_bnd achieves_ret) auto
  have start: "achieves ?P (gets (\<lambda>s. (any_pc (u_regs s), Find (any_pc (u_regs s)) (u_world s))))
      (\<lambda>x s. ?P s \<and> x = (pc, Find pc w))"
    by (intro achieves_gets) (auto simp: base_def intro: Find_geometry)
  show ?thesis
    unfolding locate_def
  proof (intro achieves_bnd [OF start] achieves_conj)
    fix x
    assume x: "x = (pc, Find pc w)"
    show "achieves ?P (case x of (pc, map_ptr) \<Rightarrow> case map_ptr of
         None \<Rightarrow> bnd (set_error ERROR_INVALID_MAP) (\<lambda>_. ret (Some \<lparr>rt_target = None, rt_rel_pc = pc, rt_step_pc = pc, rt_adjustment = 0\<rparr>))
       | Some i \<Rightarrow> bnd (in_world (get_info i)) (\<lambda>info. if ShouldStop suffixes (mi_name info) then ret None
           else bnd (elf_target e fs adjust_pc i) (\<lambda>rt. ret (Some rt))))
       (\<lambda>located s. ?P s \<and> (\<forall>rt. located = Some rt \<longrightarrow> target_ok w pc rt))"
    proof (cases "Find pc w")
      case None
      then show ?thesis
        unfolding x by simp (intro achieves_keeps_bnd keep succeed achieves_ret, simp add: target_ok_def)
    next
      case (Some i)
      show ?thesis
        unfolding x Some prod.case option.case
        by (intro achieves_keeps_bnd keep succeed achieves_cases some [OF Some] achieves_ret) simp
    qed
  qed
qed

text \<open>A last frame has been added.\<close>

definition ends ::
    "world \<Rightarrow> nat \<Rightarrow> frame_data list \<Rightarrow> u64 \<Rightarrow> (frame_data \<Rightarrow> bool) \<Rightarrow> 'd unwinder \<Rightarrow> bool" where
  "ends w m l pc F s \<longleftrightarrow> (\<exists>f. base s = (geometry w, m, l @ [f], pc) \<and> fr_num f = length l \<and> F f)"

lemma ends_push:
  assumes "\<And>f. fr_pc f = b \<Longrightarrow> fr_map_start f = 0 \<Longrightarrow> fr_map_end f = 0 \<Longrightarrow> F f"
  shows "base s = (geometry w, m, l, pc) \<Longrightarrow> ends w m l pc F (push_frame a b sp s)"
  using assms by (simp add: ends_def base_def push_frame_def)

lemma ends_on_last:
  assumes "\<And>f. F f \<Longrightarrow> G (h f)" and "\<And>f. fr_num (h f) = fr_num f"
  shows "achieves (ends w m l pc F) (modify (on_last h)) (\<lambda>_. ends w m l pc G)"
  using assms by (intro achieves_modify) (auto simp: ends_def base_def on_last_def)

lemma ends_keeps:
  assumes "keeps base p" and "never_fails p"
  shows "achieves (ends w m l pc F) p (\<lambda>_. ends w m l pc F)"
  using assms by (force simp: achieves_def yields_def never_fails_def ends_def dest: keepsD split: prod.splits outcome.splits)

lemma fits_set_map:
  assumes "Find (fr_pc f + adjustment) w = Some i" and "map_geometry info = map_geometry (info_of w i)"
  shows "fits w adjustment (set_map info name bias f)"
  using assms by (simp add: fits_def set_map_def map_geometry_def)

lemma fits_name [simp]: "fits w a (f\<lparr>fr_function_name := n, fr_function_offset := b\<rparr>) = fits w a f"
  by (simp add: fits_def split: option.split)

lemma FillInDexFrame_fits:
  "achieves (\<lambda>s. base s = (geometry w, m, l, pc)) (FillInDexFrame e fs dl) (\<lambda>_. ends w m l pc (fits w 0))"
proof -
  let ?P = "\<lambda>s :: 'a unwinder. base s = (geometry w, m, l, pc)"
  have start: "achieves ?P (gets id) (\<lambda>x s. ?P s \<and> geometry (u_world x) = geometry w)"
    by (intro achieves_gets) (simp add: base_def)
  show ?thesis
    unfolding FillInDexFrame_def Let_def
  proof (intro achieves_bnd [OF start] achieves_conj achieves_cases)
    fix x :: "'a unwinder"
    let ?dpc = "any_dex_pc (u_regs x)"
    assume x: "geometry (u_world x) = geometry w"
    note find = Find_geometry [OF x, of ?dpc]
    show "achieves ?P (modify (push_frame ?dpc ?dpc (any_sp (u_regs x)))) (\<lambda>_. ends w m l pc (fits w 0))"
      if "Find ?dpc (u_world x) = None"
      using that find by (intro achieves_modify ends_push) (simp_all add: fits_def)
    fix i
    assume i: "Find ?dpc (u_world x) = Some i"
    show "achieves ?P (bnd (in_world (get_info i)) (\<lambda>info.
         bnd (modify (push_frame (?dpc - mi_start info) ?dpc (any_sp (u_regs x)))) (\<lambda>_.
         bnd (modify (on_last (set_map info (if u_resolve_names x then mi_name info else []) (mi_load_bias info)))) (\<lambda>_.
         if \<not> u_resolve_names x \<or> u_dex_files x = None then ret ()
         else bnd (in_dex (DexFiles_GetMethodInformation e fs dl i ?dpc)) (\<lambda>found. case found of
             None \<Rightarrow> ret ()
           | Some (name, offset) \<Rightarrow> modify (on_last (\<lambda>f. f\<lparr>fr_function_name := name, fr_function_offset := offset\<rparr>)))))))
       (\<lambda>_. ends w m l pc (fits w 0))"
    proof (intro achieves_bnd [OF get_info_geometry] achieves_conj)
      fix info
      assume info: "map_geometry info = map_geometry (info_of w i)"
      have push: "achieves ?P (modify (push_frame (?dpc - mi_start info) ?dpc (any_sp (u_regs x)))) (\<lambda>_. ends w m l pc (\<lambda>f. fr_pc f = ?dpc))"
        by (intro achieves_modify ends_push) simp_all
      have set: "achieves (ends w m l pc (\<lambda>f. fr_pc f = ?dpc)) (modify (on_last (set_map info n b))) (\<lambda>_. ends w m l pc (fits w 0))" for n b
        using i find info by (intro ends_on_last fits_set_map) (simp_all add: set_map_def)
      have name: "achieves (ends w m l pc (fits w 0)) (modify (on_last (\<lambda>f. f\<lparr>fr_function_name := n, fr_function_offset := b\<rparr>)))
          (\<lambda>_. ends w m l pc (fits w 0))" for n b
        by (intro ends_on_last) simp_all
      show "achieves ?P (bnd (modify (push_frame (?dpc - mi_start info) ?dpc (any_sp (u_regs x)))) (\<lambda>_.
         bnd (modify (on_last (set_map info (if u_resolve_names x then mi_name info else []) (mi_load_bias info)))) (\<lambda>_.
         if \<not> u_resolve_names x \<or> u_dex_files x = None then ret ()
         else bnd (in_dex (DexFiles_GetMethodInformation e fs dl i ?dpc)) (\<lambda>found. case found of
             None \<Rightarrow> ret ()
           | Some (name, offset) \<Rightarrow> modify (on_last (\<lambda>f. f\<lparr>fr_function_name := name, fr_function_offset := offset\<rparr>))))))
         (\<lambda>_. ends w m l pc (fits w 0))"
        by (intro achieves_bnd [OF push] achieves_bnd [OF set] achieves_cases achieves_ret achieves_bnd [OF ends_keeps] name keep succeed)
    qed
  qed
qed

lemma FillInFrame_fits:
  assumes "target_ok w pc rt"
  shows "achieves (\<lambda>s. base s = (geometry w, m, l, pc)) (FillInFrame e (rt_target rt) (rt_rel_pc rt) (rt_adjustment rt))
    (\<lambda>framed s. ends w m l pc (fits w (rt_adjustment rt)) s)"
proof -
  let ?P = "\<lambda>s :: 'a unwinder. base s = (geometry w, m, l, pc)"
  let ?F = "\<lambda>f. fr_pc f + rt_adjustment rt = pc \<and> fr_map_start f = 0 \<and> fr_map_end f = 0"
  have push: "achieves ?P (modify (\<lambda>s. push_frame (rt_rel_pc rt - rt_adjustment rt) (any_pc (u_regs s) - rt_adjustment rt)
      (any_sp (u_regs s)) s)) (\<lambda>_. ends w m l pc ?F)"
    by (intro achieves_modify ends_push) (auto simp: base_def)
  have info: "achieves (ends w m l pc ?F) (in_world (get_info i))
      (\<lambda>info s. ends w m l pc ?F s \<and> map_geometry info = map_geometry (info_of w i))" for i
    by (auto simp: achieves_def yields_def in_world_def on_member_def get_info_def ends_def base_def intro: geometry_info)
  have name: "achieves (ends w m l pc ?F) (frame_map_name e info k) (\<lambda>_. ends w m l pc ?F)" for info k
    unfolding frame_map_name_def by (intro ends_keeps keep succeed)
  have set: "achieves (ends w m l pc ?F) (modify (on_last (set_map info n b))) (\<lambda>_. ends w m l pc (fits w (rt_adjustment rt)))"
    if "map_geometry info = map_geometry (info_of w i)" "rt_target rt = Some (i, k)" for info i k n b
    using assms that by (intro ends_on_last fits_set_map [OF _ that(1)]) (auto simp: set_map_def target_ok_def)
  have none: "ends w m l pc (fits w (rt_adjustment rt)) s" if "ends w m l pc ?F s" "rt_target rt = None" for s :: "'a unwinder"
    using assms that by (auto simp: ends_def target_ok_def fits_def)
  show ?thesis
    unfolding FillInFrame_def
    by (intro achieves_bnd [OF push] achieves_cases achieves_bnd [OF info] achieves_conj achieves_bnd [OF name]
        achieves_bnd [OF ends_keeps [OF base_read_object never_fails_read_object]] achieves_bnd [OF set] achieves_ret) (auto intro: none)
qed

section \<open>A round\<close>

definition frame_ok :: "world \<Rightarrow> frame_data \<Rightarrow> bool" where
  "frame_ok w f \<longleftrightarrow> (\<exists>adjustment \<le> 8. fits w adjustment f)"

lemma frame_okI: "fits w adjustment f \<Longrightarrow> adjustment \<le> 8 \<Longrightarrow> frame_ok w f"
  and frame_ok_exact: "fits w 0 f \<Longrightarrow> frame_ok w f"
  by (auto simp: frame_ok_def intro: exI [of _ 0])

definition good_frames :: "world \<Rightarrow> nat \<Rightarrow> frame_data list \<Rightarrow> bool" where
  "good_frames w m l \<longleftrightarrow> length l \<le> m \<and> map fr_num l = [0..<length l] \<and> list_all (frame_ok w) l"

lemma good_frames_snoc:
  "good_frames w m (l @ [f]) \<longleftrightarrow> good_frames w m l \<and> length l < m \<and> fr_num f = length l \<and> frame_ok w f"
  by (auto simp: good_frames_def)

lemma good_frames_butlast: "good_frames w m l \<Longrightarrow> good_frames w m (butlast l)"
  by (cases l rule: rev_cases) (simp_all add: good_frames_snoc)

text \<open>After \<open>n\<close> or more frames.\<close>

definition good :: "world \<Rightarrow> nat \<Rightarrow> nat \<Rightarrow> 'd unwinder \<Rightarrow> bool" where
  "good w m n s \<longleftrightarrow>
     geometry (u_world s) = geometry w \<and> u_max_frames s = m \<and> good_frames w m (u_frames s) \<and> n \<le> length (u_frames s)"

text \<open>If there is a frame with a map, it is the last one.\<close>

definition framed_ok :: "world \<Rightarrow> bool \<Rightarrow> round_target \<Rightarrow> 'd unwinder \<Rightarrow> bool" where
  "framed_ok w framed rt s \<longleftrightarrow> (framed \<longrightarrow> u_frames s \<noteq> [] \<and> fits w (rt_adjustment rt) (last (u_frames s)))"

lemma add_frames_good:
  assumes "good_frames w m l" and "length l < m" and "target_ok w pc rt"
  shows "achieves (\<lambda>s. base s = (geometry w, m, l, pc)) (add_frames e fs dl names rt)
    (\<lambda>added s. good w m (case added of Some (_, None) \<Rightarrow> length l + 1 | _ \<Rightarrow> length l) s \<and>
      (\<forall>framed names'. added = Some (framed, names') \<longrightarrow> framed_ok w framed rt s \<and> (names = None \<longrightarrow> names' = None)))"
proof -
  let ?P = "\<lambda>l (s :: 'a unwinder). base s = (geometry w, m, l, pc)"
  let ?Q = "\<lambda>added (s :: 'a unwinder). good w m (case added of Some (_, None) \<Rightarrow> length l + 1 | _ \<Rightarrow> length l) s \<and>
      (\<forall>framed names'. added = Some (framed, names') \<longrightarrow> framed_ok w framed rt s \<and> (names = None \<longrightarrow> names' = None))"
  have left_out: "achieves (?P l) (skipped names (rt_target rt)) (\<lambda>x s. ?P l s \<and> (x \<longrightarrow> names \<noteq> None))"
  proof (cases names)
    case None
    then show ?thesis
      by (simp add: skipped_def achieves_def yields_def)
  next
    case (Some ns)
    have "achieves (?P l) (skipped names (rt_target rt)) (\<lambda>x s. ?P l s)"
      unfolding skipped_def Some prod.case option.case by (intro achieves_keeps keep succeed)
    then show ?thesis
      using Some by (auto intro: achieves_weaken)
  qed
  have fill: "achieves (?P l') (bnd (FillInFrame e (rt_target rt) (rt_rel_pc rt) (rt_adjustment rt)) (\<lambda>framed. ret (Some (framed, None)))) ?Q"
    if "good_frames w m l'" "length l' < m" "length l \<le> length l'" for l'
  proof (intro achieves_bnd [OF FillInFrame_fits [OF assms(3)]] achieves_ret)
    fix framed and s :: "'a unwinder"
    assume "ends w m l' pc (fits w (rt_adjustment rt)) s"
    then show "?Q (Some (framed, None)) s"
      using that assms(3) by (auto simp: ends_def good_def base_def good_frames_snoc target_ok_def framed_ok_def intro: frame_okI frame_ok_exact)
  qed
  have dex: "achieves (?P l) (bnd (FillInDexFrame e fs dl) (\<lambda>_. bnd (modify (\<lambda>s. s\<lparr>u_regs := any_set_dex_pc 0 (u_regs s)\<rparr>)) (\<lambda>_.
              gets (\<lambda>s. length (u_frames s) = u_max_frames s))))
      (\<lambda>full s. \<exists>l'. ?P l' s \<and> good_frames w m l' \<and> length l \<le> length l' \<and> (full \<longleftrightarrow> length l' = m))"
  proof (intro achieves_bnd [OF FillInDexFrame_fits] achieves_bnd [OF achieves_modify [where Q = "\<lambda>_. ends w m l pc (fits w 0)"]] achieves_gets)
    show "ends w m l pc (fits w 0) (s\<lparr>u_regs := any_set_dex_pc 0 (u_regs s)\<rparr>)" if "ends w m l pc (fits w 0) s" for s :: "'a unwinder"
      using that by (auto simp: ends_def base_def)
    show "\<exists>l'. ?P l' s \<and> good_frames w m l' \<and> length l \<le> length l' \<and> ((length (u_frames s) = u_max_frames s) \<longleftrightarrow> length l' = m)"
      if "ends w m l pc (fits w 0) s" for s :: "'a unwinder"
      using that assms(1,2) by (force simp: ends_def base_def good_frames_snoc intro: frame_ok_exact)
  qed
  have error: "achieves (?P l') (bnd (set_error c) (\<lambda>_. ret None)) ?Q" if "good_frames w m l'" "length l \<le> length l'" for l' c
    using that by (intro achieves_keeps_bnd keep succeed achieves_ret) (auto simp: good_def base_def)
  let ?R = "\<lambda>full s. \<exists>l'. ?P l' s \<and> good_frames w m l' \<and> length l \<le> length l' \<and> (full \<longleftrightarrow> length l' = m)"
  have room: "achieves (?P l) (if d then bnd (FillInDexFrame e fs dl) (\<lambda>_. bnd (modify (\<lambda>s. s\<lparr>u_regs := any_set_dex_pc 0 (u_regs s)\<rparr>)) (\<lambda>_.
              gets (\<lambda>s. length (u_frames s) = u_max_frames s))) else ret False) ?R" for d
    using assms(1,2) by (intro achieves_cases dex achieves_ret) auto
  have "achieves (?R full) (if full then bnd (set_error ERROR_MAX_FRAMES_EXCEEDED) (\<lambda>_. ret None)
      else bnd (FillInFrame e (rt_target rt) (rt_rel_pc rt) (rt_adjustment rt)) (\<lambda>framed. ret (Some (framed, None)))) ?Q" for full
    by (intro achieves_ex achieves_conj achieves_cases error fill) (auto simp: good_frames_def)
  note rest = achieves_bnd [OF room this]
  show ?thesis
    unfolding add_frames_def
  proof (intro achieves_bnd [OF left_out] achieves_conj)
    fix x
    assume "x \<longrightarrow> names \<noteq> None"
    then show "achieves (?P l) (if x then ret (Some (False, names)) else bnd (gets (any_dex_pc \<circ> u_regs)) (\<lambda>dpc.
       bnd (if dpc \<noteq> 0 then bnd (FillInDexFrame e fs dl) (\<lambda>_. bnd (modify (\<lambda>s. s\<lparr>u_regs := any_set_dex_pc 0 (u_regs s)\<rparr>)) (\<lambda>_.
              gets (\<lambda>s. length (u_frames s) = u_max_frames s))) else ret False) (\<lambda>full.
       if full then bnd (set_error ERROR_MAX_FRAMES_EXCEEDED) (\<lambda>_. ret None)
       else bnd (FillInFrame e (rt_target rt) (rt_rel_pc rt) (rt_adjustment rt)) (\<lambda>framed. ret (Some (framed, None)))))) ?Q"
      using assms(1) by (intro achieves_cases achieves_ret achieves_keeps_bnd keep succeed rest) (auto simp: good_def base_def framed_ok_def)
  qed
qed

text \<open>The rest of a round depends on the frames and the maps only.\<close>

definition stepping :: "world \<Rightarrow> nat \<Rightarrow> nat \<Rightarrow> bool \<Rightarrow> round_target \<Rightarrow> 'd unwinder \<Rightarrow> bool" where
  "stepping w m n framed rt s \<longleftrightarrow> good w m n s \<and> framed_ok w framed rt s"

definition stepped :: "world \<Rightarrow> nat \<Rightarrow> nat \<Rightarrow> bool \<Rightarrow> 'd unwinder \<Rightarrow> bool" where
  "stepped w m n framed s \<longleftrightarrow> good w m n s \<and> (framed \<longrightarrow> u_frames s \<noteq> [])"

lemma stepping_base3: "base3 t = base3 s \<Longrightarrow> stepping w m n framed rt s \<Longrightarrow> stepping w m n framed rt t"
  and stepped_base3: "base3 t = base3 s \<Longrightarrow> stepped w m n framed s \<Longrightarrow> stepped w m n framed t"
  and good_base3: "base3 t = base3 s \<Longrightarrow> good w m n s \<Longrightarrow> good w m n t"
  by (auto simp: stepping_def stepped_def good_def framed_ok_def base3_def)

lemma stepping_stepped: "stepping w m n framed rt s \<Longrightarrow> stepped w m n framed s"
  by (simp add: stepping_def stepped_def framed_ok_def)

lemma achieves_base3:
  assumes "keeps base3 p" and "never_fails p" and "\<And>s t. base3 t = base3 s \<Longrightarrow> P s \<Longrightarrow> P t"
  shows "achieves P p (\<lambda>_. P)"
  using assms(2) keepsD [OF assms(1)] assms(3)
  by (auto simp: achieves_def yields_def never_fails_def split: prod.splits outcome.splits)

lemma stepped_on_last:
  assumes "stepped w m n True s" and "frame_ok w (h (last (u_frames s)))" and "fr_num (h (last (u_frames s))) = fr_num (last (u_frames s))"
  shows "stepped w m n True (on_last h s)"
  using assms by (cases "u_frames s" rule: rev_cases) (auto simp: stepped_def good_def good_frames_snoc on_last_def)

lemma signal_step_base3 [keep]: "keeps base3 (signal_step e k rel_pc)"
  and elf_step_base3 [keep]: "keeps base3 (elf_step e k step_pc)"
proof -
  have "keeps base3 (\<lambda>s. case Elf_StepIfSignalHandler e rel_pc (u_memory s) obj (u_regs s) of (x, r) \<Rightarrow> (Ok x, s\<lparr>u_regs := r\<rparr>))" for obj
    by (simp add: keeps_def base3_def split: prod.split)
  then show "keeps base3 (signal_step e k rel_pc)"
    unfolding signal_step_def by (intro keeps_bnd base3_keeps)
  have "keeps base3 (\<lambda>s. case Elf_Step e step_pc (u_memory s) (obj, u_regs s) of
       (x, obj', r) \<Rightarrow> (x, s\<lparr>u_regs := r, u_world := (u_world s)\<lparr>w_elfs := (w_elfs (u_world s))[k := obj']\<rparr>\<rparr>))" for obj
    by (simp add: keeps_def base3_def split: prod.split)
  then show "keeps base3 (elf_step e k step_pc)"
    unfolding elf_step_def by (intro keeps_bnd base3_keeps)
qed

lemma never_fails_signal_step [succeed]: "never_fails (signal_step e k rel_pc)"
proof -
  have "never_fails (\<lambda>s. case Elf_StepIfSignalHandler e rel_pc (u_memory s) obj (u_regs s) of (x, r) \<Rightarrow> (Ok x, s\<lparr>u_regs := r\<rparr>))" for obj
    by (simp add: never_fails_def split: prod.split)
  then show ?thesis
    unfolding signal_step_def by (intro succeed)
qed

lemma take_step_good:
  "achieves (stepping w m n framed rt) (take_step e k framed rt) (\<lambda>_. stepped w m n framed)"
proof -
  let ?P = "stepping w m n framed rt :: 'a unwinder \<Rightarrow> bool" and ?Q = "stepped w m n framed :: 'a unwinder \<Rightarrow> bool"
  have signal: "achieves ?P (signal_step e k (rt_rel_pc rt)) (\<lambda>_. ?P)"
    by (intro achieves_base3 keep succeed) (rule stepping_base3)
  have attempted: "achieves ?P (attempt (elf_step e k (rt_step_pc rt))) (\<lambda>_. ?P)"
    by (intro achieves_base3 keep succeed) (rule stepping_base3)
  have fix_frame: "achieves ?P (modify (on_last (\<lambda>f. f\<lparr>fr_rel_pc := rt_rel_pc rt, fr_pc := fr_pc f + rt_adjustment rt\<rparr>))) (\<lambda>_. ?Q)"
    if framed
  proof (rule achieves_modify)
    fix s :: "'a unwinder"
    assume s: "?P s"
    then have "fits w 0 ((last (u_frames s))\<lparr>fr_rel_pc := rt_rel_pc rt, fr_pc := fr_pc (last (u_frames s)) + rt_adjustment rt\<rparr>)"
      using that by (auto simp: stepping_def framed_ok_def fits_def split: option.splits)
    then show "?Q (on_last (\<lambda>f. f\<lparr>fr_rel_pc := rt_rel_pc rt, fr_pc := fr_pc f + rt_adjustment rt\<rparr>) s)"
      using stepping_stepped [OF s] that by (auto intro!: stepped_on_last frame_ok_exact)
  qed
  have finish: "achieves ?Q (bnd (read_object k) (\<lambda>obj. bnd (modify (\<lambda>s. s\<lparr>u_last_error := GetLastError obj (u_last_error s)\<rparr>)) (\<lambda>_. ret rs))) (\<lambda>_. ?Q)"
    for rs :: round_step
    by (intro achieves_base3 keep succeed) (simp add: base3_def, rule stepped_base3)
  show ?thesis
    unfolding take_step_def
    by (intro achieves_bnd [OF signal] achieves_bnd [OF _ finish] achieves_cases achieves_bnd [OF fix_frame] achieves_bnd [OF attempted] achieves_ret)
      (auto intro: stepping_stepped)
qed

lemma is_device_base3 [keep]: "keeps base3 (is_device map_ptr)"
  unfolding is_device_def by (intro keep)

lemma never_fails_is_device [succeed]: "never_fails (is_device map_ptr)"
  unfolding is_device_def by (intro succeed)

lemma step_round_good:
  "achieves (stepping w m n framed rt) (step_round e framed rt) (\<lambda>_. stepped w m n framed)"
proof -
  have device: "achieves (stepping w m n framed rt) (is_device map_ptr) (\<lambda>_. stepping w m n framed rt)" for map_ptr
    by (intro achieves_base3 keep succeed) (rule stepping_base3)
  have stack: "achieves (stepping w m n framed rt)
      (if b then ret True else bnd (gets (\<lambda>s. Find (any_sp (u_regs s)) (u_world s))) is_device) (\<lambda>_. stepping w m n framed rt)" for b
    by (intro achieves_base3 keep succeed) (rule stepping_base3)
  show ?thesis
    unfolding step_round_def Let_def
    by (intro achieves_cases achieves_bnd [OF device] achieves_bnd [OF stack] achieves_ret take_step_good) (auto intro: stepping_stepped)
qed

lemma name_frame_good:
  "achieves (stepped w m n framed) (name_frame e framed target step_pc) (\<lambda>_. good w m n)"
proof -
  have modify_name: "achieves (stepped w m n framed :: 'a unwinder \<Rightarrow> bool) (modify (on_last (\<lambda>f. case found of
      None \<Rightarrow> f\<lparr>fr_function_name := [], fr_function_offset := 0\<rparr>
    | Some (name, offset) \<Rightarrow> f\<lparr>fr_function_name := name, fr_function_offset := offset\<rparr>))) (\<lambda>_. good w m n)" if framed for found
  proof (rule achieves_modify)
    fix s :: "'a unwinder"
    assume "stepped w m n framed s"
    then show "good w m n (on_last (\<lambda>f. case found of
        None \<Rightarrow> f\<lparr>fr_function_name := [], fr_function_offset := 0\<rparr>
      | Some (name, offset) \<Rightarrow> f\<lparr>fr_function_name := name, fr_function_offset := offset\<rparr>) s)"
      using that by (cases "u_frames s" rule: rev_cases)
        (auto simp: stepped_def good_def good_frames_snoc on_last_def frame_ok_def split: option.split)
  qed
  have resolve: "achieves (stepped w m n framed) (gets u_resolve_names) (\<lambda>_. stepped w m n framed)"
    by (intro achieves_gets)
  have find: "achieves (stepped w m n framed) (if r then attempt (in_world (on_elf k (Elf_GetFunctionName e step_pc))) else ret None)
      (\<lambda>_. stepped w m n framed)" for r k
    by (intro achieves_base3 keep succeed) (rule stepped_base3)
  show ?thesis
    unfolding name_frame_def
    by (intro achieves_cases achieves_ret achieves_bnd [OF resolve] achieves_bnd [OF find] modify_name) (auto simp: stepped_def)
qed

lemma check_progress_good:
  "achieves (good w m n) (check_progress pc0 sp0 vars) (\<lambda>v s. good w m n s \<and> v \<in> {None, Some vars})"
proof -
  have error: "achieves (good w m n) (set_error c) (\<lambda>_. good w m n)" for c
    by (intro achieves_base3 keep succeed) (rule good_base3)
  have test: "achieves (good w m n) (gets b) (\<lambda>_. good w m n)" for b :: "'a unwinder \<Rightarrow> bool"
    by (intro achieves_gets)
  show ?thesis
    unfolding check_progress_def by (intro achieves_bnd [OF test] achieves_cases achieves_bnd [OF error] achieves_ret) auto
qed

lemma good_weaken: "good w m n s \<Longrightarrow> good w m 0 s"
  by (simp add: good_def)

lemma remove_speculative_good: "good w m n s \<Longrightarrow> good w m 0 (remove_speculative s)"
  by (simp add: remove_speculative_def good_def good_frames_butlast)

lemma end_round_good:
  "achieves (good w m n) (end_round pc0 sp0 attempted names rs)
    (\<lambda>v s. good w m (if v = None then 0 else n) s \<and> (\<forall>x. v = Some x \<longrightarrow> fst x = names))"
proof -
  let ?Q = "\<lambda>v s. good w m (if v = None then 0 else n) s \<and> (\<forall>x. v = Some x \<longrightarrow> fst x = names)"
  have progress: "achieves (good w m n) (check_progress pc0 sp0 (names, a, b)) ?Q" for a b
    by (rule achieves_weaken [OF check_progress_good]) (auto intro: good_weaken)
  have return: "achieves (good w m n) (\<lambda>s. case SetPcFromReturnAddress (u_memory s) (u_regs s) of (changed, r) \<Rightarrow> (Ok changed, s\<lparr>u_regs := r\<rparr>))
      (\<lambda>_. good w m n)"
    by (auto simp: achieves_def yields_def good_def split: prod.split)
  have full: "achieves (good w m n) (gets b) (\<lambda>_. good w m n)" for b :: "'a unwinder \<Rightarrow> bool"
    by (intro achieves_gets)
  have error: "achieves (good w m n) (if b then set_error c else ret ()) (\<lambda>_. good w m n)" for b c
    by (intro achieves_base3 keep succeed) (rule good_base3)
  have remove: "achieves (good w m n) (modify remove_speculative) (\<lambda>_. good w m 0)"
    by (intro achieves_modify) (rule remove_speculative_good)
  show ?thesis
    unfolding end_round_def
    by (intro achieves_cases achieves_bnd [OF remove] achieves_bnd [OF return] achieves_bnd [OF full] achieves_bnd [OF error] progress achieves_ret)
      (auto intro: good_weaken)
qed

lemma unwind_round_good:
  assumes "good w m n s" and "n < m" and "length (u_frames s) = n"
  shows "yields (\<lambda>v t. good w m 0 t \<and> (names = None \<longrightarrow> (\<forall>x. v = Some x \<longrightarrow> fst x = None \<and> n < length (u_frames t)))) (\<lambda>_. False)
    (unwind_round e fs dl suffixes (names, attempted, adjust_pc)) s"
proof -
  let ?l = "u_frames s" and ?pc = "any_pc (u_regs s)"
  let ?Q = "\<lambda>v t. good w m 0 t \<and> (names = None \<longrightarrow> (\<forall>x. v = Some x \<longrightarrow> fst x = None \<and> n < length (u_frames t)))"
  let ?P = "\<lambda>s :: 'a unwinder. base s = (geometry w, m, ?l, ?pc)"
  have l: "good_frames w m ?l" "length ?l < m"
    using assms by (simp_all add: good_def)
  have finish: "achieves (good w m k) (end_round pc0 sp0 attempted names' rs) ?Q"
    if "names = None \<longrightarrow> names' = None \<and> k = n + 1" for k pc0 sp0 names' rs
    by (rule achieves_weaken [OF end_round_good]) (use that in \<open>auto simp: good_def\<close>)
  have step: "achieves (\<lambda>t. good w m (case added of Some (_, None) \<Rightarrow> length ?l + 1 | _ \<Rightarrow> length ?l) t \<and>
        (\<forall>framed names'. added = Some (framed, names') \<longrightarrow> framed_ok w framed rt t \<and> (names = None \<longrightarrow> names' = None)))
      (case added of None \<Rightarrow> ret None | Some (framed, names) \<Rightarrow>
             bnd (step_round e framed rt) (\<lambda>rs.
             bnd (name_frame e framed (rt_target rt) (rs_step_pc rs)) (\<lambda>_.
             end_round pc0 sp0 attempted names rs))) ?Q" for added rt pc0 sp0
  proof (cases added)
    case None
    then show ?thesis
      by (auto intro!: achieves_ret intro: good_weaken)
  next
    case (Some a)
    obtain framed names' where a: "a = (framed, names')"
      by fastforce
    let ?k = "case names' of None \<Rightarrow> n + 1 | _ \<Rightarrow> n"
    have "achieves (stepping w m ?k framed rt) (bnd (step_round e framed rt) (\<lambda>rs.
             bnd (name_frame e framed (rt_target rt) (rs_step_pc rs)) (\<lambda>_. end_round pc0 sp0 attempted names' rs))) ?Q"
      if "names = None \<longrightarrow> names' = None"
      using that by (intro achieves_bnd [OF step_round_good] achieves_bnd [OF name_frame_good] finish) auto
    then show ?thesis
      unfolding Some a by (auto simp: achieves_def stepping_def assms(3) split: option.splits)
  qed
  have start: "achieves ?P (gets (\<lambda>s. (any_pc (u_regs s), any_sp (u_regs s)))) (\<lambda>_. ?P)"
    by (intro achieves_gets)
  have ok: "?Q None t" if "?P t" for t
    using that l by (simp add: good_def base_def)
  have "achieves ?P (unwind_round e fs dl suffixes (names, attempted, adjust_pc)) ?Q"
    unfolding unwind_round_def prod.case
    by (intro achieves_bnd [OF start] achieves_cases achieves_bnd [OF locate_target] achieves_conj achieves_ret ok
        achieves_bnd [OF add_frames_good step] l) auto
  moreover have "?P s"
    using assms(1) by (simp add: good_def base_def)
  ultimately show ?thesis
    by (auto simp: achieves_def)
qed

section \<open>The loop\<close>

lemma Unwind_loop_good:
  assumes "good w m 0 s"
  shows "yields (\<lambda>_. good w m 0) (\<lambda>_. False) (Unwind_loop n e fs dl suffixes vars) s"
  using assms
proof (induction n arbitrary: s vars)
  case 0
  then show ?case
    by (simp add: yields_def crash_def)
next
  case (Suc n)
  show ?case
  proof (cases "length (u_frames s) < m")
    case True
    obtain names attempted adjust_pc where vars: "vars = (names, attempted, adjust_pc)"
      by (metis prod_cases3)
    have "yields (\<lambda>v t. good w m 0 t) (\<lambda>_. False) (unwind_round e fs dl suffixes vars) s"
      using unwind_round_good [of w m "length (u_frames s)" s names e fs dl suffixes attempted adjust_pc] Suc.prems True
      unfolding vars by (auto simp: yields_def good_def split: prod.splits outcome.splits)
    then have "yields (\<lambda>_. good w m 0) (\<lambda>_. False) (bnd (unwind_round e fs dl suffixes vars) (\<lambda>vars.
        case vars of None \<Rightarrow> ret () | Some vars \<Rightarrow> Unwind_loop n e fs dl suffixes vars)) s"
    proof (rule yields_bnd)
      fix v and t :: "'a unwinder"
      assume "good w m 0 t"
      then show "yields (\<lambda>_. good w m 0) (\<lambda>_. False) (case v of None \<Rightarrow> ret () | Some vars \<Rightarrow> Unwind_loop n e fs dl suffixes vars) t"
        using Suc.IH [of t] by (cases v) (auto simp: yields_def [of _ _ "ret ()"])
    qed
    moreover have "Unwind_loop (Suc n) e fs dl suffixes vars s = bnd (unwind_round e fs dl suffixes vars) (\<lambda>vars.
        case vars of None \<Rightarrow> ret () | Some vars \<Rightarrow> Unwind_loop n e fs dl suffixes vars) s"
      using True Suc.prems by (simp add: bnd_def good_def)
    ultimately show ?thesis
      unfolding yields_def by simp
  qed (use Suc.prems in \<open>simp add: yields_def bnd_def good_def\<close>)
qed

lemma Unwind_loop_fuel:
  assumes "good w m 0 s" and "m - length (u_frames s) < n" and "m - length (u_frames s) < n'"
  shows "Unwind_loop n e fs dl suffixes (None, attempted, adjust_pc) s = Unwind_loop n' e fs dl suffixes (None, attempted, adjust_pc) s"
  using assms
proof (induction n arbitrary: n' s attempted adjust_pc)
  case (Suc n)
  obtain k where k: "n' = Suc k"
    using Suc.prems(3) by (cases n') auto
  show ?case
  proof (cases "length (u_frames s) < m")
    case True
    note round = unwind_round_good [of w m "length (u_frames s)" s None e fs dl suffixes attempted adjust_pc]
    have "Unwind_loop n e fs dl suffixes x t = Unwind_loop k e fs dl suffixes x t"
      if "unwind_round e fs dl suffixes (None, attempted, adjust_pc) s = (Ok (Some x), t)" for x t
    proof -
      have "good w m 0 t" "fst x = None" "length (u_frames s) < length (u_frames t)"
        using round Suc.prems(1) True that by (cases x; auto simp: yields_def good_def)+
      moreover then have "m - length (u_frames t) < n" "m - length (u_frames t) < k"
        using Suc.prems(2,3) True k by linarith+
      ultimately show ?thesis
        using Suc.IH [of t k] by (metis prod.collapse)
    qed
    then show ?thesis
      using True Suc.prems(1) unfolding k by (auto simp: bnd_def good_def split: prod.splits outcome.splits option.splits)
  qed (use Suc.prems(1) k in \<open>simp add: bnd_def good_def\<close>)
qed simp

lemma frame_ok_geometry:
  assumes "geometry w = geometry t"
  shows "frame_ok w = frame_ok t"
proof -
  have "fits w a f = fits t a f" for a f
    using Find_geometry [OF assms, of "fr_pc f + a"] geometry_info [OF assms]
    by (auto simp: fits_def map_geometry_def split: option.split)
  then show ?thesis
    by (auto simp: frame_ok_def)
qed

lemma good_start:
  "good (u_world s) (u_max_frames s) 0 (s\<lparr>u_frames := [], u_last_error := err, u_elf_from_memory_not_file := b\<rparr>)"
  by (simp add: good_def good_frames_def)

text \<open>
  C5. \<^verbatim>\<open>Unwind\<close> delivers at most as many frames as are allowed, numbered from zero. It leaves the addresses of all maps as they
  are, and every frame names the map in which \<^verbatim>\<open>Find\<close> finds its pc, up to an adjustment of at most eight bytes, or no map
  if there is none.
\<close>

theorem Unwind_frames:
  "case Unwind n e fs dl names suffixes s of
      (Ok _, t) \<Rightarrow>
        length (u_frames t) \<le> u_max_frames s \<and> map fr_num (u_frames t) = [0..<length (u_frames t)] \<and>
        geometry (u_world t) = geometry (u_world s) \<and> list_all (frame_ok (u_world t)) (u_frames t)
    | (Fail, t) \<Rightarrow> False
    | (Crash c, t) \<Rightarrow> True"
proof -
  let ?err = "\<lparr>err_code = ERROR_NONE, err_address = 0\<rparr>"
  obtain x t where run: "Unwind n e fs dl names suffixes s = (x, t)"
    by fastforce
  then have "Unwind_loop n e fs dl suffixes (names, False, False)
      (s\<lparr>u_frames := [], u_last_error := ?err, u_elf_from_memory_not_file := False\<rparr>) = (x, t)"
    by (simp add: Unwind_def bnd_def)
  then have "case x of Ok _ \<Rightarrow> good (u_world s) (u_max_frames s) 0 t | Fail \<Rightarrow> False | Crash c \<Rightarrow> True"
    using Unwind_loop_good [OF good_start [where s = s and err = ?err and b = False], where n = n and e = e and fs = fs and
        dl = dl and suffixes = suffixes and vars = "(names, False, False)"] by (simp add: yields_def)
  then show ?thesis
    using frame_ok_geometry [of "u_world t" "u_world s"] by (cases x) (simp_all add: run good_def good_frames_def)
qed


text \<open>A process whose pc is in no map.\<close>

definition lost_unwinder :: "unit unwinder" where
  "lost_unwinder = Unwinder 2 example_world (Regs64 (set_pc 0x5000 (new_regs RegsX86_64_class))) (\<lambda>_ _. [])"


end
