(* ===== verification/Spec2Isabelle.thy ===== *)
theory Spec2Isabelle
  imports Dwarf_Op_Eval Dwarf_Cfa_Machine Regs_Steps Dwarf_Step Arm_Exidx_Machine Unwinder_Frames
begin

text \<open>
  A verification library for \<^verbatim>\<open>libunwindstack\<close>, the stack unwinder of Android (\<^verbatim>\<open>src/libunwindstack\<close>). This theory
  imports all others.

  \<^bold>\<open>The program.\<close> An unwinder gets the registers of a thread and the memory of its process and computes the frames of the
  call stack. For the pc of a frame it looks for the map of the process (\<^verbatim>\<open>Maps\<close>, \<^verbatim>\<open>MapInfo\<close>), makes an ELF object of the file or
  of the memory behind the map (\<^verbatim>\<open>Elf\<close>, \<^verbatim>\<open>ElfInterface\<close>, \<^verbatim>\<open>ElfInterfaceArm\<close>), and lets it compute the registers of the caller
  with one of three kinds of unwind information: \<^verbatim>\<open>.debug_frame\<close> and \<^verbatim>\<open>.eh_frame\<close>, with or without a search table
  (\<^verbatim>\<open>DwarfSection\<close>, \<^verbatim>\<open>DwarfEhFrameWithHdr\<close>), whose call frame instructions and expressions have interpreters (\<^verbatim>\<open>DwarfCfa\<close>,
  \<^verbatim>\<open>DwarfOp\<close>), the ARM exception index (\<^verbatim>\<open>ArmExidx\<close>), and the frames of signal handlers (\<^verbatim>\<open>Regs\<close>). Names of functions come from symbol
  tables (\<^verbatim>\<open>Symbols\<close>); code without a file is found through lists that the runtime keeps in the process (\<^verbatim>\<open>Global\<close>,
  \<^verbatim>\<open>JitDebug\<close>, \<^verbatim>\<open>DexFiles\<close>). \<^verbatim>\<open>Unwinder\<close> and \<^verbatim>\<open>LocalUnwinder\<close> are the loops on top.

  \<^bold>\<open>The model.\<close> Machine integers are words of their width; the model is that of a little-endian host with a \<^verbatim>\<open>size_t\<close> of 64
  bits. An object is a record with the members of the class, a member function is a function on it: \<open>('s, 'r) prog\<close> takes the
  state and delivers an outcome with the new state. \<open>Ok\<close> is a result, \<open>Fail\<close> is \<^verbatim>\<open>false\<close> or \<^verbatim>\<open>nullptr\<close>, \<open>Crash Undefined\<close>
  is undefined behaviour, \<open>Crash CheckFailed\<close> an abort, a failed check or an exception, and \<open>Crash OutOfFuel\<close> a loop that has
  not ended within its fuel. A memory is a function from an address and a size to the bytes that a read delivers, at most
  that many. An uninitialised variable is an argument.

  \<^bold>\<open>Theories.\<close>
  \<^item> \<open>Unwind_Prelude\<close>: outcomes and the sequencing of calls, with one rule per combinator for what calls maintain, keep, and not run
    out of (\<open>maintains\<close>, \<open>keeps\<close>, \<open>never_starves\<close>); object representation, numbers as text, \<^verbatim>\<open>std::map\<close>. \<open>Interval_Search\<close>: the
    contract of the binary searches for an interval, interpreted for \<^verbatim>\<open>Symbols::GetInfoFromCache\<close> and \<^verbatim>\<open>Maps::Find\<close>.
  \<^item> \<open>Memory\<close> (\<^verbatim>\<open>Memory.cpp\<close>): the memory classes. The cache is transparent; ranges, mapped files, \<^verbatim>\<open>ptrace\<close> reads and strings deliver
    the bytes they stand for. The classes are interpretations of the locale of memory readers.
  \<^item> \<open>Dwarf_Memory\<close> (\<^verbatim>\<open>DwarfMemory.cpp\<close>): the cursor. LEB128 numbers round trip, from a bound on below which a shift is undefined;
    encoded values consume their size.
  \<^item> \<open>Dwarf_Op_Table\<close>, \<open>Dwarf_Op\<close>, \<open>Dwarf_Op_Eval\<close> (\<^verbatim>\<open>DwarfOp.cpp\<close>): expressions. When an operation is undefined, when \<^verbatim>\<open>Eval\<close>
    succeeds, and that it computes on encoded programs what a stack machine computes.
  \<^item> \<open>Dwarf_Structs\<close>, \<open>Dwarf_Cfa\<close>, \<open>Dwarf_Cfa_Rows\<close>, \<open>Dwarf_Cfa_Machine\<close> (\<^verbatim>\<open>DwarfCfa.cpp\<close>): call frame instructions. The rows are those
    of the row machine of the DWARF standard, they hold for their whole interval, errors are accurate; two programs
    that give a wrong row and a loop without end.
  \<^item> \<open>Dwarf_Section\<close>, \<open>Dwarf_Section_Eval\<close>, \<open>Dwarf_Section_NoHdr\<close>, \<open>Dwarf_Eh_Frame_With_Hdr\<close>, \<open>Dwarf_Step\<close> (\<^verbatim>\<open>DwarfSection.cpp\<close>,
    \<^verbatim>\<open>DwarfDebugFrame.h\<close>, \<^verbatim>\<open>DwarfEhFrame.h\<close>, \<^verbatim>\<open>DwarfEhFrameWithHdr.cpp\<close>): sections. The registers of the caller are what the rules
    of the row say, in whatever order they are evaluated; the index of FDEs, the scan of a section and the search in a
    table are correct and end; a step uses a row for its pc; two ways to corrupt the entries by parsing a CIE twice.
  \<^item> \<open>Regs\<close>, \<open>Regs_Steps\<close> (\<^verbatim>\<open>Regs*.cpp\<close> and the headers of the kernel structures): register sets. Signal frames
    restore the registers of their \<^verbatim>\<open>ucontext\<close>, \<^verbatim>\<open>ptrace\<close> registers keep their names, the return address step changes the pc only.
  \<^item> \<open>Arm_Exidx\<close>, \<open>Arm_Exidx_Machine\<close> (\<^verbatim>\<open>ArmExidx.cpp\<close>): the exception index instructions do what the ABI defines.
  \<^item> \<open>Symbols\<close> (\<^verbatim>\<open>Symbols.cpp\<close>): lookups do not depend on earlier ones. \<open>Elf_Types\<close>: the structures of \<^verbatim>\<open>elf.h\<close>.
  \<^item> \<open>Elf_Interface\<close>, \<open>Elf_Interface_Arm\<close>, \<open>Elf_Object\<close> (\<^verbatim>\<open>ElfInterface.cpp\<close>, \<^verbatim>\<open>ElfInterfaceArm.cpp\<close>, \<^verbatim>\<open>Elf.cpp\<close>): headers, names, build
    ids and steps. The build id is that of the notes, the search in the exception index is correct.
  \<^item> \<open>Map_Info\<close>, \<open>Process_Maps\<close> (\<^verbatim>\<open>MapInfo.cpp\<close>, the cache of \<^verbatim>\<open>Elf.cpp\<close>, \<^verbatim>\<open>Maps.cpp\<close>): maps and ELF objects in a heap, with pointers as
    indices. \<^verbatim>\<open>GetElf\<close> keeps the heap sound, \<^verbatim>\<open>Find\<close> finds the map, \<^verbatim>\<open>Reparse\<close> delivers the maps of the kernel if the last map is
    still there; what happens otherwise, and a pointer that dangles afterwards.
  \<^item> \<open>Global_Variables\<close> (\<^verbatim>\<open>Global.cpp\<close>, \<^verbatim>\<open>JitDebug.cpp\<close>, \<^verbatim>\<open>DexFile.cpp\<close>, \<^verbatim>\<open>DexFiles.cpp\<close>): the method of a dex pc is that of the first
    dex file of the list that knows it; a list that is a cycle is followed for ever.
  \<^item> \<open>Unwinder\<close>, \<open>Unwinder_Frames\<close> (\<^verbatim>\<open>Unwinder.cpp\<close>, \<^verbatim>\<open>LocalUnwinder.cpp\<close>): the number and the numbering of the frames, their maps,
    and that the loop ends.

  \<^bold>\<open>Fuel.\<close> A loop that ends for every input is a function with a termination proof. The others get fuel. It is enough
  for \<^verbatim>\<open>DwarfOp::Eval\<close>, which stops itself after 1000 operations; for \<^verbatim>\<open>GetLocationInfo\<close> on assembled programs, where it is the
  number of instructions; for \<^verbatim>\<open>GetLogInfo\<close>, with the length of the expression; for the search in a table, with 64 rounds; for the
  scan of a section without a table, if its memory ends and lengths do not wrap around; for the list of dex files, with its length;
  for \<^verbatim>\<open>Unwind\<close>, with the number of frames and one. \<open>env_fuel\<close> bounds the remaining loops over data of a file or of the process (notes, dynamic
  entries, symbols with an entry size of zero, compressed data, lists of the runtime), which need not end; statements about
  them hold for every fuel, and running out of it is an outcome of its own.

  \<^bold>\<open>Parameters.\<close> \<^verbatim>\<open>std::sort\<close> (any function with its contract), the iteration order of hash maps, the LZMA decoder, libdexfile,
  the demangler, the files and their mappings, the lines of the kernel's file of maps, \<^verbatim>\<open>ptrace\<close>, and uninitialised variables.

  \<^bold>\<open>Not modelled.\<close> Locks and the interleaving of threads: a call that holds a lock is one step. Failed memory allocation. The
  log (\<^verbatim>\<open>Log.cpp\<close>), except for the texts that are passed to it. The assembly that stores the registers of the own thread
  (\<^verbatim>\<open>AsmGetRegs*.S\<close>, \<^verbatim>\<open>RegsGetLocal.h\<close>), whose result is a parameter. The tools, which only print. \<^verbatim>\<open>src/libbacktrace\<close>: an older interface
  that copies frames and maps of this library into its own structures and coordinates threads with signals and
  \<^verbatim>\<open>ptrace\<close>. Of \<^verbatim>\<open>Memory.cpp\<close> the class
  \<^verbatim>\<open>MemoryLocal\<close>, the system calls, which are parameters, and the functions that only allocate an object of a class.
\<close>

end
